(* ===== verification/Prelude.thy ===== *)
theory Prelude
  imports Main "HOL-Library.Word"
begin

text \<open>
  Shared vocabulary of the development: bytes and machine words, results that may be an error,
  bounds-checked memory, and the arithmetic of four-byte alignment.

  The model fixes one configuration of the sources.  \<^verbatim>\<open>product/source/osc/OscTypes.h\<close> selects
  \<^verbatim>\<open>int32 = signed int\<close> when \<^verbatim>\<open>x86_64\<close> is defined, and
  \<^verbatim>\<open>product/source/osc/OscHostEndianness.h\<close> selects a little-endian host; \<^verbatim>\<open>long\<close>,
  \<^verbatim>\<open>size_t\<close> and pointers have 64 bits.  Pointers into one buffer are offsets from its start,
  of type \<open>nat\<close>: adding a 32-bit length to a 64-bit pointer does not wrap.
\<close>

unbundle bit_operations_syntax

named_theorems mem_simps "rewriting of bounds-checked reads and writes"
named_theorems align_simps "arithmetic of four-byte alignment"

type_synonym byte = "8 word"
type_synonym bytes = "byte list"
type_synonym int32 = "32 word"
type_synonym uint32 = "32 word"
type_synonym int64 = "64 word"
type_synonym uint64 = "64 word"
type_synonym ulong = "64 word"

section \<open>Results that may be an error\<close>

fun ebind :: "'e + 'a \<Rightarrow> ('a \<Rightarrow> 'e + 'b) \<Rightarrow> 'e + 'b" where
  "ebind (Inl e) f = Inl e"
| "ebind (Inr a) f = f a"

lemma ebind_cong [fundef_cong]:
  "m = m' \<Longrightarrow> (\<And>a. m' = Inr a \<Longrightarrow> f a = f' a) \<Longrightarrow> ebind m f = ebind m' f'"
  by (cases m') auto

lemma ebind_eq_Inr_iff: "ebind m f = Inr b \<longleftrightarrow> (\<exists>a. m = Inr a \<and> f a = Inr b)"
  by (cases m) auto

lemma ebind_eq_Inl_iff:
  "ebind m f = Inl e \<longleftrightarrow> m = Inl e \<or> (\<exists>a. m = Inr a \<and> f a = Inl e)"
  by (cases m) auto

lemma ebind_assoc: "ebind (ebind m f) g = ebind m (\<lambda>a. ebind (f a) g)"
  by (cases m) auto

lemma ebind_right: "ebind m Inr = m"
  by (cases m) auto

lemma ebind_if:
  "ebind (if c then m else m') f = (if c then ebind m f else ebind m' f)"
  by simp

section \<open>Words and natural numbers\<close>

lemma unat_of_nat_small: "n < 2 ^ LENGTH('a) \<Longrightarrow> unat (of_nat n :: 'a::len word) = n"
  by (simp add: unat_of_nat)

lemma unat_ucast_mod: "unat (ucast (w :: 'a::len word) :: 'b::len word) = unat w mod 2 ^ LENGTH('b)"
  by (simp add: unsigned_ucast_eq take_bit_eq_mod)

section \<open>Four-byte alignment\<close>

text \<open>The least multiple of four that is not below \<open>n\<close>: what both \<^verbatim>\<open>RoundUp4\<close> compute.\<close>

definition roundup4 :: "nat \<Rightarrow> nat" where
  "roundup4 n = (n + 3) div 4 * 4"

lemma roundup4_ge [align_simps]: "n \<le> roundup4 n"
  by (simp add: roundup4_def)

lemma roundup4_less [align_simps]: "roundup4 n < n + 4"
  by (simp add: roundup4_def)

lemma roundup4_mod [align_simps, simp]: "roundup4 n mod 4 = 0"
  by (simp add: roundup4_def)

lemma roundup4_id: "n mod 4 = 0 \<Longrightarrow> roundup4 n = n"
  unfolding roundup4_def by presburger

lemma roundup4_mono: "m \<le> n \<Longrightarrow> roundup4 m \<le> roundup4 n"
  unfolding roundup4_def by (intro mult_le_mono1 div_le_mono) simp

lemma roundup4_le_iff: "m mod 4 = 0 \<Longrightarrow> roundup4 n \<le> m \<longleftrightarrow> n \<le> m"
  unfolding roundup4_def by presburger

lemma roundup4_small [simp]: "roundup4 0 = 0" "roundup4 2 = 4" "roundup4 (Suc 0) = 4"
  "roundup4 (Suc (Suc 0)) = 4"
  by (simp_all add: roundup4_def)

lemma roundup4_pos: "0 < n \<Longrightarrow> 4 \<le> roundup4 n"
  unfolding roundup4_def by presburger

lemma roundup4_eq_add: "n mod 4 \<noteq> 0 \<Longrightarrow> roundup4 n = n + (4 - n mod 4)"
  unfolding roundup4_def by presburger

section \<open>Overwriting a block of a list\<close>

definition blit :: "nat \<Rightarrow> 'a list \<Rightarrow> 'a list \<Rightarrow> 'a list" where
  "blit off xs buf = take off buf @ xs @ drop (off + length xs) buf"

lemma length_blit [mem_simps, simp]:
  "off + length xs \<le> length buf \<Longrightarrow> length (blit off xs buf) = length buf"
  by (simp add: blit_def)

lemma take_blit_below [mem_simps]:
  "n \<le> off \<Longrightarrow> off + length xs \<le> length buf \<Longrightarrow> take n (blit off xs buf) = take n buf"
  by (simp add: blit_def min_def)

lemma drop_blit_above [mem_simps]:
  "off + length xs \<le> n \<Longrightarrow> off + length xs \<le> length buf \<Longrightarrow>
   drop n (blit off xs buf) = drop n buf"
  by (simp add: blit_def)

lemma take_blit_end:
  "off + length xs \<le> length buf \<Longrightarrow>
   take (off + length xs) (blit off xs buf) = take off buf @ xs"
  by (simp add: blit_def)

lemma take_drop_blit_same:
  "off + length xs \<le> length buf \<Longrightarrow> take (length xs) (drop off (blit off xs buf)) = xs"
  by (simp add: blit_def)

lemma blit_blit_adjacent:
  assumes "off + length xs + length ys \<le> length buf"
  shows "blit (off + length xs) ys (blit off xs buf) = blit off (xs @ ys) buf"
  using assms by (simp add: blit_def ac_simps)

lemma blit_Nil [simp]: "blit off [] buf = buf"
  by (simp add: blit_def)

text \<open>\<open>mem_at mem p xs\<close>: the bytes \<open>xs\<close> stand in \<open>mem\<close> from offset \<open>p\<close> on.\<close>

definition mem_at :: "'a list \<Rightarrow> nat \<Rightarrow> 'a list \<Rightarrow> bool" where
  "mem_at mem p xs \<longleftrightarrow> p + length xs \<le> length mem \<and> take (length xs) (drop p mem) = xs"

lemma mem_at_Nil [simp]: "mem_at mem p [] \<longleftrightarrow> p \<le> length mem"
  by (simp add: mem_at_def)

lemma mem_at_append:
  "mem_at mem p (xs @ ys) \<longleftrightarrow> mem_at mem p xs \<and> mem_at mem (p + length xs) ys"
  by (auto simp: mem_at_def take_add drop_drop add.commute add.left_commute)

lemma mem_at_nth: "mem_at mem p xs \<Longrightarrow> i < length xs \<Longrightarrow> mem ! (p + i) = xs ! i"
  unfolding mem_at_def by (metis add_leD1 nth_drop nth_take)

lemma mem_at_bound: "mem_at mem p xs \<Longrightarrow> p + length xs \<le> length mem"
  by (simp add: mem_at_def)

lemma mem_at_self [simp]: "mem_at xs 0 xs"
  by (simp add: mem_at_def)

lemma mem_at_Cons:
  "mem_at mem p (x # xs) \<longleftrightarrow> p < length mem \<and> mem ! p = x \<and> mem_at mem (Suc p) xs"
  using mem_at_append [of mem p "[x]" xs]
  by (auto simp: mem_at_def take_Suc_conv_app_nth hd_drop_conv_nth take_Suc)

lemma mem_at_iff_nth:
  "mem_at mem p xs \<longleftrightarrow> p + length xs \<le> length mem \<and> (\<forall>i<length xs. mem ! (p + i) = xs ! i)"
  by (auto simp: mem_at_def list_eq_iff_nth_eq)

lemma nth_blit:
  "off + length xs \<le> length buf \<Longrightarrow> i < length buf \<Longrightarrow>
   blit off xs buf ! i = (if off \<le> i \<and> i < off + length xs then xs ! (i - off) else buf ! i)"
  by (auto simp: blit_def nth_append min_def)

lemma mem_at_blit_same:
  "off + length xs \<le> length buf \<Longrightarrow> mem_at (blit off xs buf) off xs"
  by (simp add: mem_at_iff_nth nth_blit)

lemma mem_at_blit_disjoint:
  "off + length xs \<le> length buf \<Longrightarrow> mem_at buf p ys \<Longrightarrow>
   p + length ys \<le> off \<or> off + length xs \<le> p \<Longrightarrow> mem_at (blit off xs buf) p ys"
  by (auto simp: mem_at_iff_nth nth_blit)

lemma mem_at_take: "mem_at mem 0 xs \<longleftrightarrow> take (length xs) mem = xs \<and> length xs \<le> length mem"
  by (auto simp: mem_at_def)

end
