(* ===== verification/OscTypes.thy ===== *)
theory OscTypes
  imports Prelude
begin

text \<open>
  The constants of \<^verbatim>\<open>product/source/osc/OscTypes.h\<close>, and the errors of the OSC part: one
  constructor for every exception class the sources throw (\<open>RuntimeError\<close> is \<^verbatim>\<open>std::runtime_error\<close>, whose texts here lack the final newline), and two for behaviour that is no
  exception at all: \<open>Fault\<close> for an access outside the buffer or through a null pointer (undefined
  in C++), \<open>AssertFailed\<close> for a failing \<^verbatim>\<open>assert\<close>.
\<close>

section \<open>Errors\<close>

datatype osc_error =
    Fault
  | AssertFailed
  | OutOfBufferMemoryException
  | BundleNotInProgressException
  | MessageInProgressException
  | MessageNotInProgressException
  | MalformedMessageException string
  | MalformedBundleException string
  | WrongArgumentTypeException
  | MissingArgumentException
  | ExcessArgumentException
  | OscExcInvalidArgumentType
  | OscExcOutOfBounds
  | RuntimeError string

section \<open>Characters as bytes\<close>

definition byte_of :: "char \<Rightarrow> byte" where
  "byte_of c = of_char c"

definition bytes_of :: "string \<Rightarrow> bytes" where
  "bytes_of s = map byte_of s"

lemma bytes_of_simps [simp]:
  "bytes_of [] = []"
  "bytes_of (c # s) = byte_of c # bytes_of s"
  by (simp_all add: bytes_of_def)

lemma length_bytes_of [simp]: "length (bytes_of s) = length s"
  by (simp add: bytes_of_def)

text \<open>A C string argument: the characters before the first NUL.\<close>

definition c_str :: "bytes \<Rightarrow> bytes" where
  "c_str s = takeWhile (\<lambda>b. b \<noteq> 0) s"

lemma zero_notin_c_str [simp]: "0 \<notin> set (c_str s)"
  by (auto simp: c_str_def dest: set_takeWhileD)

lemma c_str_id: "0 \<notin> set s \<Longrightarrow> c_str s = s"
  unfolding c_str_def by (induction s) auto

lemma length_c_str: "length (c_str s) \<le> length s"
  by (simp add: c_str_def length_takeWhile_le)

section \<open>Type tags\<close>

definition TRUE_TYPE_TAG :: byte where "TRUE_TYPE_TAG = byte_of (CHR ''T'')"
definition FALSE_TYPE_TAG :: byte where "FALSE_TYPE_TAG = byte_of (CHR ''F'')"
definition NIL_TYPE_TAG :: byte where "NIL_TYPE_TAG = byte_of (CHR ''N'')"
definition INFINITUM_TYPE_TAG :: byte where "INFINITUM_TYPE_TAG = byte_of (CHR ''I'')"
definition INT32_TYPE_TAG :: byte where "INT32_TYPE_TAG = byte_of (CHR ''i'')"
definition FLOAT_TYPE_TAG :: byte where "FLOAT_TYPE_TAG = byte_of (CHR ''f'')"
definition CHAR_TYPE_TAG :: byte where "CHAR_TYPE_TAG = byte_of (CHR ''c'')"
definition RGBA_COLOR_TYPE_TAG :: byte where "RGBA_COLOR_TYPE_TAG = byte_of (CHR ''r'')"
definition MIDI_MESSAGE_TYPE_TAG :: byte where "MIDI_MESSAGE_TYPE_TAG = byte_of (CHR ''m'')"
definition INT64_TYPE_TAG :: byte where "INT64_TYPE_TAG = byte_of (CHR ''h'')"
definition TIME_TAG_TYPE_TAG :: byte where "TIME_TAG_TYPE_TAG = byte_of (CHR ''t'')"
definition DOUBLE_TYPE_TAG :: byte where "DOUBLE_TYPE_TAG = byte_of (CHR ''d'')"
definition STRING_TYPE_TAG :: byte where "STRING_TYPE_TAG = byte_of (CHR ''s'')"
definition SYMBOL_TYPE_TAG :: byte where "SYMBOL_TYPE_TAG = byte_of (CHR ''S'')"
definition BLOB_TYPE_TAG :: byte where "BLOB_TYPE_TAG = byte_of (CHR ''b'')"

lemma byte_of_values:
  "byte_of (CHR ''T'') = 84" "byte_of (CHR ''F'') = 70" "byte_of (CHR ''N'') = 78"
  "byte_of (CHR ''I'') = 73" "byte_of (CHR ''i'') = 105" "byte_of (CHR ''f'') = 102"
  "byte_of (CHR ''c'') = 99" "byte_of (CHR ''r'') = 114" "byte_of (CHR ''m'') = 109"
  "byte_of (CHR ''h'') = 104" "byte_of (CHR ''t'') = 116" "byte_of (CHR ''d'') = 100"
  "byte_of (CHR ''s'') = 115" "byte_of (CHR ''S'') = 83" "byte_of (CHR ''b'') = 98"
  "byte_of (CHR ''#'') = 35" "byte_of (CHR ''u'') = 117" "byte_of (CHR ''n'') = 110"
  "byte_of (CHR ''l'') = 108" "byte_of (CHR ''e'') = 101" "byte_of (CHR '','') = 44"
  "byte_of (CHR ''/'') = 47"
  by (simp_all add: byte_of_def)

lemma tag_values [simp]:
  "TRUE_TYPE_TAG = 84" "FALSE_TYPE_TAG = 70" "NIL_TYPE_TAG = 78"
  "INFINITUM_TYPE_TAG = 73" "INT32_TYPE_TAG = 105" "FLOAT_TYPE_TAG = 102"
  "CHAR_TYPE_TAG = 99" "RGBA_COLOR_TYPE_TAG = 114" "MIDI_MESSAGE_TYPE_TAG = 109"
  "INT64_TYPE_TAG = 104" "TIME_TAG_TYPE_TAG = 116" "DOUBLE_TYPE_TAG = 100"
  "STRING_TYPE_TAG = 115" "SYMBOL_TYPE_TAG = 83" "BLOB_TYPE_TAG = 98"
  by (simp_all only: byte_of_values TRUE_TYPE_TAG_def FALSE_TYPE_TAG_def NIL_TYPE_TAG_def
      INFINITUM_TYPE_TAG_def INT32_TYPE_TAG_def FLOAT_TYPE_TAG_def CHAR_TYPE_TAG_def
      RGBA_COLOR_TYPE_TAG_def MIDI_MESSAGE_TYPE_TAG_def INT64_TYPE_TAG_def
      TIME_TAG_TYPE_TAG_def DOUBLE_TYPE_TAG_def STRING_TYPE_TAG_def SYMBOL_TYPE_TAG_def
      BLOB_TYPE_TAG_def)

section \<open>Argument values\<close>

text \<open>
  The value types that \<^verbatim>\<open>OutboundPacketStream\<close> accepts, one constructor per overload of
  \<^verbatim>\<open>operator<<\<close>.  A \<^verbatim>\<open>float\<close> or \<^verbatim>\<open>double\<close> is its bit pattern, a \<^verbatim>\<open>const char*\<close> the
  characters before the NUL, a blob the bytes \<^verbatim>\<open>data\<close> points to, whose number is \<^verbatim>\<open>size\<close>.
\<close>

datatype osc_value =
    OBool bool
  | ONil
  | OInfinitum
  | OInt32 int32
  | OFloat "32 word"
  | OChar byte
  | ORgbaColor uint32
  | OMidiMessage uint32
  | OInt64 int64
  | OTimeTag uint64
  | ODouble "64 word"
  | OString bytes
  | OSymbol bytes
  | OBlob bytes

text \<open>\<^verbatim>\<open>BeginBundleImmediate\<close> is a bundle initiator with time tag 1.\<close>

definition BeginBundleImmediate :: uint64 where
  "BeginBundleImmediate = 1"

end
