(* ===== verification/ByteOrder.thy ===== *)
theory ByteOrder
  imports OscTypes
begin

text \<open>
  Bounds-checked memory, the conversions between host integers and big-endian bytes
  (\<^verbatim>\<open>FromInt32\<close> ... in \<^verbatim>\<open>OscOutboundPacketStream.cpp\<close>, \<^verbatim>\<open>ToInt32\<close> ... in
  \<^verbatim>\<open>OscReceivedElements.cpp\<close>), the two \<^verbatim>\<open>RoundUp4\<close>, and the search for the end of a padded
  string.  The locale \<open>codec\<close> is the contract of a writer and a reader of one integer width.
\<close>

section \<open>Reading and writing memory\<close>

definition load_byte :: "bytes \<Rightarrow> nat \<Rightarrow> osc_error + byte" where
  "load_byte mem p = (if p < length mem then Inr (mem ! p) else Inl Fault)"

definition load_bytes :: "bytes \<Rightarrow> nat \<Rightarrow> nat \<Rightarrow> osc_error + bytes" where
  "load_bytes mem p n =
     (if p + n \<le> length mem then Inr (take n (drop p mem)) else Inl Fault)"

definition store_bytes :: "nat \<Rightarrow> bytes \<Rightarrow> bytes \<Rightarrow> osc_error + bytes" where
  "store_bytes p xs mem =
     (if p + length xs \<le> length mem then Inr (blit p xs mem) else Inl Fault)"

lemma store_bytes_ok [mem_simps]:
  "p + length xs \<le> length mem \<Longrightarrow> store_bytes p xs mem = Inr (blit p xs mem)"
  by (simp add: store_bytes_def)

lemma load_byte_ok [mem_simps]: "p < length mem \<Longrightarrow> load_byte mem p = Inr (mem ! p)"
  by (simp add: load_byte_def)

lemma load_byte_at: "mem_at mem p xs \<Longrightarrow> i < length xs \<Longrightarrow> load_byte mem (p + i) = Inr (xs ! i)"
  using mem_at_bound [of mem p xs] by (simp add: load_byte_def mem_at_nth)

lemma load_byte_Inr: "load_byte mem p = Inr b \<longleftrightarrow> p < length mem \<and> b = mem ! p"
  by (auto simp: load_byte_def)

lemma load_bytes_at: "mem_at mem p xs \<Longrightarrow> load_bytes mem p (length xs) = Inr xs"
  by (simp add: load_bytes_def mem_at_def)

section \<open>Unions of an integer and its bytes\<close>

text \<open>
  \<^verbatim>\<open>union { int32 i; char c[4]; } u\<close> on a little-endian host: \<^verbatim>\<open>u.c[k]\<close> is the byte of
  weight \<open>256\<^sup>k\<close>.
\<close>

definition union_byte :: "'a::len word \<Rightarrow> nat \<Rightarrow> byte" where
  "union_byte w k = ucast (drop_bit (8 * k) w)"

definition union_int32 :: "byte \<Rightarrow> byte \<Rightarrow> byte \<Rightarrow> byte \<Rightarrow> 32 word" where
  "union_int32 c0 c1 c2 c3 =
     ucast c0 OR push_bit 8 (ucast c1) OR push_bit 16 (ucast c2) OR push_bit 24 (ucast c3)"

definition union_int64 ::
  "byte \<Rightarrow> byte \<Rightarrow> byte \<Rightarrow> byte \<Rightarrow> byte \<Rightarrow> byte \<Rightarrow> byte \<Rightarrow> byte \<Rightarrow> 64 word" where
  "union_int64 c0 c1 c2 c3 c4 c5 c6 c7 =
     ucast c0 OR push_bit 8 (ucast c1) OR push_bit 16 (ucast c2) OR push_bit 24 (ucast c3)
     OR push_bit 32 (ucast c4) OR push_bit 40 (ucast c5) OR push_bit 48 (ucast c6)
     OR push_bit 56 (ucast c7)"

lemma bit_union_byte: "bit (union_byte w k) n \<longleftrightarrow> n < 8 \<and> bit w (8 * k + n)"
  by (auto simp: union_byte_def bit_simps)

lemma bit_push_byte:
  "bit (push_bit k (ucast (c :: byte)) :: 'a::len word) n \<longleftrightarrow>
   k \<le> n \<and> n < k + 8 \<and> n < LENGTH('a) \<and> bit c (n - k)"
  using bit_imp_le_length [of c "n - k"] by (auto simp: bit_simps)

lemma bit_ucast_byte:
  "bit (ucast (c :: byte) :: 'a::len word) n \<longleftrightarrow> n < 8 \<and> n < LENGTH('a) \<and> bit c n"
  using bit_imp_le_length [of c n] by (auto simp: bit_simps)

lemmas union_bits = union_int32_def union_int64_def bit_or_iff bit_push_byte bit_ucast_byte
  bit_union_byte

lemma byte_positions32:
  "n < 32 \<Longrightarrow> n < 8 \<or> 8 \<le> n \<and> n < 16 \<or> 16 \<le> n \<and> n < 24 \<or> 24 \<le> n \<and> n < (32 :: nat)"
  by auto

lemma byte_positions64:
  "n < 64 \<Longrightarrow> n < 8 \<or> 8 \<le> n \<and> n < 16 \<or> 16 \<le> n \<and> n < 24 \<or> 24 \<le> n \<and> n < 32
    \<or> 32 \<le> n \<and> n < 40 \<or> 40 \<le> n \<and> n < 48 \<or> 48 \<le> n \<and> n < 56 \<or> 56 \<le> n \<and> n < (64 :: nat)"
  by auto

lemma union_int32_bytes:
  "union_int32 (union_byte w 0) (union_byte w 1) (union_byte w 2) (union_byte w 3) = w"
    (is "?u = w")
proof (rule bit_word_eqI)
  fix n assume "n < LENGTH(32)"
  then have "n < 32" by simp
  from byte_positions32 [OF this] show "bit ?u n = bit w n"
    by (elim disjE) (auto simp: union_bits)
qed

lemma union_int64_bytes:
  "union_int64 (union_byte w 0) (union_byte w 1) (union_byte w 2) (union_byte w 3)
     (union_byte w 4) (union_byte w 5) (union_byte w 6) (union_byte w 7) = w"
    (is "?u = w")
proof (rule bit_word_eqI)
  fix n assume "n < LENGTH(64)"
  then have "n < 64" by simp
  from byte_positions64 [OF this] show "bit ?u n = bit w n"
    by (elim disjE) (auto simp: union_bits)
qed

lemma union_byte_int32:
  "union_byte (union_int32 c0 c1 c2 c3) 0 = c0" "union_byte (union_int32 c0 c1 c2 c3) 1 = c1"
  "union_byte (union_int32 c0 c1 c2 c3) 2 = c2" "union_byte (union_int32 c0 c1 c2 c3) 3 = c3"
  by (rule bit_word_eqI, auto simp: union_bits)+

lemma union_byte_int64:
  "union_byte (union_int64 c0 c1 c2 c3 c4 c5 c6 c7) 0 = c0"
  "union_byte (union_int64 c0 c1 c2 c3 c4 c5 c6 c7) 1 = c1"
  "union_byte (union_int64 c0 c1 c2 c3 c4 c5 c6 c7) 2 = c2"
  "union_byte (union_int64 c0 c1 c2 c3 c4 c5 c6 c7) 3 = c3"
  "union_byte (union_int64 c0 c1 c2 c3 c4 c5 c6 c7) 4 = c4"
  "union_byte (union_int64 c0 c1 c2 c3 c4 c5 c6 c7) 5 = c5"
  "union_byte (union_int64 c0 c1 c2 c3 c4 c5 c6 c7) 6 = c6"
  "union_byte (union_int64 c0 c1 c2 c3 c4 c5 c6 c7) 7 = c7"
  by (rule bit_word_eqI, auto simp: union_bits)+

section \<open>Writers and readers of integers\<close>

text \<open>The writers, as the bytes they store at \<^verbatim>\<open>p[0]\<close>, \<^verbatim>\<open>p[1]\<close>, ...\<close>

definition FromInt32 :: "int32 \<Rightarrow> bytes" where
  "FromInt32 x = [union_byte x 3, union_byte x 2, union_byte x 1, union_byte x 0]"

definition FromUInt32 :: "uint32 \<Rightarrow> bytes" where
  "FromUInt32 x = [union_byte x 3, union_byte x 2, union_byte x 1, union_byte x 0]"

definition FromInt64 :: "int64 \<Rightarrow> bytes" where
  "FromInt64 x = [union_byte x 7, union_byte x 6, union_byte x 5, union_byte x 4,
                  union_byte x 3, union_byte x 2, union_byte x 1, union_byte x 0]"

definition FromUInt64 :: "uint64 \<Rightarrow> bytes" where
  "FromUInt64 x = [union_byte x 7, union_byte x 6, union_byte x 5, union_byte x 4,
                   union_byte x 3, union_byte x 2, union_byte x 1, union_byte x 0]"

text \<open>A store through \<^verbatim>\<open>reinterpret_cast<uint32*>\<close> keeps the host's little-endian order.\<close>

definition HostUInt32 :: "uint32 \<Rightarrow> bytes" where
  "HostUInt32 x = [union_byte x 0, union_byte x 1, union_byte x 2, union_byte x 3]"

text \<open>The readers; every byte is read at its own offset.\<close>

definition ToInt32 :: "bytes \<Rightarrow> nat \<Rightarrow> osc_error + int32" where
  "ToInt32 mem p =
     ebind (load_byte mem (p + 3)) (\<lambda>c0. ebind (load_byte mem (p + 2)) (\<lambda>c1.
     ebind (load_byte mem (p + 1)) (\<lambda>c2. ebind (load_byte mem p) (\<lambda>c3.
       Inr (union_int32 c0 c1 c2 c3)))))"

definition ToUInt32 :: "bytes \<Rightarrow> nat \<Rightarrow> osc_error + uint32" where
  "ToUInt32 mem p =
     ebind (load_byte mem (p + 3)) (\<lambda>c0. ebind (load_byte mem (p + 2)) (\<lambda>c1.
     ebind (load_byte mem (p + 1)) (\<lambda>c2. ebind (load_byte mem p) (\<lambda>c3.
       Inr (union_int32 c0 c1 c2 c3)))))"

definition ToInt64 :: "bytes \<Rightarrow> nat \<Rightarrow> osc_error + int64" where
  "ToInt64 mem p =
     ebind (load_byte mem (p + 7)) (\<lambda>c0. ebind (load_byte mem (p + 6)) (\<lambda>c1.
     ebind (load_byte mem (p + 5)) (\<lambda>c2. ebind (load_byte mem (p + 4)) (\<lambda>c3.
     ebind (load_byte mem (p + 3)) (\<lambda>c4. ebind (load_byte mem (p + 2)) (\<lambda>c5.
     ebind (load_byte mem (p + 1)) (\<lambda>c6. ebind (load_byte mem p) (\<lambda>c7.
       Inr (union_int64 c0 c1 c2 c3 c4 c5 c6 c7)))))))))"

definition ToUInt64 :: "bytes \<Rightarrow> nat \<Rightarrow> osc_error + uint64" where
  "ToUInt64 mem p =
     ebind (load_byte mem (p + 7)) (\<lambda>c0. ebind (load_byte mem (p + 6)) (\<lambda>c1.
     ebind (load_byte mem (p + 5)) (\<lambda>c2. ebind (load_byte mem (p + 4)) (\<lambda>c3.
     ebind (load_byte mem (p + 3)) (\<lambda>c4. ebind (load_byte mem (p + 2)) (\<lambda>c5.
     ebind (load_byte mem (p + 1)) (\<lambda>c6. ebind (load_byte mem p) (\<lambda>c7.
       Inr (union_int64 c0 c1 c2 c3 c4 c5 c6 c7)))))))))"

text \<open>\<^verbatim>\<open>*reinterpret_cast<uint32*>(p)\<close> read in host order.\<close>

definition HostToUInt32 :: "bytes \<Rightarrow> nat \<Rightarrow> osc_error + uint32" where
  "HostToUInt32 mem p =
     ebind (load_byte mem p) (\<lambda>c0. ebind (load_byte mem (p + 1)) (\<lambda>c1.
     ebind (load_byte mem (p + 2)) (\<lambda>c2. ebind (load_byte mem (p + 3)) (\<lambda>c3.
       Inr (union_int32 c0 c1 c2 c3)))))"

section \<open>The contract of an integer writer and its reader\<close>

locale codec =
  fixes width :: nat
    and enc :: "'a \<Rightarrow> bytes"
    and dec :: "bytes \<Rightarrow> nat \<Rightarrow> osc_error + 'a"
  assumes length_enc: "length (enc x) = width"
    and dec_at: "mem_at mem p (enc x) \<Longrightarrow> dec mem p = Inr x"
    and dec_defined: "p + width \<le> length mem \<Longrightarrow> \<exists>x. mem_at mem p (enc x)"
    and dec_fault: "length mem < p + width \<Longrightarrow> dec mem p = Inl Fault"
begin

lemma enc_inject: "enc x = enc y \<longleftrightarrow> x = y"
  using dec_at [of "enc x" 0 x] dec_at [of "enc x" 0 y] by auto

lemma dec_Inr_iff: "dec mem p = Inr x \<longleftrightarrow> mem_at mem p (enc x)"
proof
  assume r: "dec mem p = Inr x"
  then have "p + width \<le> length mem" using dec_fault [of mem p] by (cases "p + width \<le> length mem") auto
  then obtain y where "mem_at mem p (enc y)" using dec_defined by blast
  with dec_at [OF this] r show "mem_at mem p (enc x)" by simp
qed (rule dec_at)

lemma dec_ok_iff: "(\<exists>x. dec mem p = Inr x) \<longleftrightarrow> p + width \<le> length mem"
  using dec_defined [of p mem] by (auto simp: dec_Inr_iff length_enc dest: mem_at_bound)

lemma dec_Inl_iff: "dec mem p = Inl e \<longleftrightarrow> e = Fault \<and> length mem < p + width"
  using dec_fault [of mem p] dec_ok_iff [of mem p] by (cases "dec mem p") auto

lemma dec_after_store:
  "p + width \<le> length mem \<Longrightarrow> dec (blit p (enc x) mem) p = Inr x"
  using take_drop_blit_same [of p "enc x" mem]
  by (intro dec_at) (simp add: mem_at_def length_enc)

end

lemma mem_at_4:
  "mem_at mem p [a, b, c, d] \<longleftrightarrow>
   p + 4 \<le> length mem \<and> mem ! p = a \<and> mem ! (p + 1) = b \<and> mem ! (p + 2) = c \<and> mem ! (p + 3) = d"
  by (auto simp: mem_at_Cons eval_nat_numeral)

lemma mem_at_8:
  "mem_at mem p [a, b, c, d, e, f, g, h] \<longleftrightarrow>
   p + 8 \<le> length mem \<and> mem ! p = a \<and> mem ! (p + 1) = b \<and> mem ! (p + 2) = c \<and>
   mem ! (p + 3) = d \<and> mem ! (p + 4) = e \<and> mem ! (p + 5) = f \<and> mem ! (p + 6) = g \<and>
   mem ! (p + 7) = h"
  by (auto simp: mem_at_Cons eval_nat_numeral)

lemmas union32 = union_int32_bytes [simplified] union_byte_int32 [simplified]
lemmas union64 = union_int64_bytes [simplified] union_byte_int64 [simplified]

interpretation int32_codec: codec 4 FromInt32 ToInt32
proof
  show "\<exists>x. mem_at mem p (FromInt32 x)" if "p + 4 \<le> length mem" for p mem
    using that
    by (intro exI [of _ "union_int32 (mem ! (p + 3)) (mem ! (p + 2)) (mem ! (p + 1)) (mem ! p)"])
      (simp add: FromInt32_def mem_at_4 union32)
qed (auto simp: FromInt32_def ToInt32_def mem_at_4 load_byte_def union32)

interpretation uint32_codec: codec 4 FromUInt32 ToUInt32
proof
  show "\<exists>x. mem_at mem p (FromUInt32 x)" if "p + 4 \<le> length mem" for p mem
    using that
    by (intro exI [of _ "union_int32 (mem ! (p + 3)) (mem ! (p + 2)) (mem ! (p + 1)) (mem ! p)"])
      (simp add: FromUInt32_def mem_at_4 union32)
qed (auto simp: FromUInt32_def ToUInt32_def mem_at_4 load_byte_def union32)

interpretation host_codec: codec 4 HostUInt32 HostToUInt32
proof
  show "\<exists>x. mem_at mem p (HostUInt32 x)" if "p + 4 \<le> length mem" for p mem
    using that
    by (intro exI [of _ "union_int32 (mem ! p) (mem ! (p + 1)) (mem ! (p + 2)) (mem ! (p + 3))"])
      (simp add: HostUInt32_def mem_at_4 union32)
qed (auto simp: HostUInt32_def HostToUInt32_def mem_at_4 load_byte_def union32)

interpretation int64_codec: codec 8 FromInt64 ToInt64
proof
  show "\<exists>x. mem_at mem p (FromInt64 x)" if "p + 8 \<le> length mem" for p mem
    using that
    by (intro exI [of _ "union_int64 (mem ! (p + 7)) (mem ! (p + 6)) (mem ! (p + 5)) (mem ! (p + 4)) 
        (mem ! (p + 3)) (mem ! (p + 2)) (mem ! (p + 1)) (mem ! p)"])
      (simp add: FromInt64_def mem_at_8 union64)
qed (auto simp: FromInt64_def ToInt64_def mem_at_8 load_byte_def union64)

interpretation uint64_codec: codec 8 FromUInt64 ToUInt64
proof
  show "\<exists>x. mem_at mem p (FromUInt64 x)" if "p + 8 \<le> length mem" for p mem
    using that
    by (intro exI [of _ "union_int64 (mem ! (p + 7)) (mem ! (p + 6)) (mem ! (p + 5)) (mem ! (p + 4)) 
        (mem ! (p + 3)) (mem ! (p + 2)) (mem ! (p + 1)) (mem ! p)"])
      (simp add: FromUInt64_def mem_at_8 union64)
qed (auto simp: FromUInt64_def ToUInt64_def mem_at_8 load_byte_def union64)

lemmas codec_lengths [simp] = int32_codec.length_enc uint32_codec.length_enc
  host_codec.length_enc int64_codec.length_enc uint64_codec.length_enc

section \<open>Rounding up to a multiple of four\<close>

text \<open>\<^verbatim>\<open>RoundUp4( long x )\<close> of the writer and \<^verbatim>\<open>RoundUp4( unsigned long x )\<close> of the reader.\<close>

definition RoundUp4_long :: "64 word \<Rightarrow> 64 word" where
  "RoundUp4_long x = ((x - 1) AND NOT 3) + 4"

definition RoundUp4_ulong :: "ulong \<Rightarrow> ulong" where
  "RoundUp4_ulong x =
     (let remainder = x AND 3 in if remainder \<noteq> 0 then x + (4 - remainder) else x)"

lemma unat_and_3: "unat (x AND 3 :: 64 word) = unat x mod 4"
proof -
  have "x AND 3 = take_bit 2 x" by (simp add: take_bit_eq_mask mask_eq_exp_minus_1)
  also have "\<dots> = x mod 4" by (simp add: take_bit_eq_mod)
  finally show ?thesis by (simp add: unat_mod)
qed

lemma and_3_of_nat: "(x :: 64 word) AND 3 = of_nat (unat x mod 4)"
  by (simp flip: unat_and_3)

lemma and_3_zero_iff: "(x :: 64 word) AND 3 = 0 \<longleftrightarrow> unat x mod 4 = 0"
  by (simp add: unat_eq_zero flip: unat_and_3)

lemma and_not_3: "x AND - 4 = (x :: 64 word) - (x AND 3)"
proof -
  have "(x AND 3) + (x AND NOT 3) = (x AND 3) OR (x AND NOT 3)"
    by (rule disjunctive_add) (simp add: bit_simps)
  also have "\<dots> = x" by (rule bit_word_eqI) (auto simp: bit_simps)
  finally show ?thesis by (simp add: algebra_simps)
qed

lemma pred_mod4: "0 < n \<Longrightarrow> n mod 4 = 0 \<Longrightarrow> (n - 1) mod 4 = (3 :: nat)"
  by (cases n) (auto simp: mod_Suc split: if_splits)

lemma pred_mod4_nonzero: "n mod 4 \<noteq> 0 \<Longrightarrow> (n - 1) mod 4 = n mod 4 - (1 :: nat)"
  by (cases n) (auto simp: mod_Suc split: if_splits)

lemma pred_and_3:
  "(x - 1 :: 64 word) AND 3 = (if x AND 3 = 0 then 3 else (x AND 3) - 1)"
proof (cases "x = 0")
  case False
  then have pos: "0 < unat x" by (simp add: unat_gt_0)
  have "unat (x - 1) = unat x - 1" using False by (rule unat_minus_one)
  then have pred: "(x - 1) AND 3 = of_nat ((unat x - 1) mod 4)" by (subst and_3_of_nat) simp
  show ?thesis
  proof (cases "unat x mod 4 = 0")
    case True
    with pos have "(unat x - 1) mod 4 = 3" by (intro pred_mod4)
    with pred have "(x - 1) AND 3 = 3" by (simp only: of_nat_numeral)
    moreover from True have "x AND 3 = 0" by (simp only: and_3_zero_iff)
    ultimately show ?thesis by (simp only: if_True refl)
  next
    case nz: False
    then have "(unat x - 1) mod 4 = unat x mod 4 - 1" by (rule pred_mod4_nonzero)
    with pred have "(x - 1) AND 3 = of_nat (unat x mod 4 - 1)" by (simp only:)
    also have "\<dots> = of_nat (unat x mod 4) - 1"
      using nz by (subst of_nat_diff) auto
    also have "\<dots> = (x AND 3) - 1" by (subst and_3_of_nat) (rule refl)
    finally show ?thesis using nz by (simp only: and_3_zero_iff if_False refl)
  qed
qed simp

lemma RoundUp4_ulong_eq_long: "RoundUp4_ulong x = RoundUp4_long x"
  by (simp add: RoundUp4_long_def RoundUp4_ulong_def and_not_3 pred_and_3 Let_def)

lemma RoundUp4_ulong_of_nat: "RoundUp4_ulong x = of_nat (roundup4 (unat x))"
proof (cases "unat x mod 4 = 0")
  case True
  then show ?thesis by (simp add: RoundUp4_ulong_def and_3_of_nat roundup4_id)
next
  case False
  then have r: "roundup4 (unat x) = unat x + (4 - unat x mod 4)"
    by (rule roundup4_eq_add)
  have "x AND 3 \<noteq> 0" using False by (simp add: and_3_zero_iff)
  then show ?thesis
    unfolding r by (simp add: RoundUp4_ulong_def Let_def and_3_of_nat of_nat_diff)
qed

lemma unat_RoundUp4_ulong:
  assumes "unat x \<le> 2 ^ 64 - 4"
  shows "unat (RoundUp4_ulong x) = roundup4 (unat x)"
proof -
  have "roundup4 (unat x) \<le> 2 ^ 64 - 4" using roundup4_mono [OF assms] by (simp add: roundup4_def)
  then show ?thesis by (simp add: RoundUp4_ulong_of_nat unat_of_nat_small)
qed

lemma RoundUp4_long_of_nat:
  "n < 2 ^ 64 \<Longrightarrow> RoundUp4_long (of_nat n) = of_nat (roundup4 n)"
  by (simp add: RoundUp4_ulong_of_nat unat_of_nat_small flip: RoundUp4_ulong_eq_long)

end
