(* ===== verification/OscReceived.thy ===== *)
theory OscReceived
  imports ByteOrder
begin

text \<open>
  The parser of \<^verbatim>\<open>product/source/osc/OscReceivedElements.{h,cpp}\<close>: packets, bundle elements,
  messages and their arguments as views into the received bytes.  Pointers are offsets into
  \<open>mem\<close>, the buffer that holds the packet; a null pointer is \<open>None\<close>, an access outside \<open>mem\<close> or
  through a null pointer is \<open>Inl Fault\<close>.  The validation of blob arguments and the loop over the
  bundle elements are kept as the source has them: see \<open>check_arg\<close> and \<open>bundle_elements\<close>.
\<close>

section \<open>The end of a padded string\<close>

text \<open>\<^verbatim>\<open>FindStr4End( p )\<close>, for a string known to be terminated.\<close>

function find4 :: "bytes \<Rightarrow> nat \<Rightarrow> osc_error + nat" where
  "find4 mem p = ebind (load_byte mem p) (\<lambda>b. if b \<noteq> 0 then find4 mem (p + 4) else Inr (p + 1))"
  by pat_completeness auto
termination
  by (relation "measure (\<lambda>(mem, p). length mem - p)") (auto simp: load_byte_Inr)

declare find4.simps [simp del]

definition FindStr4End :: "bytes \<Rightarrow> nat \<Rightarrow> osc_error + nat" where
  "FindStr4End mem p = ebind (load_byte mem p) (\<lambda>b. if b = 0 then Inr (p + 4) else find4 mem (p + 3))"

text \<open>\<^verbatim>\<open>FindStr4End( p, end )\<close>; the loop runs with \<^verbatim>\<open>end\<close> already decremented.\<close>

function find4_before :: "bytes \<Rightarrow> nat \<Rightarrow> nat \<Rightarrow> osc_error + nat option" where
  "find4_before mem p end1 =
     ebind (load_byte mem p) (\<lambda>b.
       if p < end1 \<and> b \<noteq> 0 then find4_before mem (p + 4) end1
       else if b \<noteq> 0 then Inr None else Inr (Some (p + 1)))"
  by pat_completeness auto
termination by (relation "measure (\<lambda>(mem, p, end1). end1 - p)") auto

declare find4_before.simps [simp del]

definition FindStr4End_before :: "bytes \<Rightarrow> nat \<Rightarrow> nat \<Rightarrow> osc_error + nat option" where
  "FindStr4End_before mem p e =
     (if e \<le> p then Inr None
      else ebind (load_byte mem p) (\<lambda>b.
        if b = 0 then Inr (Some (p + 4)) else find4_before mem (p + 3) (e - 1)))"

section \<open>Packets and bundle elements\<close>

record received_packet =
  contents :: nat
  packet_size :: int32

definition ReceivedPacket_IsBundle :: "bytes \<Rightarrow> received_packet \<Rightarrow> osc_error + bool" where
  "ReceivedPacket_IsBundle mem p =
     (if 0 < sint (packet_size p)
      then ebind (load_byte mem (contents p)) (\<lambda>b. Inr (b = byte_of (CHR ''#'')))
      else Inr False)"

definition ReceivedPacket_IsMessage :: "bytes \<Rightarrow> received_packet \<Rightarrow> osc_error + bool" where
  "ReceivedPacket_IsMessage mem p = ebind (ReceivedPacket_IsBundle mem p) (\<lambda>b. Inr (\<not> b))"

text \<open>A \<^verbatim>\<open>ReceivedBundleElement\<close> is the pointer \<^verbatim>\<open>size_\<close> to its size slot.\<close>

definition Element_Size :: "bytes \<Rightarrow> nat \<Rightarrow> osc_error + int32" where
  "Element_Size mem size_ptr = ToUInt32 mem size_ptr"

definition Element_Contents :: "nat \<Rightarrow> nat" where
  "Element_Contents size_ptr = size_ptr + 4"

definition Element_IsBundle :: "bytes \<Rightarrow> nat \<Rightarrow> osc_error + bool" where
  "Element_IsBundle mem size_ptr =
     ebind (Element_Size mem size_ptr) (\<lambda>size.
       if 0 < sint size
       then ebind (load_byte mem (Element_Contents size_ptr)) (\<lambda>b. Inr (b = byte_of (CHR ''#'')))
       else Inr False)"

definition Element_IsMessage :: "bytes \<Rightarrow> nat \<Rightarrow> osc_error + bool" where
  "Element_IsMessage mem size_ptr = ebind (Element_IsBundle mem size_ptr) (\<lambda>b. Inr (\<not> b))"

text \<open>\<^verbatim>\<open>ReceivedBundleElementIterator::Advance\<close>: \<^verbatim>\<open>Size()\<close> is signed.\<close>

definition Element_Advance :: "bytes \<Rightarrow> nat \<Rightarrow> osc_error + nat" where
  "Element_Advance mem size_ptr =
     ebind (Element_Size mem size_ptr) (\<lambda>size.
       let p = int (Element_Contents size_ptr) + sint size
       in if p < 0 then Inl Fault else Inr (nat p))"

text \<open>The two increments of the iterator: the value of \<^verbatim>\<open>i++\<close> is the old position.\<close>

definition Element_preincrement :: "bytes \<Rightarrow> nat \<Rightarrow> osc_error + (nat \<times> nat)" where
  "Element_preincrement mem i = ebind (Element_Advance mem i) (\<lambda>j. Inr (j, j))"

definition Element_postincrement :: "bytes \<Rightarrow> nat \<Rightarrow> osc_error + (nat \<times> nat)" where
  "Element_postincrement mem i = ebind (Element_Advance mem i) (\<lambda>j. Inr (i, j))"

definition same_element :: "nat \<Rightarrow> nat \<Rightarrow> bool" where
  "same_element i j = (i = j)"

section \<open>Arguments\<close>

record received_argument =
  typeTag :: "nat option"
  argument :: "nat option"

definition deref :: "nat option \<Rightarrow> (nat \<Rightarrow> osc_error + 'a) \<Rightarrow> osc_error + 'a" where
  "deref p f = (case p of None \<Rightarrow> Inl Fault | Some q \<Rightarrow> f q)"

definition TypeTag :: "bytes \<Rightarrow> received_argument \<Rightarrow> osc_error + byte" where
  "TypeTag mem a = deref (typeTag a) (load_byte mem)"

definition has_tag :: "byte \<Rightarrow> bytes \<Rightarrow> received_argument \<Rightarrow> osc_error + bool" where
  "has_tag t mem a = ebind (TypeTag mem a) (\<lambda>b. Inr (b = t))"

definition IsBool :: "bytes \<Rightarrow> received_argument \<Rightarrow> osc_error + bool" where
  "IsBool mem a = ebind (TypeTag mem a) (\<lambda>b. Inr (b = TRUE_TYPE_TAG \<or> b = FALSE_TYPE_TAG))"

definition IsNil :: "bytes \<Rightarrow> received_argument \<Rightarrow> osc_error + bool" where
  "IsNil = has_tag NIL_TYPE_TAG"

definition IsInfinitum :: "bytes \<Rightarrow> received_argument \<Rightarrow> osc_error + bool" where
  "IsInfinitum = has_tag INFINITUM_TYPE_TAG"

definition IsInt32 :: "bytes \<Rightarrow> received_argument \<Rightarrow> osc_error + bool" where
  "IsInt32 = has_tag INT32_TYPE_TAG"

definition IsFloat :: "bytes \<Rightarrow> received_argument \<Rightarrow> osc_error + bool" where
  "IsFloat = has_tag FLOAT_TYPE_TAG"

definition IsChar :: "bytes \<Rightarrow> received_argument \<Rightarrow> osc_error + bool" where
  "IsChar = has_tag CHAR_TYPE_TAG"

definition IsRgbaColor :: "bytes \<Rightarrow> received_argument \<Rightarrow> osc_error + bool" where
  "IsRgbaColor = has_tag RGBA_COLOR_TYPE_TAG"

definition IsMidiMessage :: "bytes \<Rightarrow> received_argument \<Rightarrow> osc_error + bool" where
  "IsMidiMessage = has_tag MIDI_MESSAGE_TYPE_TAG"

definition IsInt64 :: "bytes \<Rightarrow> received_argument \<Rightarrow> osc_error + bool" where
  "IsInt64 = has_tag INT64_TYPE_TAG"

definition IsTimeTag :: "bytes \<Rightarrow> received_argument \<Rightarrow> osc_error + bool" where
  "IsTimeTag = has_tag TIME_TAG_TYPE_TAG"

definition IsDouble :: "bytes \<Rightarrow> received_argument \<Rightarrow> osc_error + bool" where
  "IsDouble = has_tag DOUBLE_TYPE_TAG"

definition IsSymbol :: "bytes \<Rightarrow> received_argument \<Rightarrow> osc_error + bool" where
  "IsSymbol = has_tag SYMBOL_TYPE_TAG"

definition IsBlob :: "bytes \<Rightarrow> received_argument \<Rightarrow> osc_error + bool" where
  "IsBlob = has_tag BLOB_TYPE_TAG"

definition IsString :: "bytes \<Rightarrow> received_argument \<Rightarrow> osc_error + bool" where
  "IsString = has_tag STRING_TYPE_TAG"

text \<open>The test every \<^verbatim>\<open>As...()\<close> makes before its unchecked variant runs.\<close>

definition checked ::
    "byte \<Rightarrow> (bytes \<Rightarrow> received_argument \<Rightarrow> osc_error + 'a) \<Rightarrow> bytes \<Rightarrow> received_argument \<Rightarrow> osc_error + 'a" where
  "checked t f mem a =
     (case typeTag a of
        None \<Rightarrow> Inl MissingArgumentException
      | Some p \<Rightarrow> ebind (load_byte mem p) (\<lambda>b. if b = t then f mem a else Inl WrongArgumentTypeException))"

definition AsBool :: "bytes \<Rightarrow> received_argument \<Rightarrow> osc_error + bool" where
  "AsBool mem a =
     (case typeTag a of
        None \<Rightarrow> Inl MissingArgumentException
      | Some p \<Rightarrow> ebind (load_byte mem p) (\<lambda>b.
          if b = TRUE_TYPE_TAG then Inr True
          else if b = FALSE_TYPE_TAG then Inr False
          else Inl WrongArgumentTypeException))"

definition AsBoolUnchecked :: "bytes \<Rightarrow> received_argument \<Rightarrow> osc_error + bool" where
  "AsBoolUnchecked mem a =
     (case typeTag a of
        None \<Rightarrow> Inl MissingArgumentException
      | Some p \<Rightarrow> ebind (load_byte mem p) (\<lambda>b. Inr (b = TRUE_TYPE_TAG)))"

definition AsInt32Unchecked :: "bytes \<Rightarrow> received_argument \<Rightarrow> osc_error + int32" where
  "AsInt32Unchecked mem a = deref (argument a) (\<lambda>p.
     ebind (load_byte mem (p + 3)) (\<lambda>c0. ebind (load_byte mem (p + 2)) (\<lambda>c1.
     ebind (load_byte mem (p + 1)) (\<lambda>c2. ebind (load_byte mem p) (\<lambda>c3.
       Inr (union_int32 c0 c1 c2 c3))))))"

definition AsInt32 :: "bytes \<Rightarrow> received_argument \<Rightarrow> osc_error + int32" where
  "AsInt32 = checked INT32_TYPE_TAG AsInt32Unchecked"

text \<open>The bit pattern of the \<^verbatim>\<open>float\<close>.\<close>

definition AsFloatUnchecked :: "bytes \<Rightarrow> received_argument \<Rightarrow> osc_error + 32 word" where
  "AsFloatUnchecked mem a = deref (argument a) (\<lambda>p.
     ebind (load_byte mem (p + 3)) (\<lambda>c0. ebind (load_byte mem (p + 2)) (\<lambda>c1.
     ebind (load_byte mem (p + 1)) (\<lambda>c2. ebind (load_byte mem p) (\<lambda>c3.
       Inr (union_int32 c0 c1 c2 c3))))))"

definition AsFloat :: "bytes \<Rightarrow> received_argument \<Rightarrow> osc_error + 32 word" where
  "AsFloat = checked FLOAT_TYPE_TAG AsFloatUnchecked"

definition AsCharUnchecked :: "bytes \<Rightarrow> received_argument \<Rightarrow> osc_error + byte" where
  "AsCharUnchecked mem a = deref (argument a) (\<lambda>p. ebind (ToInt32 mem p) (\<lambda>i. Inr (ucast i)))"

definition AsChar :: "bytes \<Rightarrow> received_argument \<Rightarrow> osc_error + byte" where
  "AsChar = checked CHAR_TYPE_TAG AsCharUnchecked"

definition AsRgbaColorUnchecked :: "bytes \<Rightarrow> received_argument \<Rightarrow> osc_error + uint32" where
  "AsRgbaColorUnchecked mem a = deref (argument a) (ToUInt32 mem)"

definition AsRgbaColor :: "bytes \<Rightarrow> received_argument \<Rightarrow> osc_error + uint32" where
  "AsRgbaColor = checked RGBA_COLOR_TYPE_TAG AsRgbaColorUnchecked"

definition AsMidiMessageUnchecked :: "bytes \<Rightarrow> received_argument \<Rightarrow> osc_error + uint32" where
  "AsMidiMessageUnchecked mem a = deref (argument a) (ToUInt32 mem)"

definition AsMidiMessage :: "bytes \<Rightarrow> received_argument \<Rightarrow> osc_error + uint32" where
  "AsMidiMessage = checked MIDI_MESSAGE_TYPE_TAG AsMidiMessageUnchecked"

definition AsInt64Unchecked :: "bytes \<Rightarrow> received_argument \<Rightarrow> osc_error + int64" where
  "AsInt64Unchecked mem a = deref (argument a) (ToInt64 mem)"

definition AsInt64 :: "bytes \<Rightarrow> received_argument \<Rightarrow> osc_error + int64" where
  "AsInt64 = checked INT64_TYPE_TAG AsInt64Unchecked"

definition AsTimeTagUnchecked :: "bytes \<Rightarrow> received_argument \<Rightarrow> osc_error + uint64" where
  "AsTimeTagUnchecked mem a = deref (argument a) (ToUInt64 mem)"

definition AsTimeTag :: "bytes \<Rightarrow> received_argument \<Rightarrow> osc_error + uint64" where
  "AsTimeTag = checked TIME_TAG_TYPE_TAG AsTimeTagUnchecked"

definition AsDoubleUnchecked :: "bytes \<Rightarrow> received_argument \<Rightarrow> osc_error + 64 word" where
  "AsDoubleUnchecked mem a = deref (argument a) (\<lambda>p.
     ebind (load_byte mem (p + 7)) (\<lambda>c0. ebind (load_byte mem (p + 6)) (\<lambda>c1.
     ebind (load_byte mem (p + 5)) (\<lambda>c2. ebind (load_byte mem (p + 4)) (\<lambda>c3.
     ebind (load_byte mem (p + 3)) (\<lambda>c4. ebind (load_byte mem (p + 2)) (\<lambda>c5.
     ebind (load_byte mem (p + 1)) (\<lambda>c6. ebind (load_byte mem p) (\<lambda>c7.
       Inr (union_int64 c0 c1 c2 c3 c4 c5 c6 c7))))))))))"

definition AsDouble :: "bytes \<Rightarrow> received_argument \<Rightarrow> osc_error + 64 word" where
  "AsDouble = checked DOUBLE_TYPE_TAG AsDoubleUnchecked"

text \<open>
  The pointer to the characters.  \<^verbatim>\<open>argument_\<close> is null only in \<^verbatim>\<open>ArgumentsEnd()\<close>, whose type tag is
  never that of a string.
\<close>

definition AsString :: "bytes \<Rightarrow> received_argument \<Rightarrow> osc_error + nat" where
  "AsString = checked STRING_TYPE_TAG (\<lambda>mem a. deref (argument a) Inr)"

definition AsSymbol :: "bytes \<Rightarrow> received_argument \<Rightarrow> osc_error + nat" where
  "AsSymbol = checked SYMBOL_TYPE_TAG (\<lambda>mem a. deref (argument a) Inr)"

text \<open>\<^verbatim>\<open>data\<close> and \<^verbatim>\<open>size\<close>.\<close>

definition AsBlobUnchecked :: "bytes \<Rightarrow> received_argument \<Rightarrow> osc_error + (nat \<times> ulong)" where
  "AsBlobUnchecked mem a =
     deref (argument a) (\<lambda>p. ebind (ToUInt32 mem p) (\<lambda>size. Inr (p + 4, ucast size)))"

definition AsBlob :: "bytes \<Rightarrow> received_argument \<Rightarrow> osc_error + (nat \<times> ulong)" where
  "AsBlob = checked BLOB_TYPE_TAG AsBlobUnchecked"

text \<open>What a client reads through a \<^verbatim>\<open>const char*\<close>: the bytes up to the NUL.\<close>

definition read_cstr :: "bytes \<Rightarrow> nat \<Rightarrow> osc_error + bytes" where
  "read_cstr mem p = (if 0 \<in> set (drop p mem) then Inr (c_str (drop p mem)) else Inl Fault)"

section \<open>Advancing to the next argument\<close>

definition skip_bytes :: "nat \<Rightarrow> received_argument \<Rightarrow> nat \<Rightarrow> osc_error + received_argument" where
  "skip_bytes n a t = Inr (a\<lparr>typeTag := Some (t + 1), argument := map_option (\<lambda>p. p + n) (argument a)\<rparr>)"

definition Advance :: "bytes \<Rightarrow> received_argument \<Rightarrow> osc_error + received_argument" where
  "Advance mem a =
     (case typeTag a of
        None \<Rightarrow> Inr a
      | Some t \<Rightarrow>
          ebind (load_byte mem t) (\<lambda>b.
            if b = 0 then Inr a
            else if b \<in> {TRUE_TYPE_TAG, FALSE_TYPE_TAG, NIL_TYPE_TAG, INFINITUM_TYPE_TAG}
            then skip_bytes 0 a t
            else if b \<in> {INT32_TYPE_TAG, FLOAT_TYPE_TAG, CHAR_TYPE_TAG, RGBA_COLOR_TYPE_TAG,
                         MIDI_MESSAGE_TYPE_TAG}
            then skip_bytes 4 a t
            else if b \<in> {INT64_TYPE_TAG, TIME_TAG_TYPE_TAG, DOUBLE_TYPE_TAG}
            then skip_bytes 8 a t
            else if b \<in> {STRING_TYPE_TAG, SYMBOL_TYPE_TAG}
            then ebind (deref (argument a) (FindStr4End mem)) (\<lambda>p.
                   Inr (a\<lparr>typeTag := Some (t + 1), argument := Some p\<rparr>))
            else if b = BLOB_TYPE_TAG
            then ebind (deref (argument a) (ToUInt32 mem)) (\<lambda>blobSize.
                   skip_bytes (4 + unat (RoundUp4_ulong (ucast blobSize))) a t)
            else Inr a))"

text \<open>The value of the increment and the new position of the iterator.\<close>

definition Argument_preincrement ::
    "bytes \<Rightarrow> received_argument \<Rightarrow> osc_error + (received_argument \<times> received_argument)" where
  "Argument_preincrement mem i = ebind (Advance mem i) (\<lambda>j. Inr (j, j))"

definition Argument_postincrement ::
    "bytes \<Rightarrow> received_argument \<Rightarrow> osc_error + (received_argument \<times> received_argument)" where
  "Argument_postincrement mem i = ebind (Advance mem i) (\<lambda>j. Inr (i, j))"

section \<open>Messages\<close>

record received_message =
  addressPattern :: nat
  typeTagsBegin :: "nat option"
  typeTagsEnd :: "nat option"
  arguments :: "nat option"

definition exceed :: osc_error where
  "exceed = MalformedMessageException ''arguments exceed message size''"

text \<open>
  One turn of the \<^verbatim>\<open>switch\<close> in \<^verbatim>\<open>Init\<close>: the position after the argument.  In the blob case the
  source constructs its exceptions without throwing them, so neither comparison has an effect.
\<close>

definition check_arg :: "bytes \<Rightarrow> nat \<Rightarrow> byte \<Rightarrow> nat \<Rightarrow> osc_error + nat" where
  "check_arg mem e t arg =
     (if t \<in> {TRUE_TYPE_TAG, FALSE_TYPE_TAG, NIL_TYPE_TAG, INFINITUM_TYPE_TAG} then Inr arg
      else if t \<in> {INT32_TYPE_TAG, FLOAT_TYPE_TAG, CHAR_TYPE_TAG, RGBA_COLOR_TYPE_TAG,
                   MIDI_MESSAGE_TYPE_TAG}
      then if arg = e then Inl exceed else if arg + 4 > e then Inl exceed else Inr (arg + 4)
      else if t \<in> {INT64_TYPE_TAG, TIME_TAG_TYPE_TAG, DOUBLE_TYPE_TAG}
      then if arg = e then Inl exceed else if arg + 8 > e then Inl exceed else Inr (arg + 8)
      else if t \<in> {STRING_TYPE_TAG, SYMBOL_TYPE_TAG}
      then if arg = e then Inl exceed
           else ebind (FindStr4End_before mem arg e) (\<lambda>r. case r of
                  None \<Rightarrow> Inl (MalformedMessageException ''unterminated string argument'')
                | Some p \<Rightarrow> Inr p)
      else if t = BLOB_TYPE_TAG
      then ebind (ToUInt32 mem arg) (\<lambda>blobSize.
             Inr (arg + 4 + unat (RoundUp4_ulong (ucast blobSize))))
      else Inl (MalformedMessageException ''unknown type tag''))"

text \<open>\<^verbatim>\<open>do ... while( *++typeTag != '\0' )\<close>; the result is \<^verbatim>\<open>typeTagsEnd_\<close>.\<close>

function check_args :: "bytes \<Rightarrow> nat \<Rightarrow> nat \<Rightarrow> nat \<Rightarrow> osc_error + nat" where
  "check_args mem e tag arg =
     ebind (load_byte mem tag) (\<lambda>t.
     ebind (check_arg mem e t arg) (\<lambda>arg'.
     ebind (load_byte mem (tag + 1)) (\<lambda>t'.
       if t' \<noteq> 0 then check_args mem e (tag + 1) arg' else Inr (tag + 1))))"
  by pat_completeness auto
termination
  by (relation "measure (\<lambda>(mem, e, tag, arg). length mem - tag)") (auto simp: load_byte_Inr)

declare check_args.simps [simp del]

definition Message_Init :: "bytes \<Rightarrow> nat \<Rightarrow> ulong \<Rightarrow> osc_error + received_message" where
  "Message_Init mem message sz =
     (let no_arguments = \<lparr>addressPattern = message, typeTagsBegin = None, typeTagsEnd = None,
                          arguments = None\<rparr> in
      if sz = 0
      then Inl (MalformedMessageException ''zero length messages not permitted'')
      else if sz AND 3 \<noteq> 0
      then Inl (MalformedMessageException ''message size must be multiple of four'')
      else
        let e = message + unat sz in
        ebind (FindStr4End_before mem message e) (\<lambda>r. case r of
          None \<Rightarrow> Inl (MalformedMessageException ''unterminated address pattern'')
        | Some tags \<Rightarrow>
            if tags = e then Inr no_arguments
            else
              ebind (load_byte mem tags) (\<lambda>comma.
              if comma \<noteq> byte_of (CHR '','')
              then Inl (MalformedMessageException ''type tags not present'')
              else
                ebind (load_byte mem (tags + 1)) (\<lambda>b.
                if b = 0 then Inr no_arguments
                else
                  ebind (FindStr4End_before mem tags e) (\<lambda>r. case r of
                    None \<Rightarrow> Inl (MalformedMessageException
                              ''type tags were not terminated before end of message'')
                  | Some args \<Rightarrow>
                      ebind (check_args mem e (tags + 1) args) (\<lambda>tags_end.
                        Inr \<lparr>addressPattern = message, typeTagsBegin = Some (tags + 1),
                             typeTagsEnd = Some tags_end, arguments = Some args\<rparr>))))))"

text \<open>\<^verbatim>\<open>Size()\<close> is an \<^verbatim>\<open>int32\<close>, the parameter of \<^verbatim>\<open>Init\<close> an \<^verbatim>\<open>unsigned long\<close>: the sign is extended.\<close>

definition ReceivedMessage_packet :: "bytes \<Rightarrow> received_packet \<Rightarrow> osc_error + received_message" where
  "ReceivedMessage_packet mem p = Message_Init mem (contents p) (scast (packet_size p))"

definition ReceivedMessage_element :: "bytes \<Rightarrow> nat \<Rightarrow> osc_error + received_message" where
  "ReceivedMessage_element mem size_ptr =
     ebind (Element_Size mem size_ptr) (\<lambda>size.
       Message_Init mem (Element_Contents size_ptr) (scast size))"

definition AddressPatternIsUInt32 :: "bytes \<Rightarrow> received_message \<Rightarrow> osc_error + bool" where
  "AddressPatternIsUInt32 mem m = ebind (load_byte mem (addressPattern m)) (\<lambda>b. Inr (b = 0))"

definition AddressPatternAsUInt32 :: "bytes \<Rightarrow> received_message \<Rightarrow> osc_error + uint32" where
  "AddressPatternAsUInt32 mem m = ToUInt32 mem (addressPattern m)"

definition ArgumentsBegin :: "received_message \<Rightarrow> received_argument" where
  "ArgumentsBegin m = \<lparr>typeTag = typeTagsBegin m, argument = arguments m\<rparr>"

definition ArgumentsEnd :: "received_message \<Rightarrow> received_argument" where
  "ArgumentsEnd m = \<lparr>typeTag = typeTagsEnd m, argument = None\<rparr>"

text \<open>\<^verbatim>\<open>typeTagsEnd_ - typeTagsBegin_\<close>; both pointers are null when there are no arguments.\<close>

definition ArgumentCount :: "received_message \<Rightarrow> nat" where
  "ArgumentCount m =
     (case (typeTagsBegin m, typeTagsEnd m) of (Some b, Some e) \<Rightarrow> e - b | _ \<Rightarrow> 0)"

text \<open>\<^verbatim>\<open>operator==\<close> of the iterators compares the type tag pointers.\<close>

definition same_position :: "received_argument \<Rightarrow> received_argument \<Rightarrow> bool" where
  "same_position a b = (typeTag a = typeTag b)"

section \<open>Bundles\<close>

record received_bundle =
  timeTag :: nat
  bundle_end :: nat
  elementCount :: nat

text \<open>
  The loop of \<^verbatim>\<open>ReceivedBundle::Init\<close>.  \<^verbatim>\<open>4 + elementSize\<close> is computed in 32 bits before it is
  added to the pointer; when it wraps to 0 the loop does not advance, so the result \<open>None\<close> (no
  result at all) is possible.
\<close>

partial_function (option) bundle_elements ::
    "bytes \<Rightarrow> nat \<Rightarrow> nat \<Rightarrow> nat \<Rightarrow> (osc_error + nat) option" where
  "bundle_elements mem e p count =
     (if p < e then
        if p + 4 > e
        then Some (Inl (MalformedBundleException ''packet too short for elementSize''))
        else
          case ToUInt32 mem p of
            Inl err \<Rightarrow> Some (Inl err)
          | Inr elementSize \<Rightarrow>
              if elementSize AND 3 \<noteq> 0
              then Some (Inl (MalformedBundleException ''bundle element size must be multiple of four''))
              else
                let p' = p + unat (4 + elementSize) in
                if p' > e
                then Some (Inl (MalformedBundleException ''packet too short for bundle element''))
                else bundle_elements mem e p' (count + 1)
      else if p \<noteq> e then Some (Inl (MalformedBundleException ''bundle contents ''))
      else Some (Inr count))"

text \<open>\<^verbatim>\<open>bundle[0] != '#' || bundle[1] != 'b' || ...\<close>\<close>

fun differs_at :: "bytes \<Rightarrow> nat \<Rightarrow> bytes \<Rightarrow> osc_error + bool" where
  "differs_at mem p [] = Inr False"
| "differs_at mem p (x # xs) =
     ebind (load_byte mem p) (\<lambda>b. if b \<noteq> x then Inr True else differs_at mem (p + 1) xs)"

definition Bundle_Init :: "bytes \<Rightarrow> nat \<Rightarrow> ulong \<Rightarrow> (osc_error + received_bundle) option" where
  "Bundle_Init mem bundle sz =
     (if sz < 16 then Some (Inl (MalformedBundleException ''packet too short for bundle''))
      else if sz AND 3 \<noteq> 0
      then Some (Inl (MalformedBundleException ''bundle size must be multiple of four''))
      else
        case differs_at mem bundle (bytes_of ''#bundle'' @ [0]) of
          Inl err \<Rightarrow> Some (Inl err)
        | Inr True \<Rightarrow> Some (Inl (MalformedBundleException ''bad bundle address pattern''))
        | Inr False \<Rightarrow>
            let e = bundle + unat sz; time = bundle + 8; p = time + 8 in
            (case bundle_elements mem e p 0 of
               None \<Rightarrow> None
             | Some (Inl err) \<Rightarrow> Some (Inl err)
             | Some (Inr count) \<Rightarrow>
                 Some (Inr \<lparr>received_bundle.timeTag = time, bundle_end = e, elementCount = count\<rparr>)))"

definition ReceivedBundle_packet :: "bytes \<Rightarrow> received_packet \<Rightarrow> (osc_error + received_bundle) option" where
  "ReceivedBundle_packet mem p = Bundle_Init mem (contents p) (scast (packet_size p))"

definition ReceivedBundle_element :: "bytes \<Rightarrow> nat \<Rightarrow> (osc_error + received_bundle) option" where
  "ReceivedBundle_element mem size_ptr =
     (case Element_Size mem size_ptr of
        Inl err \<Rightarrow> Some (Inl err)
      | Inr sz \<Rightarrow> Bundle_Init mem (Element_Contents size_ptr) (scast sz))"

definition Bundle_TimeTag :: "bytes \<Rightarrow> received_bundle \<Rightarrow> osc_error + uint64" where
  "Bundle_TimeTag mem b = ToUInt64 mem (received_bundle.timeTag b)"

definition ElementsBegin :: "received_bundle \<Rightarrow> nat" where
  "ElementsBegin b = received_bundle.timeTag b + 8"

definition ElementsEnd :: "received_bundle \<Rightarrow> nat" where
  "ElementsEnd b = bundle_end b"

end
