(* ===== verification/OscOutbound.thy ===== *)
theory OscOutbound
  imports ByteOrder
begin

text \<open>
  \<^verbatim>\<open>class OutboundPacketStream\<close> of \<^verbatim>\<open>product/source/osc/OscOutboundPacketStream.{h,cpp}\<close>: a
  packet is written into a fixed buffer by a state machine.  Argument bytes grow upwards from
  \<open>messageCursor\<close>, type tags grow downwards from the end of the buffer, and the size slots of the
  open elements form a linked list inside the buffer, each holding the offset of the enclosing
  slot.

  Every operation checks its space before it writes, so an operation that throws leaves the
  object as it was: \<open>Inl e\<close> is the exception, the state is the one before the call.  A store or a
  load outside the buffer is \<open>Inl Fault\<close>.
\<close>

section \<open>State\<close>

record ostream =
  obuf :: bytes                        \<comment> \<open>the bytes from \<^verbatim>\<open>data_\<close> up to \<^verbatim>\<open>end_\<close>\<close>
  typeTagsCurrent :: nat               \<comment> \<open>pointers are offsets from \<^verbatim>\<open>data_\<close>\<close>
  messageCursor :: nat
  argumentCurrent :: nat
  elementSizePtr :: "nat option"       \<comment> \<open>\<open>None\<close>: null; \<open>Some 0\<close>: \<^verbatim>\<open>data_\<close>\<close>
  messageIsInProgress :: bool

definition OutboundPacketStream :: "bytes \<Rightarrow> ostream" where
  "OutboundPacketStream buffer =
     \<lparr>obuf = buffer, typeTagsCurrent = length buffer, messageCursor = 0, argumentCurrent = 0,
      elementSizePtr = None, messageIsInProgress = False\<rparr>"

definition end_ptr :: "ostream \<Rightarrow> nat" where
  "end_ptr st = length (obuf st)"

definition Clear :: "ostream \<Rightarrow> ostream" where
  "Clear st =
     st\<lparr>typeTagsCurrent := end_ptr st, messageCursor := 0, argumentCurrent := 0,
        elementSizePtr := None, messageIsInProgress := False\<rparr>"

section \<open>Observers\<close>

definition Capacity :: "ostream \<Rightarrow> 32 word" where
  "Capacity st = of_nat (end_ptr st)"

definition IsMessageInProgress :: "ostream \<Rightarrow> bool" where
  "IsMessageInProgress st = messageIsInProgress st"

definition IsBundleInProgress :: "ostream \<Rightarrow> bool" where
  "IsBundleInProgress st = (elementSizePtr st \<noteq> None)"

definition IsReady :: "ostream \<Rightarrow> bool" where
  "IsReady st = (\<not> IsMessageInProgress st \<and> \<not> IsBundleInProgress st)"

text \<open>The arithmetic of \<^verbatim>\<open>Size()\<close>: \<^verbatim>\<open>unsigned int\<close> plus \<^verbatim>\<open>long\<close>, stored as \<^verbatim>\<open>unsigned int\<close>.\<close>

definition Size :: "ostream \<Rightarrow> 32 word" where
  "Size st =
     (let result = of_nat (argumentCurrent st) :: 32 word in
      if IsMessageInProgress st
      then ucast (ucast result
             + RoundUp4_long (of_nat (end_ptr st - typeTagsCurrent st) + 2) :: 64 word)
      else result)"

text \<open>\<^verbatim>\<open>Data()\<close> with \<^verbatim>\<open>Size()\<close> bytes of it: what the sender passes to the socket.\<close>

definition Data :: "ostream \<Rightarrow> bytes" where
  "Data st = obuf st"

definition packet :: "ostream \<Rightarrow> bytes" where
  "packet st = take (unat (Size st)) (Data st)"

section \<open>Elements and their size slots\<close>

definition BeginElement :: "nat \<Rightarrow> ostream \<Rightarrow> osc_error + (nat \<times> ostream)" where
  "BeginElement beginPtr st =
     (case elementSizePtr st of
        None \<Rightarrow> Inr (beginPtr, st\<lparr>elementSizePtr := Some 0\<rparr>)
      | Some slot \<Rightarrow>
          ebind (store_bytes beginPtr (HostUInt32 (of_nat slot)) (obuf st)) (\<lambda>buf.
            Inr (beginPtr + 4, st\<lparr>obuf := buf, elementSizePtr := Some beginPtr\<rparr>)))"

definition EndElement :: "nat \<Rightarrow> ostream \<Rightarrow> osc_error + ostream" where
  "EndElement endPtr st =
     (case elementSizePtr st of
        None \<Rightarrow> Inl AssertFailed
      | Some slot \<Rightarrow>
          if slot = 0 then Inr (st\<lparr>elementSizePtr := None\<rparr>)
          else
            ebind (HostToUInt32 (obuf st) slot) (\<lambda>offset.
            let previousElementSizePtr = unat offset;
                elementSize = word_of_int (int endPtr - int slot - 4) :: uint32
            in ebind (store_bytes slot (FromUInt32 elementSize) (obuf st)) (\<lambda>buf.
                 Inr (st\<lparr>obuf := buf, elementSizePtr := Some previousElementSizePtr\<rparr>))))"

definition ElementSizeSlotRequired :: "ostream \<Rightarrow> bool" where
  "ElementSizeSlotRequired st = (elementSizePtr st \<noteq> None)"

section \<open>Space checks\<close>

text \<open>Each sum has the type C++ gives it before it is compared with \<^verbatim>\<open>Capacity()\<close>.\<close>

definition CheckForAvailableBundleSpace :: "ostream \<Rightarrow> osc_error + unit" where
  "CheckForAvailableBundleSpace st =
     (let required = ucast (Size st + (if ElementSizeSlotRequired st then 4 else 0) + 16) :: ulong
      in if required > ucast (Capacity st) then Inl OutOfBufferMemoryException else Inr ())"

definition CheckForAvailableMessageSpace :: "bytes \<Rightarrow> ostream \<Rightarrow> osc_error + unit" where
  "CheckForAvailableMessageSpace addressPattern st =
     (let required = ucast (Size st + (if ElementSizeSlotRequired st then 4 else 0))
            + RoundUp4_long (of_nat (length addressPattern) + 1) + 4 :: ulong
      in if required > ucast (Capacity st) then Inl OutOfBufferMemoryException else Inr ())"

definition CheckForAvailableArgumentSpace :: "64 word \<Rightarrow> ostream \<Rightarrow> osc_error + unit" where
  "CheckForAvailableArgumentSpace argumentLength st =
     (let required = of_nat (argumentCurrent st) + argumentLength
            + RoundUp4_long (of_nat (end_ptr st - typeTagsCurrent st) + 3) :: ulong
      in if required > ucast (Capacity st) then Inl OutOfBufferMemoryException else Inr ())"

section \<open>Zero padding\<close>

text \<open>\<^verbatim>\<open>while( i & 0x3 ){ *p++ = '\0'; ++i; }\<close>\<close>

function pad_zero :: "nat \<Rightarrow> nat \<Rightarrow> bytes \<Rightarrow> osc_error + (nat \<times> bytes)" where
  "pad_zero i p buf =
     (if i mod 4 \<noteq> 0
      then ebind (store_bytes p [0] buf) (\<lambda>buf'. pad_zero (i + 1) (p + 1) buf')
      else Inr (p, buf))"
  by pat_completeness auto
termination
  by (relation "measure (\<lambda>(i, p, buf). (4 - i mod 4) mod 4)") (auto simp: mod_Suc split: if_splits)

declare pad_zero.simps [simp del]

section \<open>Bundles and messages\<close>

definition begin_bundle :: "uint64 \<Rightarrow> ostream \<Rightarrow> osc_error + ostream" where
  "begin_bundle timeTag st =
     (if IsMessageInProgress st then Inl MessageInProgressException
      else
        ebind (CheckForAvailableBundleSpace st) (\<lambda>_.
        ebind (BeginElement (messageCursor st) st) (\<lambda>(cursor, st).
        ebind (store_bytes cursor (bytes_of ''#bundle'' @ [0]) (obuf st)) (\<lambda>buf.
        ebind (store_bytes (cursor + 8) (FromUInt64 timeTag) buf) (\<lambda>buf.
          Inr (st\<lparr>obuf := buf, messageCursor := cursor + 16, argumentCurrent := cursor + 16\<rparr>))))))"

definition end_bundle :: "ostream \<Rightarrow> osc_error + ostream" where
  "end_bundle st =
     (if \<not> IsBundleInProgress st then Inl BundleNotInProgressException
      else if IsMessageInProgress st then Inl MessageInProgressException
      else EndElement (messageCursor st) st)"

definition begin_message :: "bytes \<Rightarrow> ostream \<Rightarrow> osc_error + ostream" where
  "begin_message addressPattern st =
     (if IsMessageInProgress st then Inl MessageInProgressException
      else
        ebind (CheckForAvailableMessageSpace addressPattern st) (\<lambda>_.
        ebind (BeginElement (messageCursor st) st) (\<lambda>(cursor, st).
        ebind (store_bytes cursor (addressPattern @ [0]) (obuf st)) (\<lambda>buf.
        let rhsLength = length addressPattern in
        ebind (pad_zero (rhsLength + 1) (cursor + rhsLength + 1) buf) (\<lambda>(cursor, buf).
          Inr (st\<lparr>obuf := buf, messageCursor := cursor, argumentCurrent := cursor,
                  typeTagsCurrent := end_ptr st, messageIsInProgress := True\<rparr>))))))"

definition end_message :: "ostream \<Rightarrow> osc_error + ostream" where
  "end_message st =
     (if \<not> IsMessageInProgress st then Inl MessageNotInProgressException
      else
        let typeTagsCount = end_ptr st - typeTagsCurrent st; cursor = messageCursor st in
        ebind
          (if typeTagsCount \<noteq> 0 then
             ebind (load_bytes (obuf st) (typeTagsCurrent st) typeTagsCount) (\<lambda>tempTypeTags.
             let typeTagSlotSize = unat (RoundUp4_long (of_nat typeTagsCount + 2));
                 argumentsSize = unat (word_of_int (int (argumentCurrent st) - int cursor) :: uint32)
             in
             ebind (load_bytes (obuf st) cursor argumentsSize) (\<lambda>arguments.
             ebind (store_bytes (cursor + typeTagSlotSize) arguments (obuf st)) (\<lambda>buf.
             ebind (store_bytes cursor [byte_of (CHR '','')] buf) (\<lambda>buf.
             ebind (store_bytes (cursor + 1)
                      (map (\<lambda>i. tempTypeTags ! (typeTagsCount - 1 - i)) [0..<typeTagsCount]) buf)
               (\<lambda>buf.
             ebind (store_bytes (cursor + 1 + typeTagsCount)
                      (replicate (typeTagSlotSize - (typeTagsCount + 1)) 0) buf) (\<lambda>buf.
               Inr (st\<lparr>obuf := buf, typeTagsCurrent := end_ptr st,
                       messageCursor := cursor + (typeTagSlotSize + argumentsSize)\<rparr>)))))))
           else
             ebind (store_bytes cursor [byte_of (CHR '',''), 0, 0, 0] (obuf st)) (\<lambda>buf.
               Inr (st\<lparr>obuf := buf, messageCursor := cursor + 4\<rparr>)))
          (\<lambda>st.
            let st = st\<lparr>argumentCurrent := messageCursor st\<rparr> in
            ebind (EndElement (messageCursor st) st) (\<lambda>st.
              Inr (st\<lparr>messageIsInProgress := False\<rparr>))))"

section \<open>Arguments\<close>

text \<open>\<^verbatim>\<open>*(--typeTagsCurrent_) = tag\<close>\<close>

definition push_tag :: "byte \<Rightarrow> ostream \<Rightarrow> osc_error + ostream" where
  "push_tag tag st =
     (if typeTagsCurrent st = 0 then Inl Fault
      else ebind (store_bytes (typeTagsCurrent st - 1) [tag] (obuf st)) (\<lambda>buf.
             Inr (st\<lparr>obuf := buf, typeTagsCurrent := typeTagsCurrent st - 1\<rparr>)))"

text \<open>Bytes stored at \<^verbatim>\<open>argumentCurrent_\<close>, which advances past them.\<close>

definition put_bytes :: "bytes \<Rightarrow> ostream \<Rightarrow> osc_error + ostream" where
  "put_bytes xs st =
     ebind (store_bytes (argumentCurrent st) xs (obuf st)) (\<lambda>buf.
       Inr (st\<lparr>obuf := buf, argumentCurrent := argumentCurrent st + length xs\<rparr>))"

definition pad_argument :: "nat \<Rightarrow> ostream \<Rightarrow> osc_error + ostream" where
  "pad_argument i st =
     ebind (pad_zero i (argumentCurrent st) (obuf st)) (\<lambda>(p, buf).
       Inr (st\<lparr>obuf := buf, argumentCurrent := p\<rparr>))"

definition put_bool :: "bool \<Rightarrow> ostream \<Rightarrow> osc_error + ostream" where
  "put_bool rhs st =
     ebind (CheckForAvailableArgumentSpace 0 st) (\<lambda>_.
       push_tag (if rhs then TRUE_TYPE_TAG else FALSE_TYPE_TAG) st)"

definition put_nil :: "ostream \<Rightarrow> osc_error + ostream" where
  "put_nil st = ebind (CheckForAvailableArgumentSpace 0 st) (\<lambda>_. push_tag NIL_TYPE_TAG st)"

definition put_infinitum :: "ostream \<Rightarrow> osc_error + ostream" where
  "put_infinitum st =
     ebind (CheckForAvailableArgumentSpace 0 st) (\<lambda>_. push_tag INFINITUM_TYPE_TAG st)"

definition put_int32 :: "int32 \<Rightarrow> ostream \<Rightarrow> osc_error + ostream" where
  "put_int32 rhs st =
     ebind (CheckForAvailableArgumentSpace 4 st) (\<lambda>_.
     ebind (push_tag INT32_TYPE_TAG st) (\<lambda>st. put_bytes (FromInt32 rhs) st))"

text \<open>A \<^verbatim>\<open>float\<close> is stored through the union with its bytes, most significant first.\<close>

definition put_float :: "32 word \<Rightarrow> ostream \<Rightarrow> osc_error + ostream" where
  "put_float rhs st =
     ebind (CheckForAvailableArgumentSpace 4 st) (\<lambda>_.
     ebind (push_tag FLOAT_TYPE_TAG st) (\<lambda>st.
       put_bytes [union_byte rhs 3, union_byte rhs 2, union_byte rhs 1, union_byte rhs 0] st))"

text \<open>\<^verbatim>\<open>char\<close> is signed: passing it as \<^verbatim>\<open>int32\<close> extends the sign.\<close>

definition put_char :: "byte \<Rightarrow> ostream \<Rightarrow> osc_error + ostream" where
  "put_char rhs st =
     ebind (CheckForAvailableArgumentSpace 4 st) (\<lambda>_.
     ebind (push_tag CHAR_TYPE_TAG st) (\<lambda>st. put_bytes (FromInt32 (scast rhs)) st))"

definition put_rgba_color :: "uint32 \<Rightarrow> ostream \<Rightarrow> osc_error + ostream" where
  "put_rgba_color rhs st =
     ebind (CheckForAvailableArgumentSpace 4 st) (\<lambda>_.
     ebind (push_tag RGBA_COLOR_TYPE_TAG st) (\<lambda>st. put_bytes (FromUInt32 rhs) st))"

definition put_midi_message :: "uint32 \<Rightarrow> ostream \<Rightarrow> osc_error + ostream" where
  "put_midi_message rhs st =
     ebind (CheckForAvailableArgumentSpace 4 st) (\<lambda>_.
     ebind (push_tag MIDI_MESSAGE_TYPE_TAG st) (\<lambda>st. put_bytes (FromUInt32 rhs) st))"

definition put_int64 :: "int64 \<Rightarrow> ostream \<Rightarrow> osc_error + ostream" where
  "put_int64 rhs st =
     ebind (CheckForAvailableArgumentSpace 8 st) (\<lambda>_.
     ebind (push_tag INT64_TYPE_TAG st) (\<lambda>st. put_bytes (FromInt64 rhs) st))"

definition put_time_tag :: "uint64 \<Rightarrow> ostream \<Rightarrow> osc_error + ostream" where
  "put_time_tag rhs st =
     ebind (CheckForAvailableArgumentSpace 8 st) (\<lambda>_.
     ebind (push_tag TIME_TAG_TYPE_TAG st) (\<lambda>st. put_bytes (FromUInt64 rhs) st))"

definition put_double :: "64 word \<Rightarrow> ostream \<Rightarrow> osc_error + ostream" where
  "put_double rhs st =
     ebind (CheckForAvailableArgumentSpace 8 st) (\<lambda>_.
     ebind (push_tag DOUBLE_TYPE_TAG st) (\<lambda>st.
       put_bytes [union_byte rhs 7, union_byte rhs 6, union_byte rhs 5, union_byte rhs 4,
                  union_byte rhs 3, union_byte rhs 2, union_byte rhs 1, union_byte rhs 0] st))"

definition put_string :: "bytes \<Rightarrow> ostream \<Rightarrow> osc_error + ostream" where
  "put_string rhs st =
     ebind (CheckForAvailableArgumentSpace (RoundUp4_long (of_nat (length rhs) + 1)) st) (\<lambda>_.
     ebind (push_tag STRING_TYPE_TAG st) (\<lambda>st.
     ebind (put_bytes (rhs @ [0]) st) (\<lambda>st. pad_argument (length rhs + 1) st)))"

definition put_symbol :: "bytes \<Rightarrow> ostream \<Rightarrow> osc_error + ostream" where
  "put_symbol rhs st =
     ebind (CheckForAvailableArgumentSpace (RoundUp4_long (of_nat (length rhs) + 1)) st) (\<lambda>_.
     ebind (push_tag SYMBOL_TYPE_TAG st) (\<lambda>st.
     ebind (put_bytes (rhs @ [0]) st) (\<lambda>st. pad_argument (length rhs + 1) st)))"

definition put_blob :: "bytes \<Rightarrow> ostream \<Rightarrow> osc_error + ostream" where
  "put_blob rhs st =
     ebind (CheckForAvailableArgumentSpace (4 + RoundUp4_long (of_nat (length rhs))) st) (\<lambda>_.
     ebind (push_tag BLOB_TYPE_TAG st) (\<lambda>st.
     ebind (put_bytes (FromUInt32 (of_nat (length rhs))) st) (\<lambda>st.
     ebind (put_bytes rhs st) (\<lambda>st. pad_argument (length rhs) st))))"

fun put_value :: "osc_value \<Rightarrow> ostream \<Rightarrow> osc_error + ostream" where
  "put_value (OBool b) st = put_bool b st"
| "put_value ONil st = put_nil st"
| "put_value OInfinitum st = put_infinitum st"
| "put_value (OInt32 x) st = put_int32 x st"
| "put_value (OFloat x) st = put_float x st"
| "put_value (OChar c) st = put_char c st"
| "put_value (ORgbaColor x) st = put_rgba_color x st"
| "put_value (OMidiMessage x) st = put_midi_message x st"
| "put_value (OInt64 x) st = put_int64 x st"
| "put_value (OTimeTag x) st = put_time_tag x st"
| "put_value (ODouble x) st = put_double x st"
| "put_value (OString s) st = put_string s st"
| "put_value (OSymbol s) st = put_symbol s st"
| "put_value (OBlob d) st = put_blob d st"

section \<open>Sequences of stream operations\<close>

datatype stream_op =
    BeginBundleOp uint64
  | EndBundleOp
  | BeginMessageOp bytes
  | EndMessageOp
  | PutOp osc_value
  | ClearOp

fun apply_op :: "stream_op \<Rightarrow> ostream \<Rightarrow> osc_error + ostream" where
  "apply_op (BeginBundleOp t) st = begin_bundle t st"
| "apply_op EndBundleOp st = end_bundle st"
| "apply_op (BeginMessageOp s) st = begin_message s st"
| "apply_op EndMessageOp st = end_message st"
| "apply_op (PutOp v) st = put_value v st"
| "apply_op ClearOp st = Inr (Clear st)"

text \<open>
  A client may catch an exception and go on with the stream, which the failed call left
  unchanged; a fault or a failed assertion ends the program.
\<close>

fun run_ops :: "stream_op list \<Rightarrow> ostream \<Rightarrow> osc_error + ostream" where
  "run_ops [] st = Inr st"
| "run_ops (x # xs) st =
     (case apply_op x st of
        Inr st' \<Rightarrow> run_ops xs st'
      | Inl e \<Rightarrow> if e = Fault \<or> e = AssertFailed then Inl e else run_ops xs st)"

end
