(* ===== verification/OscOutboundSpec.thy ===== *)
theory OscOutboundSpec
  imports OscOutbound
begin

text \<open>
  What \<open>OutboundPacketStream\<close> promises: a packet is a sequence of nested elements.  The abstract
  state holds the bytes of the finished top-level elements, the contents of the open elements
  (innermost first) and the arguments of the message in progress; none of the pointers, slots or
  back links of the buffer.  \<open>represents\<close> relates a stream to its abstract state, and each
  operation is shown to simulate its abstract counterpart, with the exact condition under which
  it throws.
\<close>

section \<open>The wire format\<close>

definition enc_pad :: "bytes \<Rightarrow> bytes" where
  "enc_pad xs = xs @ replicate (roundup4 (length xs) - length xs) 0"

definition enc_str :: "bytes \<Rightarrow> bytes" where
  "enc_str s = enc_pad (s @ [0])"

lemma length_enc_pad [simp]: "length (enc_pad xs) = roundup4 (length xs)"
  using roundup4_ge [of "length xs"] by (simp add: enc_pad_def)

lemma length_enc_str [simp]: "length (enc_str s) = roundup4 (length s + 1)"
  by (simp add: enc_str_def)

fun arg_tag :: "osc_value \<Rightarrow> byte" where
  "arg_tag (OBool b) = (if b then TRUE_TYPE_TAG else FALSE_TYPE_TAG)"
| "arg_tag ONil = NIL_TYPE_TAG"
| "arg_tag OInfinitum = INFINITUM_TYPE_TAG"
| "arg_tag (OInt32 x) = INT32_TYPE_TAG"
| "arg_tag (OFloat x) = FLOAT_TYPE_TAG"
| "arg_tag (OChar c) = CHAR_TYPE_TAG"
| "arg_tag (ORgbaColor x) = RGBA_COLOR_TYPE_TAG"
| "arg_tag (OMidiMessage x) = MIDI_MESSAGE_TYPE_TAG"
| "arg_tag (OInt64 x) = INT64_TYPE_TAG"
| "arg_tag (OTimeTag x) = TIME_TAG_TYPE_TAG"
| "arg_tag (ODouble x) = DOUBLE_TYPE_TAG"
| "arg_tag (OString s) = STRING_TYPE_TAG"
| "arg_tag (OSymbol s) = SYMBOL_TYPE_TAG"
| "arg_tag (OBlob d) = BLOB_TYPE_TAG"

text \<open>Both number formats are big-endian; a float or double is written by its bit pattern.\<close>

fun arg_bytes :: "osc_value \<Rightarrow> bytes" where
  "arg_bytes (OBool b) = []"
| "arg_bytes ONil = []"
| "arg_bytes OInfinitum = []"
| "arg_bytes (OInt32 x) = FromInt32 x"
| "arg_bytes (OFloat x) = FromUInt32 x"
| "arg_bytes (OChar c) = FromInt32 (scast c)"
| "arg_bytes (ORgbaColor x) = FromUInt32 x"
| "arg_bytes (OMidiMessage x) = FromUInt32 x"
| "arg_bytes (OInt64 x) = FromInt64 x"
| "arg_bytes (OTimeTag x) = FromUInt64 x"
| "arg_bytes (ODouble x) = FromUInt64 x"
| "arg_bytes (OString s) = enc_str s"
| "arg_bytes (OSymbol s) = enc_str s"
| "arg_bytes (OBlob d) = FromUInt32 (of_nat (length d)) @ enc_pad d"

definition enc_args :: "osc_value list \<Rightarrow> bytes" where
  "enc_args vs =
     enc_str (byte_of (CHR '','') # map arg_tag vs) @ concat (map arg_bytes vs)"

definition enc_message :: "bytes \<Rightarrow> osc_value list \<Rightarrow> bytes" where
  "enc_message addr vs = enc_str addr @ enc_args vs"

definition bundle_header :: "uint64 \<Rightarrow> bytes" where
  "bundle_header t = bytes_of ''#bundle'' @ [0] @ FromUInt64 t"

definition enc_element :: "bytes \<Rightarrow> bytes" where
  "enc_element e = FromUInt32 (of_nat (length e)) @ e"

lemma length_bundle_header [simp]: "length (bundle_header t) = 16"
  by (simp add: bundle_header_def)

lemma length_enc_element [simp]: "length (enc_element e) = 4 + length e"
  by (simp add: enc_element_def)

lemma length_arg_bytes_mod4: "length (arg_bytes v) mod 4 = 0"
  by (cases v) simp_all

text \<open>A value whose C object fits an address space of 64 bits.\<close>

definition sendable :: "osc_value \<Rightarrow> bool" where
  "sendable v \<longleftrightarrow> length (arg_bytes v) < 2 ^ 62"

section \<open>The abstract packet\<close>

record packet_spec =
  closed :: bytes
  open_elems :: "bytes list"
  cur_args :: "osc_value list option"

definition empty_spec :: packet_spec where
  "empty_spec = \<lparr>closed = [], open_elems = [], cur_args = None\<rparr>"

definition spec_begin_bundle :: "uint64 \<Rightarrow> packet_spec \<Rightarrow> packet_spec" where
  "spec_begin_bundle t a = a\<lparr>open_elems := bundle_header t # open_elems a\<rparr>"

definition spec_close :: "packet_spec \<Rightarrow> packet_spec" where
  "spec_close a =
     (case open_elems a of
        [] \<Rightarrow> a
      | [f] \<Rightarrow> a\<lparr>closed := closed a @ f, open_elems := []\<rparr>
      | f # g # fs \<Rightarrow> a\<lparr>open_elems := (g @ enc_element f) # fs\<rparr>)"

definition spec_begin_message :: "bytes \<Rightarrow> packet_spec \<Rightarrow> packet_spec" where
  "spec_begin_message s a = a\<lparr>open_elems := enc_str s # open_elems a, cur_args := Some []\<rparr>"

definition spec_put :: "osc_value \<Rightarrow> packet_spec \<Rightarrow> packet_spec" where
  "spec_put v a = a\<lparr>cur_args := map_option (\<lambda>vs. vs @ [v]) (cur_args a)\<rparr>"

definition spec_end_message :: "packet_spec \<Rightarrow> packet_spec" where
  "spec_end_message a =
     spec_close (a\<lparr>open_elems := (hd (open_elems a) @ enc_args (the (cur_args a))) # tl (open_elems a),
                    cur_args := None\<rparr>)"

section \<open>The layout of the open elements in the buffer\<close>

text \<open>
  An element inside another one has a slot of four bytes before it, which holds the offset of the
  enclosing element's slot until the element is closed; the outermost element has none.
\<close>

fun layout :: "bytes \<Rightarrow> bytes list \<Rightarrow> bytes"
  and slot_of :: "bytes \<Rightarrow> bytes list \<Rightarrow> nat" where
  "layout c [] = c"
| "layout c [f] = c @ f"
| "layout c (f # g # fs) = layout c (g # fs) @ HostUInt32 (of_nat (slot_of c (g # fs))) @ f"
| "slot_of c [] = 0"
| "slot_of c [f] = 0"
| "slot_of c (f # g # fs) = length (layout c (g # fs))"

lemma layout_append: "layout c ((f @ x) # fs) = layout c (f # fs) @ x"
  by (cases fs) auto

lemma slot_of_top: "slot_of c (f # fs) = slot_of c (f' # fs)"
  by (cases fs) auto

lemma slot_of_le: "slot_of c fs \<le> length (layout c fs)"
  by (cases "(c, fs)" rule: layout.cases) auto

lemma layout_nonempty: "fs \<noteq> [] \<Longrightarrow> \<forall>f\<in>set fs. f \<noteq> [] \<Longrightarrow> 0 < length (layout c fs)"
  by (cases "(c, fs)" rule: layout.cases) auto

definition ntags :: "ostream \<Rightarrow> nat" where
  "ntags st = length (obuf st) - typeTagsCurrent st"

definition represents :: "ostream \<Rightarrow> packet_spec \<Rightarrow> bool" where
  "represents st a \<longleftrightarrow>
     length (obuf st) < 2 ^ 31 \<and>
     typeTagsCurrent st \<le> length (obuf st) \<and>
     messageCursor st \<le> argumentCurrent st \<and>
     argumentCurrent st \<le> length (obuf st) \<and>
     messageCursor st = length (layout (closed a) (open_elems a)) \<and>
     mem_at (obuf st) 0 (layout (closed a) (open_elems a)) \<and>
     elementSizePtr st =
       (if open_elems a = [] then None else Some (slot_of (closed a) (open_elems a))) \<and>
     (\<forall>f\<in>set (open_elems a). f \<noteq> []) \<and>
     messageIsInProgress st = (cur_args a \<noteq> None) \<and>
     (\<forall>vs. cur_args a = Some vs \<longrightarrow>
        open_elems a \<noteq> [] \<and>
        argumentCurrent st = messageCursor st + length (concat (map arg_bytes vs)) \<and>
        mem_at (obuf st) (messageCursor st) (concat (map arg_bytes vs)) \<and>
        ntags st = length vs \<and>
        mem_at (obuf st) (typeTagsCurrent st) (rev (map arg_tag vs)) \<and>
        argumentCurrent st + roundup4 (ntags st + 2) \<le> length (obuf st))"

lemma represents_new:
  "length buffer < 2 ^ 31 \<Longrightarrow> represents (OutboundPacketStream buffer) empty_spec"
  by (simp add: represents_def OutboundPacketStream_def empty_spec_def ntags_def)

section \<open>The size and the space checks in natural numbers\<close>

definition size_nat :: "ostream \<Rightarrow> nat" where
  "size_nat st =
     argumentCurrent st + (if messageIsInProgress st then roundup4 (ntags st + 2) else 0)"

definition slot_nat :: "ostream \<Rightarrow> nat" where
  "slot_nat st = (if elementSizePtr st = None then 0 else 4)"

lemma represents_size_le: "represents st a \<Longrightarrow> size_nat st \<le> length (obuf st)"
  by (cases "cur_args a") (auto simp: represents_def size_nat_def)

lemma unat_Capacity: "length (obuf st) < 2 ^ 31 \<Longrightarrow> unat (Capacity st) = length (obuf st)"
  by (simp add: Capacity_def end_ptr_def unat_of_nat_small)

lemma RoundUp4_plus2: "n < 2 ^ 62 \<Longrightarrow> RoundUp4_long (of_nat n + 2) = of_nat (roundup4 (n + 2))"
  using RoundUp4_long_of_nat [of "n + 2"] by (simp add: add.commute)

lemma RoundUp4_plus3: "n < 2 ^ 62 \<Longrightarrow> RoundUp4_long (of_nat n + 3) = of_nat (roundup4 (n + 3))"
  using RoundUp4_long_of_nat [of "n + 3"] by (simp add: add.commute)

lemma RoundUp4_plus1: "n < 2 ^ 62 \<Longrightarrow> RoundUp4_long (of_nat n + 1) = of_nat (roundup4 (n + 1))"
  using RoundUp4_long_of_nat [of "n + 1"] by (simp add: add.commute)

lemmas unat_arith_simps = unat_ucast_mod unat_word_ariths unat_of_nat

lemma roundup4_less_pow: "n < 2 ^ 62 \<Longrightarrow> roundup4 n < 2 ^ 63"
  using roundup4_less [of n] by simp

lemma unat_Size:
  assumes "size_nat st < 2 ^ 31" and "ntags st < 2 ^ 31"
  shows "unat (Size st) = size_nat st"
  using assms roundup4_less [of "ntags st + 2"]
  by (auto simp: Size_def size_nat_def IsMessageInProgress_def end_ptr_def RoundUp4_plus2 Let_def
      unat_arith_simps simp flip: ntags_def)

lemma CheckBundleSpace:
  assumes "length (obuf st) < 2 ^ 31" and "size_nat st < 2 ^ 31" and "ntags st < 2 ^ 31"
  shows "CheckForAvailableBundleSpace st =
    (if size_nat st + slot_nat st + 16 \<le> length (obuf st) then Inr ()
     else Inl OutOfBufferMemoryException)"
  using assms
  by (auto simp: CheckForAvailableBundleSpace_def word_less_nat_alt unat_ucast_mod unat_word_ariths
      unat_Size unat_Capacity slot_nat_def ElementSizeSlotRequired_def Let_def)

lemma CheckMessageSpace:
  assumes "length (obuf st) < 2 ^ 31" and "size_nat st < 2 ^ 31" and "ntags st < 2 ^ 31"
    and "length s < 2 ^ 62"
  shows "CheckForAvailableMessageSpace s st =
    (if size_nat st + slot_nat st + roundup4 (length s + 1) + 4 \<le> length (obuf st) then Inr ()
     else Inl OutOfBufferMemoryException)"
  using assms roundup4_less [of "length s + 1"]
  by (auto simp: CheckForAvailableMessageSpace_def word_less_nat_alt unat_arith_simps
      RoundUp4_plus1 unat_Size unat_Capacity slot_nat_def ElementSizeSlotRequired_def Let_def)

lemma CheckArgumentSpace:
  assumes "length (obuf st) < 2 ^ 31" and "argumentCurrent st < 2 ^ 31" and "ntags st < 2 ^ 31"
    and "n < 2 ^ 63"
  shows "CheckForAvailableArgumentSpace (of_nat n) st =
    (if argumentCurrent st + n + roundup4 (ntags st + 3) \<le> length (obuf st) then Inr ()
     else Inl OutOfBufferMemoryException)"
  using assms roundup4_less [of "ntags st + 3"]
  by (auto simp: CheckForAvailableArgumentSpace_def word_less_nat_alt unat_arith_simps
      RoundUp4_plus3 unat_Capacity end_ptr_def Let_def simp flip: ntags_def)

section \<open>Single steps on the buffer\<close>

lemma roundup4_pred: "i mod 4 \<noteq> 0 \<Longrightarrow> roundup4 i - i = Suc (roundup4 (i + 1) - (i + 1))"
  unfolding roundup4_def by presburger

lemma pad_zero_eq:
  "p \<le> length buf \<Longrightarrow>
   pad_zero i p buf =
     ebind (store_bytes p (replicate (roundup4 i - i) 0) buf)
       (\<lambda>buf'. Inr (p + (roundup4 i - i), buf'))"
proof (induction i p buf rule: pad_zero.induct)
  case (1 i p buf)
  show ?case
  proof (cases "i mod 4 = 0")
    case True
    then show ?thesis using "1.prems" by (simp add: pad_zero.simps [of i] roundup4_id store_bytes_def)
  next
    case False
    let ?k = "roundup4 (i + 1) - (i + 1)"
    show ?thesis
    proof (cases "p < length buf")
      case True
      then have st: "store_bytes p [0] buf = Inr (blit p [0] buf)"
        and len: "length (blit p [0] buf) = length buf" by (simp_all add: store_bytes_def)
      have "pad_zero i p buf = pad_zero (i + 1) (p + 1) (blit p [0] buf)"
        using False st by (simp add: pad_zero.simps [of i])
      also have "\<dots> = ebind (store_bytes (p + 1) (replicate ?k 0) (blit p [0] buf))
          (\<lambda>buf'. Inr (p + 1 + ?k, buf'))"
        using "1.IH" [OF False st] True len by simp
      finally show ?thesis
        using blit_blit_adjacent [of p "[0]" "replicate ?k 0" buf] len
        by (auto simp: roundup4_pred [OF False] store_bytes_def)
    next
      case beyond: False
      then show ?thesis
        using False by (simp add: pad_zero.simps [of i] roundup4_pred store_bytes_def)
    qed
  qed
qed

lemma put_bytes_append:
  "ebind (put_bytes xs st) (put_bytes ys) = put_bytes (xs @ ys) st"
  by (auto simp: put_bytes_def store_bytes_def blit_blit_adjacent add.assoc ebind_eq_Inr_iff)

lemma put_bytes_pad:
  "ebind (put_bytes xs st) (pad_argument (length xs)) = put_bytes (enc_pad xs) st"
proof -
  have "ebind (put_bytes xs st) (pad_argument (length xs)) =
    ebind (put_bytes xs st) (put_bytes (replicate (roundup4 (length xs) - length xs) 0))"
    by (cases "put_bytes xs st")
      (auto simp: put_bytes_def store_bytes_def pad_argument_def pad_zero_eq
        split: if_splits)
  then show ?thesis by (simp add: put_bytes_append enc_pad_def)
qed

definition put_arg :: "byte \<Rightarrow> bytes \<Rightarrow> ostream \<Rightarrow> osc_error + ostream" where
  "put_arg tag xs st =
     ebind (CheckForAvailableArgumentSpace (of_nat (length xs)) st) (\<lambda>_.
     ebind (push_tag tag st) (put_bytes xs))"

lemma put_bytes_Nil: "argumentCurrent st \<le> length (obuf st) \<Longrightarrow> put_bytes [] st = Inr st"
  by (simp add: put_bytes_def store_bytes_def)

lemma push_tag_then_nothing:
  "argumentCurrent st \<le> length (obuf st) \<Longrightarrow> ebind (push_tag t st) (put_bytes []) = push_tag t st"
  by (auto simp: push_tag_def store_bytes_def put_bytes_Nil ebind_eq_Inr_iff)

text \<open>The fourteen overloads are one operation on a tag and the bytes of the value.\<close>

lemma put_value_eq:
  assumes "argumentCurrent st \<le> length (obuf st)" and "sendable v"
  shows "put_value v st = put_arg (arg_tag v) (arg_bytes v) st"
proof (cases v)
  case (OString s)
  then have "length s < 2 ^ 62" using assms roundup4_ge [of "length s + 1"] by (simp add: sendable_def)
  then show ?thesis using OString put_bytes_pad [of "s @ [0]"]
    by (simp add: put_string_def put_arg_def RoundUp4_plus1 enc_str_def ebind_assoc)
next
  case (OSymbol s)
  then have "length s < 2 ^ 62" using assms roundup4_ge [of "length s + 1"] by (simp add: sendable_def)
  then show ?thesis using OSymbol put_bytes_pad [of "s @ [0]"]
    by (simp add: put_symbol_def put_arg_def RoundUp4_plus1 enc_str_def ebind_assoc)
next
  case (OBlob d)
  then have "length d < 2 ^ 62" using assms roundup4_ge [of "length d"] by (simp add: sendable_def)
  then have "4 + RoundUp4_long (of_nat (length d)) = of_nat (length (arg_bytes v))"
    using OBlob by (simp add: RoundUp4_long_of_nat)
  then show ?thesis
    using OBlob by (simp add: put_blob_def put_arg_def put_bytes_pad put_bytes_append)
next
  case (OFloat x)
  then show ?thesis by (simp add: put_float_def put_arg_def FromUInt32_def)
next
  case (ODouble x)
  then show ?thesis by (simp add: put_double_def put_arg_def FromUInt64_def)
qed (use assms in \<open>simp_all add: put_arg_def push_tag_then_nothing put_bool_def put_nil_def
      put_infinitum_def put_int32_def put_char_def put_rgba_color_def put_midi_message_def
      put_int64_def put_time_tag_def\<close>)

lemma put_arg_result:
  assumes "length (obuf st) < 2 ^ 31" and "typeTagsCurrent st \<le> length (obuf st)"
    and "argumentCurrent st \<le> length (obuf st)" and "length xs < 2 ^ 62"
  shows "put_arg tag xs st =
    (if argumentCurrent st + length xs + roundup4 (ntags st + 3) \<le> length (obuf st)
     then Inr (st\<lparr>obuf := blit (argumentCurrent st) xs
                             (blit (typeTagsCurrent st - 1) [tag] (obuf st)),
                  typeTagsCurrent := typeTagsCurrent st - 1,
                  argumentCurrent := argumentCurrent st + length xs\<rparr>)
     else Inl OutOfBufferMemoryException)"
proof (cases "argumentCurrent st + length xs + roundup4 (ntags st + 3) \<le> length (obuf st)")
  case True
  have "ntags st + 3 \<le> roundup4 (ntags st + 3)" by (rule roundup4_ge)
  with True assms have "0 < typeTagsCurrent st" and "argumentCurrent st + length xs \<le> length (obuf st)"
    by (auto simp: ntags_def)
  with True assms show ?thesis
    by (auto simp: put_arg_def CheckArgumentSpace ntags_def push_tag_def put_bytes_def store_bytes_def)
next
  case False
  with assms show ?thesis by (simp add: put_arg_def CheckArgumentSpace ntags_def)
qed

lemma layout_push:
  "layout c (f # fs) =
     layout c fs @ (if fs = [] then [] else HostUInt32 (of_nat (slot_of c fs))) @ f"
  by (cases fs) auto

lemma slot_of_push: "slot_of c (f # fs) = (if fs = [] then 0 else length (layout c fs))"
  by (cases fs) auto

lemma mem_at_take_prefix:
  "mem_at buf 0 xs \<Longrightarrow> length buf' = length buf \<Longrightarrow> take (length xs) buf' = take (length xs) buf \<Longrightarrow>
   mem_at buf' 0 xs"
  by (simp add: mem_at_def)

text \<open>Opening an element: the back link and the contents stand after what was there.\<close>

lemma open_element:
  assumes "mem_at buf 0 (layout c fs)"
    and "length (layout c fs) + (if fs = [] then 0 else 4) + length f \<le> length buf"
  shows "mem_at (blit (length (layout c fs) + (if fs = [] then 0 else 4)) f
      (if fs = [] then buf
       else blit (length (layout c fs)) (HostUInt32 (of_nat (slot_of c fs))) buf))
      0 (layout c (f # fs))"
proof (cases "fs = []")
  case True
  with assms show ?thesis
    by (auto simp: layout_push mem_at_append intro!: mem_at_blit_disjoint mem_at_blit_same)
next
  case False
  let ?h = "HostUInt32 (of_nat (slot_of c fs))"
  have "blit (length (layout c fs) + 4) f (blit (length (layout c fs)) ?h buf) =
      blit (length (layout c fs)) (?h @ f) buf"
    using blit_blit_adjacent [of "length (layout c fs)" ?h f buf] assms False by simp
  with False assms show ?thesis
    by (simp add: layout_push mem_at_append [of _ _ "layout c fs"] mem_at_blit_disjoint
        mem_at_blit_same del: append_assoc)
qed

lemma BeginElement_result:
  assumes "elementSizePtr st = (if fs = [] then None else Some (slot_of c fs))"
    and "messageCursor st = length (layout c fs)"
    and "length (layout c fs) + slot_nat st \<le> length (obuf st)"
  shows "BeginElement (messageCursor st) st =
    Inr (length (layout c fs) + (if fs = [] then 0 else 4),
         st\<lparr>obuf := (if fs = [] then obuf st
              else blit (length (layout c fs)) (HostUInt32 (of_nat (slot_of c fs))) (obuf st)),
            elementSizePtr := Some (slot_of c (f # fs))\<rparr>)"
  using assms
  by (cases "fs = []") (auto simp: BeginElement_def store_bytes_def slot_of_push slot_nat_def)

text \<open>Closing an element: its slot gets the size, the back link becomes the current slot.\<close>

definition close_frames :: "bytes \<Rightarrow> bytes list \<Rightarrow> bytes \<times> bytes list" where
  "close_frames c fs =
     (case fs of [] \<Rightarrow> (c, []) | [f] \<Rightarrow> (c @ f, []) | f # g # fs' \<Rightarrow> (c, (g @ enc_element f) # fs'))"

lemma EndElement_result:
  assumes fs: "fs \<noteq> []" "\<forall>f\<in>set fs. f \<noteq> []"
    and buf: "mem_at (obuf st) 0 (layout c fs)" "length (obuf st) < 2 ^ 31"
    and slot: "elementSizePtr st = Some (slot_of c fs)"
    and close: "close_frames c fs = (c', fs')"
  shows "\<exists>buf'. EndElement (length (layout c fs)) st =
      Inr (st\<lparr>obuf := buf', elementSizePtr := (if fs' = [] then None else Some (slot_of c' fs'))\<rparr>) \<and>
    length buf' = length (obuf st) \<and> mem_at buf' 0 (layout c' fs') \<and>
    length (layout c' fs') = length (layout c fs) \<and> (\<forall>f\<in>set fs'. f \<noteq> [])"
proof -
  consider f where "fs = [f]" | f g gs where "fs = f # g # gs"
    using fs(1) by (metis list.exhaust)
  then show ?thesis
  proof cases
  case 1
  with assms show ?thesis
    by (intro exI [of _ "obuf st"]) (auto simp: EndElement_def close_frames_def)
next
  case eqs: (2 f g gs)
  let ?L = "layout c (g # gs)" and ?s = "slot_of c (g # gs)"
  let ?e = "word_of_int (int (length (layout c fs)) - int (length ?L) - 4) :: uint32"
  have len: "length ?L + 4 + length f \<le> length (obuf st)" and slen: "?s \<le> length ?L"
    and pos: "0 < length ?L"
    using buf(1) fs eqs mem_at_bound [OF buf(1)] layout_nonempty [of "g # gs" c]
    by (auto simp: slot_of_le)
  have e: "?e = of_nat (length f)" using eqs by simp
  have at: "mem_at (obuf st) 0 ?L" "mem_at (obuf st) (length ?L) (HostUInt32 (of_nat ?s))"
    "mem_at (obuf st) (length ?L + 4) f"
    using buf(1) eqs by (auto simp: mem_at_append)
  have load: "HostToUInt32 (obuf st) (length ?L) = Inr (of_nat ?s)"
    by (rule host_codec.dec_at [OF at(2)])
  have s: "unat (of_nat ?s :: uint32) = ?s" using slen len buf(2) by (simp add: unat_of_nat_small)
  let ?buf = "blit (length ?L) (FromUInt32 (of_nat (length f))) (obuf st)"
  have c': "c' = c" "fs' = (g @ enc_element f) # gs" using close eqs by (auto simp: close_frames_def)
  have "layout c' fs' = ?L @ FromUInt32 (of_nat (length f)) @ f"
    by (simp add: c' layout_append enc_element_def)
  moreover have "mem_at ?buf 0 (?L @ FromUInt32 (of_nat (length f)) @ f)"
    using len at by (auto simp: mem_at_append intro: mem_at_blit_disjoint mem_at_blit_same)
  moreover have "EndElement (length (layout c fs)) st =
      Inr (st\<lparr>obuf := ?buf, elementSizePtr := Some (slot_of c' fs')\<rparr>)"
    using slot eqs pos load s e len
    by (simp add: EndElement_def store_bytes_def c' slot_of_top [of c "g @ enc_element f" gs g] Let_def)
  ultimately show ?thesis using c' fs eqs len by auto
qed
qed

end
