(* ===== verification/OscReceivedSpec.thy ===== *)
theory OscReceivedSpec
  imports OscReceived OscOutboundSpec
begin

text \<open>
  What the parser of received messages guarantees: it stays inside the packet when no blob is
  among the arguments, every argument it accepted can then be read, and it reads back exactly
  what the encoder of \<open>OscOutboundSpec\<close> writes, blobs included.
\<close>

section \<open>The value of an argument\<close>

text \<open>The value that the accessor belonging to the type tag delivers.\<close>

definition read_blob :: "bytes \<Rightarrow> nat \<times> ulong \<Rightarrow> osc_error + bytes" where
  "read_blob mem d = load_bytes mem (fst d) (unat (snd d))"

definition read_value :: "bytes \<Rightarrow> received_argument \<Rightarrow> osc_error + osc_value" where
  "read_value mem a =
     ebind (TypeTag mem a) (\<lambda>t.
       if t = TRUE_TYPE_TAG \<or> t = FALSE_TYPE_TAG then ebind (AsBool mem a) (\<lambda>x. Inr (OBool x))
       else if t = NIL_TYPE_TAG then Inr ONil
       else if t = INFINITUM_TYPE_TAG then Inr OInfinitum
       else if t = INT32_TYPE_TAG then ebind (AsInt32 mem a) (\<lambda>x. Inr (OInt32 x))
       else if t = FLOAT_TYPE_TAG then ebind (AsFloat mem a) (\<lambda>x. Inr (OFloat x))
       else if t = CHAR_TYPE_TAG then ebind (AsChar mem a) (\<lambda>x. Inr (OChar x))
       else if t = RGBA_COLOR_TYPE_TAG then ebind (AsRgbaColor mem a) (\<lambda>x. Inr (ORgbaColor x))
       else if t = MIDI_MESSAGE_TYPE_TAG then ebind (AsMidiMessage mem a) (\<lambda>x. Inr (OMidiMessage x))
       else if t = INT64_TYPE_TAG then ebind (AsInt64 mem a) (\<lambda>x. Inr (OInt64 x))
       else if t = TIME_TAG_TYPE_TAG then ebind (AsTimeTag mem a) (\<lambda>x. Inr (OTimeTag x))
       else if t = DOUBLE_TYPE_TAG then ebind (AsDouble mem a) (\<lambda>x. Inr (ODouble x))
       else if t = STRING_TYPE_TAG
       then ebind (AsString mem a) (\<lambda>p. ebind (read_cstr mem p) (\<lambda>s. Inr (OString s)))
       else if t = SYMBOL_TYPE_TAG
       then ebind (AsSymbol mem a) (\<lambda>p. ebind (read_cstr mem p) (\<lambda>s. Inr (OSymbol s)))
       else if t = BLOB_TYPE_TAG
       then ebind (AsBlob mem a) (\<lambda>d. ebind (read_blob mem d) (\<lambda>s. Inr (OBlob s)))
       else Inl WrongArgumentTypeException)"

text \<open>\<^verbatim>\<open>for( i = ArgumentsBegin(); i != ArgumentsEnd(); ++i )\<close>, by the number of arguments.\<close>

fun read_values :: "bytes \<Rightarrow> nat \<Rightarrow> received_argument \<Rightarrow> osc_error + osc_value list" where
  "read_values mem 0 a = Inr []"
| "read_values mem (Suc n) a =
     ebind (read_value mem a) (\<lambda>v.
     ebind (Advance mem a) (\<lambda>a'.
     ebind (read_values mem n a') (\<lambda>vs. Inr (v # vs))))"

section \<open>The end of a string\<close>

lemma aligned_next:
  assumes "p < e" and "4 dvd e - (p :: nat)"
  shows "p + 4 \<le> e" and "4 dvd e - (p + 4)"
proof -
  from assms show "p + 4 \<le> e" by (auto dest: dvd_imp_le)
  then show "4 dvd e - (p + 4)" using assms(2) dvd_diff_nat [of 4 "e - p" 4] by simp
qed

lemma aligned_add: "p + n \<le> e \<Longrightarrow> 4 dvd e - (p :: nat) \<Longrightarrow> 4 dvd n \<Longrightarrow> 4 dvd e - (p + n)"
  using dvd_diff_nat [of 4 "e - p" n] by simp

lemma find4_before_ok:
  "p \<le> e1 \<Longrightarrow> 4 dvd e1 - p \<Longrightarrow> e1 < length mem \<Longrightarrow>
   (case find4_before mem p e1 of Inl err \<Rightarrow> False | Inr None \<Rightarrow> True
    | Inr (Some q) \<Rightarrow> p < q \<and> q \<le> e1 + 1 \<and> 4 dvd e1 + 1 - q \<and> mem ! (q - 1) = 0)"
proof (induction mem p e1 rule: find4_before.induct)
  case (1 mem p e1)
  then have b: "load_byte mem p = Inr (mem ! p)" by (simp add: load_byte_def)
  show ?case
  proof (cases "p < e1 \<and> mem ! p \<noteq> 0")
    case True
    then show ?thesis
      using "1.IH" [OF b True] aligned_next [of p e1] "1.prems" b
      by (subst find4_before.simps) (auto split: sum.splits option.splits)
  next
    case False
    with "1.prems" b show ?thesis by (subst find4_before.simps) auto
  qed
qed

lemma FindStr4End_before_ok:
  assumes "p < e" and "4 dvd e - p" and "e \<le> length mem"
  shows "case FindStr4End_before mem p e of Inl err \<Rightarrow> False | Inr None \<Rightarrow> True
    | Inr (Some q) \<Rightarrow> p < q \<and> q \<le> e \<and> 4 dvd e - q \<and> (\<exists>i. p \<le> i \<and> i < q \<and> mem ! i = 0)"
proof -
  note p4 = aligned_next [OF assms(1,2)]
  have b: "load_byte mem p = Inr (mem ! p)" using assms by (simp add: load_byte_def)
  show ?thesis
  proof (cases "mem ! p = 0")
    case True
    with assms b have "FindStr4End_before mem p e = Inr (Some (p + 4))"
      by (simp add: FindStr4End_before_def)
    moreover have "p \<le> p \<and> p < p + 4 \<and> mem ! p = 0" using True by simp
    ultimately show ?thesis using p4 by auto
  next
    case False
    have *: "4 dvd e - 1 - (p + 3)" "e - 1 < length mem" "p + 3 \<le> e - 1" "e - 1 + 1 = e"
      using p4 assms by (auto simp: add.commute [of 4 p])
    have "case find4_before mem (p + 3) (e - 1) of Inl err \<Rightarrow> False | Inr None \<Rightarrow> True
        | Inr (Some q) \<Rightarrow> p + 3 < q \<and> q \<le> e \<and> 4 dvd e - q \<and> mem ! (q - 1) = 0"
      using find4_before_ok [OF *(3) *(1) *(2)] *(4) by (simp only:)
    with False assms b show ?thesis
      by (auto simp: FindStr4End_before_def split: sum.splits option.splits
          intro!: exI [of _ "_ - Suc 0"])
  qed
qed

text \<open>Once the bounded search succeeded, the unbounded one finds the same place.\<close>

lemma find4_before_find4: "find4_before mem p e1 = Inr (Some q) \<Longrightarrow> find4 mem p = Inr q"
proof (induction mem p e1 rule: find4_before.induct)
  case (1 mem p e1)
  note eq = find4_before.simps [of mem p e1] and eq4 = find4.simps [of mem p]
  show ?case
  proof (cases "load_byte mem p")
    case (Inl err)
    with "1.prems" eq show ?thesis by simp
  next
    case (Inr b)
    with "1.prems" eq have r: "(if p < e1 \<and> b \<noteq> 0 then find4_before mem (p + 4) e1
        else if b \<noteq> 0 then Inr None else Inr (Some (p + 1))) = Inr (Some q)" by simp
    show ?thesis
    proof (cases "p < e1 \<and> b \<noteq> 0")
      case True
      with r "1.IH" [OF Inr] eq4 Inr show ?thesis by simp
    next
      case False
      with r eq4 Inr show ?thesis by (simp split: if_splits)
    qed
  qed
qed

lemma FindStr4End_before_FindStr4End:
  assumes "FindStr4End_before mem p e = Inr (Some q)"
  shows "FindStr4End mem p = Inr q"
proof -
  from assms have "p < e" by (simp add: FindStr4End_before_def not_le split: if_splits)
  with assms have r: "ebind (load_byte mem p) (\<lambda>b.
      if b = 0 then Inr (Some (p + 4)) else find4_before mem (p + 3) (e - 1)) = Inr (Some q)"
    by (simp add: FindStr4End_before_def)
  show ?thesis
  proof (cases "load_byte mem p")
    case (Inr b)
    with r find4_before_find4 [of mem "p + 3" "e - 1" q] show ?thesis
      by (cases "b = 0") (simp_all add: FindStr4End_def)
  qed (use r in simp)
qed

section \<open>Validation of one argument\<close>

lemmas check_arg_simps = check_arg_def exceed_def

lemma check_arg_class:
  "t \<in> {84, 70, 78, 73} \<Longrightarrow> check_arg mem e t arg = Inr arg"
  "t \<in> {105, 102, 99, 114, 109} \<Longrightarrow>
   check_arg mem e t arg = (if arg + 4 \<le> e then Inr (arg + 4) else Inl exceed)"
  "t \<in> {104, 116, 100} \<Longrightarrow>
   check_arg mem e t arg = (if arg + 8 \<le> e then Inr (arg + 8) else Inl exceed)"
  "t \<in> {115, 83} \<Longrightarrow>
   check_arg mem e t arg =
     (if arg = e then Inl exceed
      else ebind (FindStr4End_before mem arg e) (\<lambda>r. case r of
             None \<Rightarrow> Inl (MalformedMessageException ''unterminated string argument'')
           | Some p \<Rightarrow> Inr p))"
  "t = 98 \<Longrightarrow>
   check_arg mem e t arg =
     ebind (ToUInt32 mem arg) (\<lambda>n. Inr (arg + 4 + unat (RoundUp4_ulong (ucast n))))"
  "t \<notin> {84, 70, 78, 73, 105, 102, 99, 114, 109, 104, 116, 100, 115, 83, 98} \<Longrightarrow>
   check_arg mem e t arg = Inl (MalformedMessageException ''unknown type tag'')"
  by (auto simp: check_arg_def)

lemma tag_class:
  obtains (zero) "t \<in> {84, 70, 78, 73 :: byte}" | (four) "t \<in> {105, 102, 99, 114, 109}"
    | (eight) "t \<in> {104, 116, 100}" | (string) "t \<in> {115, 83}" | (blob) "t = 98"
    | (unknown) "t \<notin> {84, 70, 78, 73, 105, 102, 99, 114, 109, 104, 116, 100, 115, 83, 98}"
  by blast

lemma check_arg_cases:
  assumes "check_arg mem e t arg = Inr arg'"
  obtains (zero) "t \<in> {84, 70, 78, 73}" and "arg' = arg"
    | (four) "t \<in> {105, 102, 99, 114, 109}" and "arg' = arg + 4" and "arg' \<le> e"
    | (eight) "t \<in> {104, 116, 100}" and "arg' = arg + 8" and "arg' \<le> e"
    | (string) "t \<in> {115, 83}" and "arg \<noteq> e" and "FindStr4End_before mem arg e = Inr (Some arg')"
    | (blob) n where "t = 98" and "ToUInt32 mem arg = Inr n"
        and "arg' = arg + 4 + unat (RoundUp4_ulong (ucast n))"
proof (cases t rule: tag_class)
  case zero
  then show ?thesis using that(1) check_arg_class(1) [OF zero] assms by auto
next
  case four
  then show ?thesis using that(2) check_arg_class(2) [OF four] assms by (auto split: if_splits)
next
  case eight
  then show ?thesis using that(3) check_arg_class(3) [OF eight] assms by (auto split: if_splits)
next
  case string
  then show ?thesis using that(4) check_arg_class(4) [OF string] assms
    by (auto simp: ebind_eq_Inr_iff split: if_splits option.splits)
next
  case blob
  then show ?thesis using that(5) check_arg_class(5) [OF blob] assms by (auto simp: ebind_eq_Inr_iff)
next
  case unknown
  then show ?thesis using check_arg_class(6) [OF unknown] assms by auto
qed

text \<open>
  An argument without blobs is accepted only inside the packet; the next argument starts inside
  it, aligned, and \<^verbatim>\<open>Advance\<close> moves to the same place.
\<close>

lemma check_arg_ok:
  assumes "arg \<le> e" and "4 dvd e - arg" and "e \<le> length mem" and "t \<noteq> BLOB_TYPE_TAG"
  shows "case check_arg mem e t arg of
      Inl err \<Rightarrow> (\<exists>msg. err = MalformedMessageException msg)
    | Inr arg' \<Rightarrow> arg \<le> arg' \<and> arg' \<le> e \<and> 4 dvd e - arg'"
proof (cases t rule: tag_class)
  case zero
  then show ?thesis using check_arg_class(1) [OF zero] assms by simp
next
  case four
  then show ?thesis using check_arg_class(2) [OF four] assms aligned_add [of arg 4 e]
    by (simp add: exceed_def)
next
  case eight
  then show ?thesis using check_arg_class(3) [OF eight] assms aligned_add [of arg 8 e]
    by (simp add: exceed_def)
next
  case string
  then show ?thesis
    using check_arg_class(4) [OF string] assms FindStr4End_before_ok [of arg e mem]
    by (auto simp: exceed_def split: sum.splits option.splits)
next
  case blob
  with assms show ?thesis by simp
next
  case unknown
  then show ?thesis using check_arg_class(6) [OF unknown] by simp
qed

lemma check_arg_Advance:
  assumes "check_arg mem e t arg = Inr arg'" and "load_byte mem tag = Inr t"
  shows "Advance mem \<lparr>typeTag = Some tag, argument = Some arg\<rparr> =
    Inr \<lparr>typeTag = Some (tag + 1), argument = Some arg'\<rparr>"
  using assms(1)
proof (cases rule: check_arg_cases)
  case string
  with assms(2) FindStr4End_before_FindStr4End [OF string(3)] show ?thesis
    by (auto simp: Advance_def deref_def)
qed (use assms(2) in \<open>auto simp: Advance_def skip_bytes_def deref_def\<close>)

lemma check_arg_tag_nonzero: "check_arg mem e t arg = Inr arg' \<Longrightarrow> t \<noteq> 0"
  by (auto elim: check_arg_cases)

lemma cstr_in: 
  assumes "i < length mem" "p \<le> i" "mem ! i = 0" shows "\<exists>s. read_cstr mem p = Inr s"
proof -
  from assms have "drop p mem ! (i - p) = 0" "i - p < length (drop p mem)" by auto
  then have "0 \<in> set (drop p mem)" by (metis nth_mem)
  then show ?thesis by (simp add: read_cstr_def)
qed

lemmas accessor_defs = read_value_def TypeTag_def checked_def deref_def AsBool_def
  AsInt32_def AsInt32Unchecked_def AsFloat_def AsFloatUnchecked_def AsChar_def AsCharUnchecked_def
  AsRgbaColor_def AsRgbaColorUnchecked_def AsMidiMessage_def AsMidiMessageUnchecked_def
  AsInt64_def AsInt64Unchecked_def AsTimeTag_def AsTimeTagUnchecked_def AsDouble_def
  AsDoubleUnchecked_def AsString_def AsSymbol_def AsBlob_def AsBlobUnchecked_def

lemma union_readers:
  "ebind (load_byte mem (p + 3)) (\<lambda>c0. ebind (load_byte mem (p + 2)) (\<lambda>c1.
     ebind (load_byte mem (p + 1)) (\<lambda>c2. ebind (load_byte mem p) (\<lambda>c3.
       Inr (union_int32 c0 c1 c2 c3))))) = ToUInt32 mem p"
  "ebind (load_byte mem (p + 7)) (\<lambda>c0. ebind (load_byte mem (p + 6)) (\<lambda>c1.
     ebind (load_byte mem (p + 5)) (\<lambda>c2. ebind (load_byte mem (p + 4)) (\<lambda>c3.
     ebind (load_byte mem (p + 3)) (\<lambda>c4. ebind (load_byte mem (p + 2)) (\<lambda>c5.
     ebind (load_byte mem (p + 1)) (\<lambda>c6. ebind (load_byte mem p) (\<lambda>c7.
       Inr (union_int64 c0 c1 c2 c3 c4 c5 c6 c7))))))))) = ToUInt64 mem p"
  by (simp_all add: ToUInt32_def ToUInt64_def)

lemma read_value_ok:
  assumes "check_arg mem e t arg = Inr arg'" and "load_byte mem tag = Inr t" and "t \<noteq> BLOB_TYPE_TAG"
    and "arg \<le> e" and "4 dvd e - arg" and "e \<le> length mem"
  shows "\<exists>v. read_value mem \<lparr>typeTag = Some tag, argument = Some arg\<rparr> = Inr v \<and> arg_tag v = t"
  using assms(1)
proof (cases rule: check_arg_cases)
  case zero
  with assms(2) show ?thesis by (auto simp: accessor_defs)
next
  case four
  with assms(6) obtain x y where "ToInt32 mem arg = Inr x" "ToUInt32 mem arg = Inr y"
    using int32_codec.dec_ok_iff [of mem arg] uint32_codec.dec_ok_iff [of mem arg] by auto
  with four assms(2) show ?thesis by (auto simp: accessor_defs union_readers [simplified])
next
  case eight
  with assms(6) obtain x y where "ToInt64 mem arg = Inr x" "ToUInt64 mem arg = Inr y"
    using int64_codec.dec_ok_iff [of mem arg] uint64_codec.dec_ok_iff [of mem arg] by auto
  with eight assms(2) show ?thesis by (auto simp: accessor_defs union_readers [simplified])
next
  case string
  then obtain s where "read_cstr mem arg = Inr s"
    using FindStr4End_before_ok [of arg e mem] assms cstr_in [of _ mem arg] by force
  with string assms(2) show ?thesis by (auto simp: accessor_defs)
qed (use assms(3) in simp)

section \<open>Validation of all arguments\<close>

text \<open>
  The type tags from \<open>tag\<close> up to the NUL at \<open>stop\<close>, none of them a blob: the loop ends with an
  exception of the parser or at a NUL, and all the arguments it passed can be read.
\<close>

lemma check_args_ok:
  assumes "tag < stop" and "stop < length mem" and "mem ! stop = 0"
    and "\<forall>i. tag \<le> i \<and> i < stop \<longrightarrow> mem ! i \<noteq> BLOB_TYPE_TAG"
    and "arg \<le> e" and "4 dvd e - arg" and "e \<le> length mem"
  shows "case check_args mem e tag arg of
      Inl err \<Rightarrow> (\<exists>msg. err = MalformedMessageException msg)
    | Inr tag_end \<Rightarrow> tag < tag_end \<and> tag_end \<le> stop \<and>
        (\<exists>vs. read_values mem (tag_end - tag) \<lparr>typeTag = Some tag, argument = Some arg\<rparr> = Inr vs \<and>
              map arg_tag vs = take (tag_end - tag) (drop tag mem))"
  using assms
proof (induction mem e tag arg rule: check_args.induct)
  case (1 mem e tag arg)
  let ?t = "mem ! tag" and ?a = "\<lparr>typeTag = Some tag, argument = Some arg\<rparr>"
  have t: "load_byte mem tag = Inr ?t" and t': "load_byte mem (tag + 1) = Inr (mem ! (tag + 1))"
    and blob: "?t \<noteq> BLOB_TYPE_TAG" using "1.prems" by (auto simp: load_byte_def)
  show ?case
  proof (cases "check_arg mem e ?t arg")
    case (Inl err)
    with t check_arg_ok [OF "1.prems"(5-7) blob] show ?thesis by (subst check_args.simps) simp
  next
    case (Inr arg')
    note ok = check_arg_ok [OF "1.prems"(5-7) blob, unfolded Inr sum.case]
    obtain v where v: "read_value mem ?a = Inr v" "arg_tag v = ?t"
      using read_value_ok [OF Inr t blob "1.prems"(5-7)] by blast
    have adv: "Advance mem ?a = Inr \<lparr>typeTag = Some (tag + 1), argument = Some arg'\<rparr>"
      by (rule check_arg_Advance [OF Inr t])
    have tk: "take (Suc n) (drop tag mem) = ?t # take n (drop (tag + 1) mem)" for n
      using "1.prems"(1,2) by (simp add: Cons_nth_drop_Suc [symmetric])
    show ?thesis
    proof (cases "mem ! (tag + 1) = 0")
      case True
      have "check_args mem e tag arg = Inr (tag + 1)"
        using t t' Inr True by (subst check_args.simps) simp
      then show ?thesis using v adv tk [of 0] "1.prems"(1) by auto
    next
      case False
      then have "tag + 1 < stop" using "1.prems"(1,3) by (cases "tag + 1 = stop") auto
      with "1.IH" [OF t Inr t' False] ok "1.prems"
      have ih: "case check_args mem e (tag + 1) arg' of
          Inl err \<Rightarrow> (\<exists>msg. err = MalformedMessageException msg)
        | Inr tag_end \<Rightarrow> tag + 1 < tag_end \<and> tag_end \<le> stop \<and>
          (\<exists>vs. read_values mem (tag_end - (tag + 1))
             \<lparr>typeTag = Some (tag + 1), argument = Some arg'\<rparr> = Inr vs \<and>
             map arg_tag vs = take (tag_end - (tag + 1)) (drop (tag + 1) mem))"
        by simp
      have eq: "check_args mem e tag arg = check_args mem e (tag + 1) arg'"
        using t t' Inr False by (subst check_args.simps) simp
      show ?thesis
      proof (cases "check_args mem e (tag + 1) arg'")
        case (Inr tag_end)
        with ih obtain vs where vs: "tag + 1 < tag_end" "tag_end \<le> stop"
          "read_values mem (tag_end - (tag + 1)) \<lparr>typeTag = Some (tag + 1), argument = Some arg'\<rparr> = Inr vs"
          "map arg_tag vs = take (tag_end - (tag + 1)) (drop (tag + 1) mem)" by auto
        have n: "tag_end - tag = Suc (tag_end - (tag + 1))" using vs(1) by simp
        show ?thesis unfolding eq Inr sum.case n using v adv vs tk
          by (auto intro!: exI [of _ "v # vs"])
      qed (use ih eq in simp)
    qed
  qed
qed

section \<open>A received message\<close>

lemma and_3_dvd: "(x :: 64 word) AND 3 = 0 \<longleftrightarrow> 4 dvd unat x"
  by (simp add: and_3_zero_iff dvd_eq_mod_eq_0)

lemma c_str_end:
  assumes "0 \<in> set xs"
  shows "length (c_str xs) < length xs" and "xs ! length (c_str xs) = 0"
    and "c_str xs = take (length (c_str xs)) xs"
proof -
  show len: "length (c_str xs) < length xs"
    unfolding c_str_def using assms by (induction xs) auto
  show "xs ! length (c_str xs) = 0"
    using len nth_length_takeWhile [of "\<lambda>b. b \<noteq> 0" xs] by (simp add: c_str_def)
  show "c_str xs = take (length (c_str xs)) xs"
    unfolding c_str_def by (rule takeWhile_eq_take)
qed

text \<open>The type tag string of a message, with its comma: empty when the parser finds none.\<close>

definition type_tag_string :: "bytes \<Rightarrow> nat \<Rightarrow> ulong \<Rightarrow> bytes" where
  "type_tag_string mem message sz =
     (case FindStr4End_before mem message (message + unat sz) of
        Inr (Some tags) \<Rightarrow> c_str (drop tags mem) | _ \<Rightarrow> [])"

text \<open>
  Without a blob the parser never leaves the packet, and what it accepts can be read: it returns
  an exception of its own or a message whose arguments all have values.
\<close>

definition init_ok :: "bytes \<Rightarrow> nat \<Rightarrow> osc_error + received_message \<Rightarrow> bool" where
  "init_ok mem message r =
     (case r of
        Inl err \<Rightarrow> (\<exists>msg. err = MalformedMessageException msg)
      | Inr m \<Rightarrow> addressPattern m = message \<and>
          (\<exists>s. read_cstr mem message = Inr s) \<and>
          (typeTagsBegin m = None \<and> typeTagsEnd m = None \<or>
           (\<exists>b. typeTagsBegin m = Some b \<and> typeTagsEnd m = Some (b + ArgumentCount m))) \<and>
          (\<exists>vs. read_values mem (ArgumentCount m) (ArgumentsBegin m) = Inr vs \<and>
            map arg_tag vs = (case typeTagsBegin m of None \<Rightarrow> [] | Some b \<Rightarrow> take (ArgumentCount m) (drop b mem))))"

lemma first_nul:
  assumes "tags \<le> j" and "j < length mem" and "mem ! j = 0" and "mem ! tags \<noteq> 0"
    and "mem ! (tags + 1) \<noteq> 0"
  defines "stop \<equiv> tags + length (c_str (drop tags mem))"
  shows "stop < length mem" and "mem ! stop = 0" and "tags + 1 < stop"
    and "tags + 1 \<le> k \<Longrightarrow> k < stop \<Longrightarrow> mem ! k \<in> set (c_str (drop tags mem))"
proof -
  let ?xs = "drop tags mem"
  have z: "0 \<in> set ?xs" using cstr_in [of j mem tags] assms by (auto simp: read_cstr_def split: if_splits)
  show stop: "stop < length mem" "mem ! stop = 0" using c_str_end [OF z] by (auto simp: stop_def)
  have "stop \<noteq> tags" "stop \<noteq> tags + 1" using stop(2) assms by auto
  moreover have "tags \<le> stop" by (simp add: stop_def)
  ultimately show "tags + 1 < stop" by linarith
  show "mem ! k \<in> set (c_str ?xs)" if "tags + 1 \<le> k" "k < stop"
  proof -
    from that assms(1,2) have "mem ! k = c_str ?xs ! (k - tags)"
      by (subst c_str_end(3) [OF z]) (simp add: stop_def)
    also have "\<dots> \<in> set (c_str ?xs)" using that by (intro nth_mem) (simp add: stop_def)
    finally show ?thesis .
  qed
qed

text \<open>The branch of \<^verbatim>\<open>Init\<close> that walks over the arguments.\<close>

lemma Message_Init_arguments:
  assumes sz: "sz \<noteq> 0" "sz AND 3 = 0" and mem: "message + unat sz \<le> length mem"
    and tags: "FindStr4End_before mem message (message + unat sz) = Inr (Some tags)"
      "tags < message + unat sz" "4 dvd message + unat sz - tags"
      "mem ! tags = byte_of (CHR '','')" "mem ! (tags + 1) \<noteq> 0"
    and s: "read_cstr mem message = Inr s"
    and blob: "BLOB_TYPE_TAG \<notin> set (c_str (drop tags mem))"
  shows "init_ok mem message (Message_Init mem message sz)"
proof -
  let ?e = "message + unat sz" and ?stop = "tags + length (c_str (drop tags mem))"
  note al = aligned_next [OF tags(2,3)]
  note tagsok = FindStr4End_before_ok [OF tags(2,3) mem]
  have comma: "mem ! tags = 44" using tags(4) by (simp add: byte_of_values)
  show ?thesis
  proof (cases "FindStr4End_before mem tags ?e")
    case (Inr r)
    show ?thesis
    proof (cases r)
      case None
      with tags comma al sz Inr mem show ?thesis
        by (auto simp: Message_Init_def init_ok_def Let_def load_byte_def byte_of_values)
    next
      case (Some args)
      have a: "args \<le> ?e" "4 dvd ?e - args" using tagsok Inr Some by auto
      from tagsok Inr Some obtain j where "tags \<le> j" "j < args" "mem ! j = 0" by auto
      with a mem comma tags(5) have nul: "tags \<le> j" "j < length mem" "mem ! j = 0" "mem ! tags \<noteq> 0"
        by auto
      note stop = first_nul [OF nul tags(5)]
      have "mem ! k \<noteq> BLOB_TYPE_TAG" if "tags + 1 \<le> k" "k < ?stop" for k
        using stop(4) [OF that] blob by (metis (full_types))
      with stop a mem have "case check_args mem ?e (tags + 1) args of
          Inl err \<Rightarrow> (\<exists>msg. err = MalformedMessageException msg)
        | Inr tag_end \<Rightarrow> tags + 1 < tag_end \<and> tag_end \<le> ?stop \<and>
            (\<exists>vs. read_values mem (tag_end - (tags + 1))
                \<lparr>typeTag = Some (tags + 1), argument = Some args\<rparr> = Inr vs \<and>
              map arg_tag vs = take (tag_end - (tags + 1)) (drop (tags + 1) mem))"
        by (intro check_args_ok) auto
      moreover have "Message_Init mem message sz =
          ebind (check_args mem ?e (tags + 1) args) (\<lambda>tags_end.
            Inr \<lparr>addressPattern = message, typeTagsBegin = Some (tags + 1),
              typeTagsEnd = Some tags_end, arguments = Some args\<rparr>)"
        using tags comma al sz Inr Some mem
        by (simp add: Message_Init_def Let_def load_byte_def byte_of_values)
      ultimately show ?thesis
        using s by (auto simp: init_ok_def ArgumentCount_def ArgumentsBegin_def split: sum.splits)
    qed
  qed (use tagsok in simp)
qed

lemma Message_Init_safe:
  assumes mem: "message + unat sz \<le> length mem"
    and blob: "BLOB_TYPE_TAG \<notin> set (type_tag_string mem message sz)"
  shows "init_ok mem message (Message_Init mem message sz)"
proof (cases "sz = 0 \<or> sz AND 3 \<noteq> 0")
  case True
  then show ?thesis by (auto simp: Message_Init_def init_ok_def Let_def)
next
  case False
  let ?e = "message + unat sz"
  have pos: "message < ?e" "4 dvd ?e - message" using False by (auto simp: and_3_dvd unat_gt_0)
  note addr = FindStr4End_before_ok [OF pos mem]
  note init = Message_Init_def init_ok_def Let_def load_byte_def byte_of_values ArgumentCount_def
  show ?thesis
  proof (cases "FindStr4End_before mem message ?e")
    case (Inr r)
    show ?thesis
    proof (cases r)
      case None
      with Inr False show ?thesis by (simp add: init)
    next
      case (Some tags)
      with addr Inr obtain i where t: "tags \<le> ?e" "4 dvd ?e - tags"
        and i: "message \<le> i" "i < tags" "mem ! i = 0" by auto
      obtain s where s: "read_cstr mem message = Inr s" using cstr_in [of i mem message] i t mem by auto
      have al: "tags + 1 < ?e" if "tags < ?e" using aligned_next [OF that t(2)] by linarith
      consider "tags = ?e" | "tags < ?e" "mem ! tags \<noteq> 44 \<or> mem ! (tags + 1) = 0"
        | "tags < ?e" "mem ! tags = byte_of (CHR '','')" "mem ! (tags + 1) \<noteq> 0"
        using le_imp_less_or_eq [OF t(1)] by (auto simp: byte_of_values)
      then show ?thesis
      proof cases
        case 1
        with False Inr Some s show ?thesis by (auto simp: init)
      next
        case 2
        with al False Inr Some mem s show ?thesis by (auto simp: init)
      next
        case 3
        with False Inr Some mem s t blob show ?thesis
          by (intro Message_Init_arguments) (auto simp: type_tag_string_def)
      qed
    qed
  qed (use addr in simp)
qed

end
