(* ===== verification/OscOutboundRefine.thy ===== *)
theory OscOutboundRefine
  imports OscOutboundSpec
begin

text \<open>
  The stream refines an abstract machine: \<open>spec_step\<close> computes, from the abstract packet alone,
  the next packet or the exception thrown, and the locale \<open>packet_machine\<close> states what a client
  of such a stream may rely on.  The concrete stream is its interpretation.
\<close>

section \<open>The abstract machine\<close>

definition spec_size :: "packet_spec \<Rightarrow> nat" where
  "spec_size a =
     length (layout (closed a) (open_elems a)) +
     (case cur_args a of None \<Rightarrow> 0 | Some vs \<Rightarrow> length (enc_args vs))"

definition spec_slot :: "packet_spec \<Rightarrow> nat" where
  "spec_slot a = (if open_elems a = [] then 0 else 4)"

fun spec_step :: "nat \<Rightarrow> stream_op \<Rightarrow> packet_spec \<Rightarrow> osc_error + packet_spec" where
  "spec_step cap (BeginBundleOp t) a =
     (if cur_args a \<noteq> None then Inl MessageInProgressException
      else if cap < spec_size a + spec_slot a + 16 then Inl OutOfBufferMemoryException
      else Inr (spec_begin_bundle t a))"
| "spec_step cap EndBundleOp a =
     (if open_elems a = [] then Inl BundleNotInProgressException
      else if cur_args a \<noteq> None then Inl MessageInProgressException
      else Inr (spec_close a))"
| "spec_step cap (BeginMessageOp s) a =
     (if cur_args a \<noteq> None then Inl MessageInProgressException
      else if cap < spec_size a + spec_slot a + roundup4 (length s + 1) + 4
      then Inl OutOfBufferMemoryException
      else Inr (spec_begin_message s a))"
| "spec_step cap EndMessageOp a =
     (if cur_args a = None then Inl MessageNotInProgressException
      else Inr (spec_end_message a))"
| "spec_step cap (PutOp v) a =
     (if cap < spec_size (spec_put v a) then Inl OutOfBufferMemoryException
      else Inr (spec_put v a))"
| "spec_step cap ClearOp a = Inr empty_spec"

text \<open>
  The calls a client may make: arguments only inside a message, and C strings and blobs that fit
  a 64-bit address space.
\<close>

fun legal :: "stream_op \<Rightarrow> packet_spec \<Rightarrow> bool" where
  "legal (PutOp v) a = (cur_args a \<noteq> None \<and> sendable v)"
| "legal (BeginMessageOp s) a = (length s < 2 ^ 62)"
| "legal _ a = True"

section \<open>Running a list of calls up to the first exception\<close>

fun exec_ops :: "('op \<Rightarrow> 's \<Rightarrow> 'e + 's) \<Rightarrow> 'op list \<Rightarrow> 's \<Rightarrow> 'e + 's" where
  "exec_ops f [] s = Inr s"
| "exec_ops f (x # xs) s = ebind (f x s) (exec_ops f xs)"

lemma exec_ops_append: "exec_ops f (xs @ ys) s = ebind (exec_ops f xs s) (exec_ops f ys)"
proof (induction xs arbitrary: s)
  case (Cons x xs)
  then show ?case by (cases "f x s") auto
qed simp

lemma exec_ops_single: "exec_ops f [x] s = f x s"
  by (cases "f x s") auto

fun legal_run :: "nat \<Rightarrow> stream_op list \<Rightarrow> packet_spec \<Rightarrow> bool" where
  "legal_run cap [] a = True"
| "legal_run cap (x # xs) a =
     (legal x a \<and> (\<forall>a'. spec_step cap x a = Inr a' \<longrightarrow> legal_run cap xs a'))"

locale packet_machine =
  fixes cap :: nat
    and step :: "stream_op \<Rightarrow> 's \<Rightarrow> osc_error + 's"
    and rep :: "'s \<Rightarrow> packet_spec \<Rightarrow> bool"
  assumes step_ok:
      "rep s a \<Longrightarrow> legal x a \<Longrightarrow> spec_step cap x a = Inr a' \<Longrightarrow> \<exists>s'. step x s = Inr s' \<and> rep s' a'"
    and step_error: "rep s a \<Longrightarrow> legal x a \<Longrightarrow> spec_step cap x a = Inl e \<Longrightarrow> step x s = Inl e"
begin

lemma exec_simulates:
  "rep s a \<Longrightarrow> legal_run cap xs a \<Longrightarrow>
   (case exec_ops (spec_step cap) xs a of
      Inl e \<Rightarrow> exec_ops step xs s = Inl e
    | Inr a' \<Rightarrow> \<exists>s'. exec_ops step xs s = Inr s' \<and> rep s' a')"
proof (induction xs arbitrary: s a)
  case (Cons x xs)
  then have legal: "legal x a" by simp
  show ?case
  proof (cases "spec_step cap x a")
    case (Inl e)
    with step_error [OF Cons.prems(1) legal Inl] show ?thesis by simp
  next
    case (Inr a1)
    with step_ok [OF Cons.prems(1) legal Inr] obtain s1 where "step x s = Inr s1" "rep s1 a1"
      by blast
    with Cons.IH [of s1 a1] Cons.prems(2) Inr show ?thesis by (simp split: sum.splits)
  qed
qed simp

lemma exec_ok:
  "rep s a \<Longrightarrow> legal_run cap xs a \<Longrightarrow> exec_ops (spec_step cap) xs a = Inr a' \<Longrightarrow>
   \<exists>s'. exec_ops step xs s = Inr s' \<and> rep s' a'"
  using exec_simulates [of s a xs] by simp

lemma exec_error:
  "rep s a \<Longrightarrow> legal_run cap xs a \<Longrightarrow> exec_ops (spec_step cap) xs a = Inl e \<Longrightarrow>
   exec_ops step xs s = Inl e"
  using exec_simulates [of s a xs] by simp

end

section \<open>Each operation simulates its abstract counterpart\<close>

lemma represents_bounds:
  assumes "represents st a"
  shows "length (obuf st) < 2 ^ 31" and "size_nat st < 2 ^ 31" and "ntags st < 2 ^ 31"
    and "argumentCurrent st < 2 ^ 31"
  using assms represents_size_le [OF assms] by (auto simp: represents_def ntags_def)

lemma represents_slot: "represents st a \<Longrightarrow> slot_nat st = spec_slot a"
  by (auto simp: represents_def slot_nat_def spec_slot_def)

lemma represents_cursor_le:
  "represents st a \<Longrightarrow> length (layout (closed a) (open_elems a)) \<le> size_nat st"
  by (auto simp: represents_def size_nat_def)

text \<open>
  Between two operations: a new stream, or one on which every argument was put inside a message.
\<close>

definition sim_rel :: "nat \<Rightarrow> ostream \<Rightarrow> packet_spec \<Rightarrow> bool" where
  "sim_rel cap st a \<longleftrightarrow> represents st a \<and> length (obuf st) = cap \<and>
     (cur_args a = None \<longrightarrow> argumentCurrent st = messageCursor st)"

lemma put_value_result:
  assumes rep: "represents st a" and v: "sendable v"
  shows "put_value v st =
    (if argumentCurrent st + length (arg_bytes v) + roundup4 (ntags st + 3) \<le> length (obuf st)
     then Inr (st\<lparr>obuf := blit (argumentCurrent st) (arg_bytes v)
                             (blit (typeTagsCurrent st - 1) [arg_tag v] (obuf st)),
                  typeTagsCurrent := typeTagsCurrent st - 1,
                  argumentCurrent := argumentCurrent st + length (arg_bytes v)\<rparr>)
     else Inl OutOfBufferMemoryException)"
proof -
  have "put_value v st = put_arg (arg_tag v) (arg_bytes v) st"
    using rep v by (intro put_value_eq) (auto simp: represents_def)
  with rep v show ?thesis
    by (simp only:) (rule put_arg_result, auto simp: represents_def sendable_def)
qed

lemma put_value_keeps:
  fixes st v
  defines "st' \<equiv> st\<lparr>obuf := blit (argumentCurrent st) (arg_bytes v)
                             (blit (typeTagsCurrent st - 1) [arg_tag v] (obuf st)),
                  typeTagsCurrent := typeTagsCurrent st - 1,
                  argumentCurrent := argumentCurrent st + length (arg_bytes v)\<rparr>"
  assumes rep: "represents st a"
    and fits: "argumentCurrent st + length (arg_bytes v) + roundup4 (ntags st + 3) \<le> length (obuf st)"
  shows "represents st' (spec_put v a)"
    and "length (obuf st') = length (obuf st)"
proof -
  let ?b0 = "obuf st" and ?ac = "argumentCurrent st" and ?tt = "typeTagsCurrent st"
  let ?b1 = "blit (?tt - 1) [arg_tag v] ?b0"
  let ?b2 = "blit ?ac (arg_bytes v) ?b1"
  have pos: "0 < ?tt" "?ac + length (arg_bytes v) + 3 \<le> ?tt" "?tt \<le> length ?b0"
    using fits rep roundup4_ge [of "ntags st + 3"] by (auto simp: ntags_def represents_def)
  have len: "length ?b1 = length ?b0" "length ?b2 = length ?b0" using pos by auto
  have keep: "mem_at ?b2 p xs" if "mem_at ?b0 p xs" and "p + length xs \<le> ?ac" for p and xs :: bytes
    using that pos len by (intro mem_at_blit_disjoint) auto
  have lay: "mem_at ?b2 0 (layout (closed a) (open_elems a))"
    using rep by (intro keep) (auto simp: represents_def)
  have args: "mem_at ?b2 (messageCursor st) (concat (map arg_bytes vs) @ arg_bytes v) \<and>
      mem_at ?b2 (?tt - 1) (arg_tag v # rev (map arg_tag vs))" if "cur_args a = Some vs" for vs
  proof -
    from rep that have ac: "messageCursor st + length (concat (map arg_bytes vs)) = ?ac"
      and old: "mem_at ?b0 (messageCursor st) (concat (map arg_bytes vs))"
        "mem_at ?b0 ?tt (rev (map arg_tag vs))" by (auto simp: represents_def)
    have "mem_at ?b2 ?ac (arg_bytes v)" using pos len by (intro mem_at_blit_same) linarith
    with keep [OF old(1)] ac
    have 1: "mem_at ?b2 (messageCursor st) (concat (map arg_bytes vs) @ arg_bytes v)"
      by (simp only: mem_at_append)
    have "mem_at ?b1 (?tt - 1) [arg_tag v]" using pos by (intro mem_at_blit_same) simp
    moreover have "mem_at ?b1 ?tt (rev (map arg_tag vs))"
      using old(2) pos by (intro mem_at_blit_disjoint) auto
    ultimately have "mem_at ?b1 (?tt - 1) ([arg_tag v] @ rev (map arg_tag vs))"
      using pos by (simp only: mem_at_append) simp
    from mem_at_blit_disjoint [OF _ this, of ?ac "arg_bytes v"]
    have "mem_at ?b2 (?tt - 1) ([arg_tag v] @ rev (map arg_tag vs))"
      using pos len by simp
    with 1 show ?thesis by simp
  qed
  have nt: "length ?b0 - (?tt - 1) = Suc (length ?b0 - ?tt)" using pos by linarith
  show "length (obuf st') = length (obuf st)" using len(2) by (simp add: st'_def)
  have room: "?ac + length (arg_bytes v) + roundup4 (Suc (ntags st) + 2) \<le> length ?b0"
    using fits by (simp add: numeral_3_eq_3)
  show "represents st' (spec_put v a)"
  proof (cases "cur_args a")
    case None
    with rep lay len(2) pos show ?thesis
      by (simp add: st'_def represents_def spec_put_def ntags_def)
  next
    case (Some vs)
    with rep lay args [OF Some] len(2) pos nt room show ?thesis
      by (simp add: st'_def represents_def spec_put_def ntags_def)
  qed
qed


lemma length_enc_args:
  "length (enc_args vs) = roundup4 (length vs + 2) + length (concat (map arg_bytes vs))"
  by (simp add: enc_args_def)

lemma sim_put:
  assumes "sim_rel cap st a" and "legal (PutOp v) a"
  shows "if cap < spec_size (spec_put v a) then put_value v st = Inl OutOfBufferMemoryException
    else \<exists>st'. put_value v st = Inr st' \<and> sim_rel cap st' (spec_put v a)"
proof -
  from assms obtain vs where vs: "cur_args a = Some vs" and rep: "represents st a"
    and cap: "length (obuf st) = cap" and v: "sendable v" by (auto simp: sim_rel_def)
  have size: "argumentCurrent st + length (arg_bytes v) + roundup4 (ntags st + 3) =
      spec_size (spec_put v a)"
    using rep vs
    by (simp add: represents_def spec_size_def spec_put_def length_enc_args numeral_3_eq_3)
  show ?thesis
    using put_value_keeps [OF rep, of v] put_value_result [OF rep v] vs
    by (auto simp: size cap sim_rel_def spec_put_def)
qed

lemma space_size: "sim_rel cap st a \<Longrightarrow> size_nat st = spec_size a"
  by (cases "cur_args a")
    (auto simp: sim_rel_def represents_def size_nat_def spec_size_def enc_args_def)

lemma begin_element_keeps:
  assumes rep: "represents st a" and None: "cur_args a = None" and x: "x \<noteq> []"
    and fits: "size_nat st + slot_nat st + length x \<le> length (obuf st)"
  shows "\<exists>cursor st'. BeginElement (messageCursor st) st = Inr (cursor, st') \<and>
    cursor = messageCursor st + slot_nat st \<and> cursor + length x \<le> length (obuf st') \<and>
    length (obuf st') = length (obuf st) \<and>
    typeTagsCurrent st' = typeTagsCurrent st \<and>
    elementSizePtr st' = Some (slot_of (closed a) (x # open_elems a)) \<and>
    cursor + length x = length (layout (closed a) (x # open_elems a)) \<and>
    messageIsInProgress st' = messageIsInProgress st \<and>
    mem_at (blit cursor x (obuf st')) 0 (layout (closed a) (x # open_elems a))"
proof -
  let ?L = "layout (closed a) (open_elems a)"
  have slot: "slot_nat st = (if open_elems a = [] then 0 else 4)"
    using rep by (auto simp: represents_def slot_nat_def)
  have mc: "messageCursor st = length ?L" "mem_at (obuf st) 0 ?L"
    using rep by (auto simp: represents_def)
  have le: "length ?L + slot_nat st + length x \<le> length (obuf st)"
    using fits rep by (auto simp: size_nat_def represents_def)
  have "BeginElement (messageCursor st) st =
    Inr (length ?L + (if open_elems a = [] then 0 else 4),
         st\<lparr>obuf := (if open_elems a = [] then obuf st
              else blit (length ?L) (HostUInt32 (of_nat (slot_of (closed a) (open_elems a)))) (obuf st)),
            elementSizePtr := Some (slot_of (closed a) (x # open_elems a))\<rparr>)"
    using rep mc le by (intro BeginElement_result) (auto simp: represents_def)
  moreover have "mem_at (blit (length ?L + (if open_elems a = [] then 0 else 4)) x
      (if open_elems a = [] then obuf st
       else blit (length ?L) (HostUInt32 (of_nat (slot_of (closed a) (open_elems a)))) (obuf st)))
      0 (layout (closed a) (x # open_elems a))"
    using mc le slot by (intro open_element) auto
  ultimately show ?thesis using le slot mc by (auto simp: layout_push)
qed

lemma bundle_header_split: "bundle_header t = (bytes_of ''#bundle'' @ [0]) @ FromUInt64 t"
  by (simp add: bundle_header_def)

lemma length_bundle_magic: "length (bytes_of ''#bundle'' @ [0]) = 8"
  by simp

text \<open>These hold on any state, also after arguments were put outside of a message.\<close>

lemma begin_bundle_result:
  assumes rep: "represents st a" and "cur_args a = None" and cap: "length (obuf st) = cap"
  shows "if cap < size_nat st + slot_nat st + 16
    then begin_bundle t st = Inl OutOfBufferMemoryException
    else \<exists>st'. begin_bundle t st = Inr st' \<and> sim_rel cap st' (spec_begin_bundle t a)"
proof -
  have idle: "\<not> IsMessageInProgress st" using rep assms by (auto simp: represents_def IsMessageInProgress_def)
  have check: "CheckForAvailableBundleSpace st =
    (if size_nat st + slot_nat st + 16 \<le> cap then Inr () else Inl OutOfBufferMemoryException)"
    using CheckBundleSpace [OF represents_bounds(1-3) [OF rep]] cap by simp
  show ?thesis
  proof (cases "cap < size_nat st + slot_nat st + 16")
    case True
    then show ?thesis using idle check by (simp add: begin_bundle_def)
  next
    case False
    then have "size_nat st + slot_nat st + length (bundle_header t) \<le> length (obuf st)"
      by (simp add: cap)
    moreover have "bundle_header t \<noteq> []" by (simp add: bundle_header_def)
    ultimately obtain cursor st' where b: "BeginElement (messageCursor st) st = Inr (cursor, st')"
      "cursor + 16 \<le> length (obuf st')" "length (obuf st') = length (obuf st)"
      "typeTagsCurrent st' = typeTagsCurrent st"
      "elementSizePtr st' = Some (slot_of (closed a) (bundle_header t # open_elems a))"
      "cursor + 16 = length (layout (closed a) (bundle_header t # open_elems a))"
      "messageIsInProgress st' = messageIsInProgress st"
      "mem_at (blit cursor (bundle_header t) (obuf st')) 0 (layout (closed a) (bundle_header t # open_elems a))"
      using begin_element_keeps [OF rep assms(2), of "bundle_header t"] by auto
    have "blit (cursor + 8) (FromUInt64 t) (blit cursor (bytes_of ''#bundle'' @ [0]) (obuf st')) =
        blit cursor (bundle_header t) (obuf st')"
      using blit_blit_adjacent [of cursor "bytes_of ''#bundle'' @ [0]" "FromUInt64 t" "obuf st'"] b(2)
      by (simp only: bundle_header_split length_bundle_magic codec_lengths add.assoc)
    with False b check idle
    have "begin_bundle t st = Inr (st'\<lparr>obuf := blit cursor (bundle_header t) (obuf st'),
        messageCursor := cursor + 16, argumentCurrent := cursor + 16\<rparr>)"
      by (simp add: begin_bundle_def store_bytes_def)
    moreover have "sim_rel cap (st'\<lparr>obuf := blit cursor (bundle_header t) (obuf st'),
        messageCursor := cursor + 16, argumentCurrent := cursor + 16\<rparr>) (spec_begin_bundle t a)"
      using rep b cap assms(2)
      by (auto simp: sim_rel_def represents_def spec_begin_bundle_def bundle_header_def)
    ultimately show ?thesis using False by auto
  qed
qed


lemma sim_begin_bundle:
  assumes "sim_rel cap st a" and "cur_args a = None"
  shows "if cap < spec_size a + spec_slot a + 16
    then begin_bundle t st = Inl OutOfBufferMemoryException
    else \<exists>st'. begin_bundle t st = Inr st' \<and> sim_rel cap st' (spec_begin_bundle t a)"
  using begin_bundle_result [of st a cap t] assms space_size [OF assms(1)] represents_slot [of st a]
  by (auto simp: sim_rel_def)
lemma enc_str_split:
  "enc_str s = (s @ [0]) @ replicate (roundup4 (length s + 1) - (length s + 1)) 0"
  by (simp add: enc_str_def enc_pad_def)

lemma begin_message_result:
  assumes rep: "represents st a" and "cur_args a = None" and cap: "length (obuf st) = cap" and s: "length s < 2 ^ 62"
  shows "if cap < size_nat st + slot_nat st + roundup4 (length s + 1) + 4
    then begin_message s st = Inl OutOfBufferMemoryException
    else \<exists>st'. begin_message s st = Inr st' \<and> sim_rel cap st' (spec_begin_message s a)"
proof -
  have idle: "\<not> IsMessageInProgress st" using rep assms by (auto simp: represents_def IsMessageInProgress_def)
  let ?n = "roundup4 (length s + 1)"
  have check: "CheckForAvailableMessageSpace s st =
    (if size_nat st + slot_nat st + ?n + 4 \<le> cap then Inr () else Inl OutOfBufferMemoryException)"
    using CheckMessageSpace [OF represents_bounds(1-3) [OF rep] s] cap by simp
  show ?thesis
  proof (cases "cap < size_nat st + slot_nat st + ?n + 4")
    case True
    then show ?thesis using idle check by (simp add: begin_message_def)
  next
    case False
    then have "size_nat st + slot_nat st + length (enc_str s) \<le> length (obuf st)"
      by (simp add: cap)
    moreover have ne: "enc_str s \<noteq> []" by (simp add: enc_str_def enc_pad_def)
    ultimately obtain cursor st' where b: "BeginElement (messageCursor st) st = Inr (cursor, st')"
      "cursor + ?n \<le> length (obuf st')" "cursor = messageCursor st + slot_nat st"
      "length (obuf st') = length (obuf st)"
      "elementSizePtr st' = Some (slot_of (closed a) (enc_str s # open_elems a))"
      "cursor + ?n = length (layout (closed a) (enc_str s # open_elems a))"
      "messageIsInProgress st' = messageIsInProgress st"
      "mem_at (blit cursor (enc_str s) (obuf st')) 0 (layout (closed a) (enc_str s # open_elems a))"
      using begin_element_keeps [OF rep assms(2), of "enc_str s"] by auto
    have le: "length s + 1 \<le> ?n" by (rule roundup4_ge)
    have "blit (cursor + (length s + 1)) (replicate (?n - (length s + 1)) 0) (blit cursor (s @ [0]) (obuf st')) =
        blit cursor (enc_str s) (obuf st')"
      using blit_blit_adjacent [of cursor "s @ [0]" "replicate (?n - (length s + 1)) 0" "obuf st'"] b(2) le
      by (simp add: enc_str_split)
    with b(2) le
    have pad: "pad_zero (length s + 1) (cursor + length s + 1) (blit cursor (s @ [0]) (obuf st')) =
        Inr (cursor + ?n, blit cursor (enc_str s) (obuf st'))"
      by (subst pad_zero_eq) (auto simp: store_bytes_def)
    let ?st = "st'\<lparr>obuf := blit cursor (enc_str s) (obuf st'), messageCursor := cursor + ?n,
        argumentCurrent := cursor + ?n, typeTagsCurrent := length (obuf st'), messageIsInProgress := True\<rparr>"
    have "begin_message s st = Inr ?st"
      using False b(1,2) le check idle pad
      by (simp add: begin_message_def store_bytes_def end_ptr_def Let_def)
    moreover have "cursor + ?n + 4 \<le> length (obuf st)"
      using False b(3) cap rep
      by (auto simp: size_nat_def represents_def)
    then have "sim_rel cap ?st (spec_begin_message s a)"
      using rep b(2,4-) cap assms(2) ne
      by (auto simp: sim_rel_def represents_def spec_begin_message_def ntags_def)
    ultimately show ?thesis using False by auto
  qed
qed


lemma sim_begin_message:
  assumes "sim_rel cap st a" and "cur_args a = None" and s: "length s < 2 ^ 62"
  shows "if cap < spec_size a + spec_slot a + roundup4 (length s + 1) + 4
    then begin_message s st = Inl OutOfBufferMemoryException
    else \<exists>st'. begin_message s st = Inr st' \<and> sim_rel cap st' (spec_begin_message s a)"
  using begin_message_result [of st a cap s] assms space_size [OF assms(1)] represents_slot [of st a]
  by (auto simp: sim_rel_def)
text \<open>Closing the current element, whose contents are complete in the buffer.\<close>

lemma EndElement_closes:
  assumes fs: "fs \<noteq> []" "\<forall>f\<in>set fs. f \<noteq> []"
    and buf: "mem_at (obuf st) 0 (layout c fs)" "length (obuf st) < 2 ^ 31"
    and slot: "elementSizePtr st = Some (slot_of c fs)"
    and ptr: "p = length (layout c fs)"
    and a': "a' = spec_close \<lparr>closed = c, open_elems = fs, cur_args = None\<rparr>"
  obtains buf' where "EndElement p st =
      Inr (st\<lparr>obuf := buf', elementSizePtr :=
        (if open_elems a' = [] then None else Some (slot_of (closed a') (open_elems a')))\<rparr>)"
    and "length buf' = length (obuf st)" and "mem_at buf' 0 (layout (closed a') (open_elems a'))"
    and "length (layout (closed a') (open_elems a')) = p" and "\<forall>f\<in>set (open_elems a'). f \<noteq> []"
    and "cur_args a' = None"
proof -
  have "close_frames c fs = (closed a', open_elems a')" and "cur_args a' = None"
    by (auto simp: a' close_frames_def spec_close_def split: list.splits)
  with EndElement_result [OF fs buf slot this(1)] that ptr show ?thesis by blast
qed

lemma end_bundle_result:
  assumes rep: "represents st a" and cur: "cur_args a = None" and op: "open_elems a \<noteq> []"
  shows "\<exists>st'. end_bundle st = Inr st' \<and> represents st' (spec_close a) \<and>
    length (obuf st') = length (obuf st) \<and> argumentCurrent st' = argumentCurrent st \<and>
    messageCursor st' = messageCursor st"
proof -
  have a: "a = \<lparr>closed = closed a, open_elems = open_elems a, cur_args = None\<rparr>" using cur by simp
  have ptr: "messageCursor st = length (layout (closed a) (open_elems a))"
    and spec: "spec_close a = spec_close \<lparr>closed = closed a, open_elems = open_elems a, cur_args = None\<rparr>"
    using rep a by (auto simp: represents_def)
  obtain buf' where e: "EndElement (messageCursor st) st =
      Inr (st\<lparr>obuf := buf', elementSizePtr := (if open_elems (spec_close a) = [] then None
        else Some (slot_of (closed (spec_close a)) (open_elems (spec_close a))))\<rparr>)"
    and "length buf' = length (obuf st)"
      "mem_at buf' 0 (layout (closed (spec_close a)) (open_elems (spec_close a)))"
      "length (layout (closed (spec_close a)) (open_elems (spec_close a))) = messageCursor st"
      "\<forall>f\<in>set (open_elems (spec_close a)). f \<noteq> []" "cur_args (spec_close a) = None"
    using rep op by (elim EndElement_closes [OF op _ _ _ _ ptr spec, rotated -1]) (auto simp: represents_def)
  moreover have "end_bundle st = EndElement (messageCursor st) st"
    using rep op cur by (simp add: end_bundle_def represents_def IsBundleInProgress_def IsMessageInProgress_def)
  ultimately show ?thesis
    using rep cur by (auto simp: represents_def)
qed

lemma sim_end_bundle:
  assumes sim: "sim_rel cap st a" and cur: "cur_args a = None" and op: "open_elems a \<noteq> []"
  shows "\<exists>st'. end_bundle st = Inr st' \<and> sim_rel cap st' (spec_close a)"
  using end_bundle_result [of st a] assms
  by (auto simp: sim_rel_def spec_close_def split: list.splits)

lemma map_nth_rev: "map (\<lambda>i. xs ! (length xs - 1 - i)) [0..<length xs] = rev xs"
  by (rule nth_equalityI) (auto simp: rev_nth)

text \<open>
  \<^verbatim>\<open>operator<<( MessageTerminator )\<close> moves the arguments up and writes the type tag string, which was
  collected backwards at the end of the buffer, before them.
\<close>

lemma tags_and_arguments:
  fixes tags args buf :: bytes and c :: nat and t :: byte
  defines "b' \<equiv> blit (c + 1 + length tags)
            (replicate (roundup4 (length tags + 2) - (length tags + 1)) 0)
          (blit (c + 1) tags (blit c [t]
          (blit (c + roundup4 (length tags + 2)) args buf)))"
  assumes len: "c + roundup4 (length tags + 2) + length args \<le> length buf"
  shows "mem_at b' c (enc_pad (t # tags @ [0]) @ args)"
    and "length b' = length buf"
    and "p + length xs \<le> c \<Longrightarrow> mem_at buf p xs \<Longrightarrow> mem_at b' p xs"
proof -
  let ?r = "roundup4 (length tags + 2)"
  let ?k = "?r - (length tags + 1)"
  let ?b1 = "blit (c + ?r) args buf"
  have r: "length tags + 2 \<le> ?r" by (rule roundup4_ge)
  have l1: "length ?b1 = length buf" using len by simp
  have k: "?k = Suc (?r - (length tags + 2))" using r by linarith
  have zeros: "replicate ?k (0 :: byte) = 0 # replicate (?r - (length tags + 2)) 0"
    by (simp only: k replicate_Suc)
  have pad: "enc_pad (t # tags @ [0]) = [t] @ tags @ replicate ?k 0"
    unfolding zeros enc_pad_def by simp
  have len3: "length ([t] @ tags @ replicate ?k 0) = ?r" using r by simp
  have b: "b' = blit c ([t] @ tags @ replicate ?k 0) ?b1"
    using blit_blit_adjacent [of c "[t]" tags ?b1]
      blit_blit_adjacent [of c "[t] @ tags" "replicate ?k 0" ?b1] r l1 len
    by (simp add: b'_def add.assoc)
  have fit: "c + length ([t] @ tags @ replicate ?k 0) \<le> length ?b1" using len3 len l1 by linarith
  show "length b' = length buf" unfolding b using fit l1 by (simp only: length_blit)
  have "mem_at b' c ([t] @ tags @ replicate ?k 0)"
    unfolding b by (rule mem_at_blit_same [OF fit])
  moreover have "mem_at b' (c + ?r) args"
    unfolding b using len len3 by (intro mem_at_blit_disjoint [OF fit] mem_at_blit_same) auto
  ultimately show "mem_at b' c (enc_pad (t # tags @ [0]) @ args)"
    unfolding mem_at_append pad len3 by simp
  show "mem_at b' p xs" if "p + length xs \<le> c" "mem_at buf p xs"
    unfolding b using that len len3 by (intro mem_at_blit_disjoint [OF fit] mem_at_blit_disjoint) auto
qed

text \<open>The buffer and the cursor just before \<^verbatim>\<open>EndElement\<close> closes the message.\<close>

lemma end_message_contents:
  assumes rep: "represents st a" and vs: "cur_args a = Some vs" and fs: "open_elems a = f # fs"
  obtains buf' where "end_message st =
      ebind (EndElement (messageCursor st + length (enc_args vs))
        (st\<lparr>obuf := buf',
            typeTagsCurrent := (if vs = [] then typeTagsCurrent st else end_ptr st),
            messageCursor := messageCursor st + length (enc_args vs),
            argumentCurrent := messageCursor st + length (enc_args vs)\<rparr>))
        (\<lambda>st. Inr (st\<lparr>messageIsInProgress := False\<rparr>))"
    and "length buf' = length (obuf st)"
    and "mem_at buf' 0 (layout (closed a) ((f @ enc_args vs) # fs))"
proof -
  let ?c = "messageCursor st" and ?n = "length vs" and ?args = "concat (map arg_bytes vs)"
  let ?tags = "map arg_tag vs" and ?comma = "byte_of (CHR '','')"
  let ?r = "roundup4 (?n + 2)"
  have st: "messageIsInProgress st" "argumentCurrent st = ?c + length ?args" "ntags st = ?n"
    "mem_at (obuf st) ?c ?args" "mem_at (obuf st) (typeTagsCurrent st) (rev ?tags)"
    "?c + length ?args + ?r \<le> length (obuf st)" "length (obuf st) < 2 ^ 31"
    "?c = length (layout (closed a) (f # fs))" "mem_at (obuf st) 0 (layout (closed a) (f # fs))"
    using rep vs fs by (auto simp: represents_def)
  have cnt: "end_ptr st - typeTagsCurrent st = ?n" using st(3) by (simp add: ntags_def end_ptr_def)
  have n: "?n < 2 ^ 31" using roundup4_ge [of "?n + 2"] st(6,7) by linarith
  have len: "length (enc_args vs) = ?r + length ?args" by (rule length_enc_args)
  show ?thesis
  proof (cases "vs = []")
    case True
    let ?b = "blit ?c [?comma, 0, 0, 0] (obuf st)"
    have fits: "?c + 4 \<le> length (obuf st)" using st(6) True by simp
    have enc: "enc_args vs = [?comma, 0, 0, 0]" using True
      by (simp add: enc_args_def enc_str_def enc_pad_def numeral_2_eq_2)
    have "end_message st =
      ebind (EndElement (?c + 4) (st\<lparr>obuf := ?b, messageCursor := ?c + 4, argumentCurrent := ?c + 4\<rparr>))
        (\<lambda>st. Inr (st\<lparr>messageIsInProgress := False\<rparr>))"
      using st(1) cnt True fits
      by (simp add: end_message_def IsMessageInProgress_def store_bytes_def Let_def)
    moreover have "mem_at ?b 0 (layout (closed a) ((f @ enc_args vs) # fs))"
      using st(8,9) fits unfolding layout_append mem_at_append enc
      by (auto intro!: mem_at_blit_disjoint mem_at_blit_same)
    moreover have "length (enc_args []) = 4" using len True by simp
    ultimately show ?thesis using that [of ?b] True fits by simp
  next
    case False
    let ?b1 = "blit (?c + ?r) ?args (obuf st)"
    let ?b = "blit (?c + 1 + length ?tags) (replicate (roundup4 (length ?tags + 2) - (length ?tags + 1)) 0)
        (blit (?c + 1) ?tags (blit ?c [?comma] (blit (?c + roundup4 (length ?tags + 2)) ?args (obuf st))))"
    have fits: "?c + roundup4 (length ?tags + 2) + length ?args \<le> length (obuf st)" using st(6) by simp
    have r: "?n + 2 \<le> ?r" by (rule roundup4_ge)
    have slot: "unat (RoundUp4_long (of_nat ?n + 2)) = ?r"
      using n roundup4_less [of "?n + 2"] by (simp add: RoundUp4_plus2 unat_of_nat_small)
    have asz: "unat (word_of_int (int (argumentCurrent st) - int ?c) :: uint32) = length ?args"
      using st(2,6,7) by (simp add: unat_of_nat_small)
    have ltags: "load_bytes (obuf st) (typeTagsCurrent st) ?n = Inr (rev ?tags)"
      using load_bytes_at [OF st(5)] by simp
    have largs: "load_bytes (obuf st) ?c (length ?args) = Inr ?args" by (rule load_bytes_at [OF st(4)])
    have revtags: "map (\<lambda>i. rev ?tags ! (?n - 1 - i)) [0..<?n] = ?tags"
      using map_nth_rev [of "rev ?tags"] by simp
    have lens: "length ?b1 = length (obuf st)" "length (blit ?c [?comma] ?b1) = length (obuf st)"
      "length (blit (?c + 1) ?tags (blit ?c [?comma] ?b1)) = length (obuf st)"
      using fits r by simp_all
    have "end_message st =
      ebind (EndElement (?c + (?r + length ?args))
        (st\<lparr>obuf := ?b, typeTagsCurrent := end_ptr st, messageCursor := ?c + (?r + length ?args),
            argumentCurrent := ?c + (?r + length ?args)\<rparr>))
        (\<lambda>st. Inr (st\<lparr>messageIsInProgress := False\<rparr>))"
      using st(1) False fits r lens
      by (simp add: end_message_def IsMessageInProgress_def Let_def cnt slot [simplified]
          asz [simplified] ltags largs revtags [simplified] store_bytes_def)
    moreover have "mem_at ?b ?c (enc_args vs)" "length ?b = length (obuf st)"
      "mem_at ?b 0 (layout (closed a) (f # fs))"
      using tags_and_arguments [OF fits, where t = ?comma] st(8,9)
      by (auto simp: enc_args_def enc_str_def)
    ultimately show ?thesis using that [of ?b] False len st(8)
      by (simp add: layout_append mem_at_append)
  qed
qed

lemma end_message_result:
  assumes rep: "represents st a" and cap: "length (obuf st) = cap"
    and cur: "cur_args a = Some vs"
  shows "\<exists>st'. end_message st = Inr st' \<and> sim_rel cap st' (spec_end_message a)"
proof -
  obtain f fs where fs: "open_elems a = f # fs"
    using rep cur by (cases "open_elems a") (auto simp: represents_def)
  let ?fs = "(f @ enc_args vs) # fs" and ?p = "messageCursor st + length (enc_args vs)"
  obtain buf' where e: "end_message st =
      ebind (EndElement ?p
        (st\<lparr>obuf := buf',
            typeTagsCurrent := (if vs = [] then typeTagsCurrent st else end_ptr st),
            messageCursor := ?p, argumentCurrent := ?p\<rparr>))
        (\<lambda>st. Inr (st\<lparr>messageIsInProgress := False\<rparr>))"
    and len: "length buf' = length (obuf st)" and mem: "mem_at buf' 0 (layout (closed a) ?fs)"
    by (rule end_message_contents [OF rep cur fs])
  let ?st = "st\<lparr>obuf := buf', typeTagsCurrent := (if vs = [] then typeTagsCurrent st else end_ptr st),
      messageCursor := ?p, argumentCurrent := ?p\<rparr>"
  let ?a = "spec_end_message a"
  have a': "?a = spec_close \<lparr>closed = closed a, open_elems = ?fs, cur_args = None\<rparr>"
    by (simp add: spec_end_message_def fs cur spec_close_def split: list.splits)
  have ptr: "?p = length (layout (closed a) ?fs)"
    using rep fs by (simp add: represents_def layout_append)
  have ok: "?fs \<noteq> []" "\<forall>f\<in>set ?fs. f \<noteq> []" "mem_at (obuf ?st) 0 (layout (closed a) ?fs)"
    "length (obuf ?st) < 2 ^ 31" "elementSizePtr ?st = Some (slot_of (closed a) ?fs)"
    using rep fs mem len by (auto simp: represents_def slot_of_top [of _ "f @ enc_args vs" _ f])
  obtain buf2 where b: "EndElement ?p ?st = Inr (?st\<lparr>obuf := buf2, elementSizePtr :=
        (if open_elems ?a = [] then None else Some (slot_of (closed ?a) (open_elems ?a)))\<rparr>)"
    "length buf2 = length (obuf ?st)" "mem_at buf2 0 (layout (closed ?a) (open_elems ?a))"
    "length (layout (closed ?a) (open_elems ?a)) = ?p" "\<forall>f\<in>set (open_elems ?a). f \<noteq> []"
    "cur_args ?a = None"
    by (rule EndElement_closes [OF ok ptr a'])
  have "?p \<le> length (obuf st)" using mem_at_bound [OF mem] len ptr by simp
  then show ?thesis
    using rep b cap len by (auto simp: e sim_rel_def represents_def end_ptr_def)
qed

section \<open>The stream is a packet machine\<close>

lemma sim_Clear: "sim_rel cap st a \<Longrightarrow> sim_rel cap (Clear st) empty_spec"
  by (auto simp: sim_rel_def represents_def Clear_def empty_spec_def end_ptr_def)

lemma represents_status:
  assumes "represents st a"
  shows "IsMessageInProgress st \<longleftrightarrow> cur_args a \<noteq> None" and "IsBundleInProgress st \<longleftrightarrow> open_elems a \<noteq> []"
  using assms by (auto simp: represents_def IsMessageInProgress_def IsBundleInProgress_def)

lemma sim_status:
  assumes "sim_rel cap st a"
  shows "IsMessageInProgress st \<longleftrightarrow> cur_args a \<noteq> None" and "IsBundleInProgress st \<longleftrightarrow> open_elems a \<noteq> []"
  using assms represents_status by (auto simp: sim_rel_def)

lemma sim_step:
  assumes sim: "sim_rel cap st a" and legal: "legal x a"
  shows "case spec_step cap x a of
      Inl e \<Rightarrow> apply_op x st = Inl e
    | Inr a' \<Rightarrow> \<exists>st'. apply_op x st = Inr st' \<and> sim_rel cap st' a'"
proof (cases x)
  case (BeginBundleOp t)
  with sim_begin_bundle [OF sim, of t] sim_status [OF sim] show ?thesis
    by (auto simp: begin_bundle_def)
next
  case EndBundleOp
  with sim_end_bundle [OF sim] sim_status [OF sim] show ?thesis by (auto simp: end_bundle_def)
next
  case (BeginMessageOp s)
  with sim_begin_message [OF sim, of s] sim_status [OF sim] legal show ?thesis
    by (auto simp: begin_message_def)
next
  case EndMessageOp
  with end_message_result [of st a cap] sim sim_status [OF sim] show ?thesis
    by (auto simp: end_message_def sim_rel_def)
next
  case (PutOp v)
  with sim_put [OF sim, of v] legal show ?thesis by (auto split: if_splits)
next
  case ClearOp
  with sim_Clear [OF sim] show ?thesis by simp
qed

interpretation osc_stream: packet_machine cap apply_op "sim_rel cap" for cap
proof
  fix st a x a'
  assume "sim_rel cap st a" "legal x a" "spec_step cap x a = Inr a'"
  with sim_step [of cap st a x] show "\<exists>s'. apply_op x st = Inr s' \<and> sim_rel cap s' a'" by simp
next
  fix st a x e
  assume "sim_rel cap st a" "legal x a" "spec_step cap x a = Inl e"
  with sim_step [of cap st a x] show "apply_op x st = Inl e" by simp
qed

lemma sim_rel_new:
  "length buffer = cap \<Longrightarrow> cap < 2 ^ 31 \<Longrightarrow> sim_rel cap (OutboundPacketStream buffer) empty_spec"
  using represents_new [of buffer]
  by (simp add: sim_rel_def OutboundPacketStream_def empty_spec_def)

lemma sim_Size: "sim_rel cap st a \<Longrightarrow> unat (Size st) = spec_size a"
  using unat_Size [of st] represents_bounds [of st a] space_size [of cap st a]
  by (simp add: sim_rel_def)

lemma sim_packet:
  assumes "sim_rel cap st a" and "open_elems a = []"
  shows "packet st = closed a"
proof -
  have "cur_args a = None" using assms by (cases "cur_args a") (auto simp: sim_rel_def represents_def)
  with assms sim_Size [OF assms(1)] show ?thesis
    by (auto simp: packet_def Data_def spec_size_def sim_rel_def represents_def mem_at_take)
qed

lemma exec_packet:
  assumes "length buffer < 2 ^ 31" and "legal_run (length buffer) ops empty_spec"
    and "exec_ops (spec_step (length buffer)) ops empty_spec = Inr a" and "open_elems a = []"
  shows "\<exists>st. exec_ops apply_op ops (OutboundPacketStream buffer) = Inr st \<and>
    packet st = closed a \<and> unat (Size st) = length (closed a) \<and> IsReady st"
proof -
  from osc_stream.exec_ok [OF sim_rel_new [OF refl assms(1)] assms(2,3)] obtain st
    where st: "exec_ops apply_op ops (OutboundPacketStream buffer) = Inr st"
      "sim_rel (length buffer) st a" by blast
  have "cur_args a = None"
    using st(2) assms(4) by (cases "cur_args a") (auto simp: sim_rel_def represents_def)
  then show ?thesis
    using st sim_packet [OF st(2) assms(4)] sim_Size [OF st(2)] sim_status [OF st(2)] assms(4)
    by (auto simp: spec_size_def IsReady_def)
qed

section \<open>Memory safety of every sequence of calls\<close>

fun wf_op :: "stream_op \<Rightarrow> bool" where
  "wf_op (PutOp v) = sendable v"
| "wf_op (BeginMessageOp s) = (length s < 2 ^ 62)"
| "wf_op x = True"

definition osc_exception :: "osc_error \<Rightarrow> bool" where
  "osc_exception e \<longleftrightarrow> e \<noteq> Fault \<and> e \<noteq> AssertFailed"

lemma safe_step:
  assumes rep: "represents st a" and wf: "wf_op x"
  shows "case apply_op x st of
      Inl e \<Rightarrow> osc_exception e
    | Inr st' \<Rightarrow> (\<exists>a'. represents st' a') \<and> length (obuf st') = length (obuf st)"
proof -
  note status = represents_status [OF rep]
  show ?thesis
proof (cases x)
  case (BeginBundleOp t)
  show ?thesis
  proof (cases "cur_args a")
    case None
    with begin_bundle_result [OF rep None refl, of t] BeginBundleOp show ?thesis
      by (auto simp: sim_rel_def osc_exception_def split: if_splits)
  qed (use BeginBundleOp status in \<open>simp add: begin_bundle_def osc_exception_def\<close>)
next
  case EndBundleOp
  show ?thesis
  proof (cases "cur_args a = None \<and> open_elems a \<noteq> []")
    case True
    with end_bundle_result [OF rep] EndBundleOp show ?thesis by auto
  qed (use EndBundleOp status in \<open>auto simp: end_bundle_def osc_exception_def\<close>)
next
  case (BeginMessageOp s)
  show ?thesis
  proof (cases "cur_args a")
    case None
    with begin_message_result [OF rep None refl, of s] BeginMessageOp wf show ?thesis
      by (auto simp: sim_rel_def osc_exception_def split: if_splits)
  qed (use BeginMessageOp status in \<open>simp add: begin_message_def osc_exception_def\<close>)
next
  case EndMessageOp
  show ?thesis
  proof (cases "cur_args a")
    case (Some vs)
    with end_message_result [OF rep refl Some] EndMessageOp show ?thesis by (auto simp: sim_rel_def)
  qed (use EndMessageOp status in \<open>simp add: end_message_def osc_exception_def\<close>)
next
  case (PutOp v)
  with put_value_keeps [OF rep, of v] put_value_result [OF rep, of v] wf show ?thesis
    by (auto simp: osc_exception_def)
next
  case ClearOp
  moreover have "represents (Clear st) empty_spec"
    using rep by (auto simp: represents_def Clear_def empty_spec_def end_ptr_def)
  ultimately show ?thesis by (auto simp: Clear_def)
qed
qed

lemma safe_run:
  "represents st a \<Longrightarrow> list_all wf_op xs \<Longrightarrow>
   \<exists>st' a'. run_ops xs st = Inr st' \<and> represents st' a' \<and> length (obuf st') = length (obuf st)"
proof (induction xs arbitrary: st a)
  case (Cons x xs)
  then have wf: "wf_op x" "list_all wf_op xs" by auto
  show ?case
  proof (cases "apply_op x st")
    case (Inl e)
    with safe_step [OF Cons.prems(1) wf(1)] Cons.IH [OF Cons.prems(1) wf(2)] show ?thesis
      by (auto simp: osc_exception_def)
  next
    case (Inr st1)
    with safe_step [OF Cons.prems(1) wf(1)] obtain a1
      where "represents st1 a1" "length (obuf st1) = length (obuf st)" by auto
    with Cons.IH [OF this(1) wf(2)] Inr show ?thesis by auto
  qed
qed auto

end
