(* ===== verification/OscRoundTrip.thy ===== *)
theory OscRoundTrip
  imports OscReceivedSpec OscOutboundRefine
begin

text \<open>
  Parsing inverts writing: a message in the wire format of \<open>OscOutboundSpec\<close> is accepted and read
  back value by value, a bundle is accepted with its time tag and its elements.
\<close>

section \<open>Strings\<close>

text \<open>Values that survive the format: no NUL inside a string, a blob size of 32 bits.\<close>

fun wire_value :: "osc_value \<Rightarrow> bool" where
  "wire_value (OString s) = (0 \<notin> set s)"
| "wire_value (OSymbol s) = (0 \<notin> set s)"
| "wire_value (OBlob d) = (length d < 2 ^ 32)"
| "wire_value v = True"

lemma nth_enc_str:
  assumes "i < length (enc_str s)"
  shows "enc_str s ! i = (if i < length s then s ! i else 0)"
  using assms by (auto simp: enc_str_def enc_pad_def nth_append nth_Cons')

lemma mod4_3_before:
  "i mod 4 = 3 \<Longrightarrow> i < roundup4 n \<Longrightarrow> i + 1 \<noteq> roundup4 n \<Longrightarrow> i + 4 < roundup4 n \<and> i < n"
  unfolding roundup4_def by presburger

lemma mod4_3_last: "i mod 4 = 3 \<Longrightarrow> i + 1 = roundup4 n \<Longrightarrow> 0 < n \<Longrightarrow> n \<le> i + 1"
  unfolding roundup4_def by presburger

lemma mod4_3_roundup: "n mod 4 = 3 \<Longrightarrow> n + 1 = roundup4 (n + 1)"
  unfolding roundup4_def by presburger

lemma read_cstr_at:
  assumes "mem_at mem p (enc_str s)" and "0 \<notin> set s"
  shows "read_cstr mem p = Inr s"
proof -
  have len: "p + length (enc_str s) \<le> length mem" and pre: "take (length (enc_str s)) (drop p mem) = enc_str s"
    using assms(1) by (auto simp: mem_at_def)
  then obtain ys where ys: "drop p mem = enc_str s @ ys" by (metis append_take_drop_id)
  have "drop p mem = s @ 0 # (replicate (roundup4 (length s + 1) - (length s + 1)) 0 @ ys)"
    using ys by (simp add: enc_str_def enc_pad_def)
  then show ?thesis using assms(2)
    by (simp add: read_cstr_def c_str_def takeWhile_append2 takeWhile_tail)
       (metis takeWhile_tail)
qed

lemma find4_before_at:
  assumes mem: "mem_at mem p (enc_str s)" and s: "0 \<notin> set s" and e: "p + length (enc_str s) \<le> e1 + 1"
    and i: "i < length (enc_str s)" "i mod 4 = 3"
  shows "find4_before mem (p + i) e1 = Inr (Some (p + length (enc_str s)))"
  using i
proof (induction "length (enc_str s) - i" arbitrary: i rule: less_induct)
  case less
  have b: "load_byte mem (p + i) = Inr (enc_str s ! i)" using mem less.prems(1) by (rule load_byte_at)
  show ?case
  proof (cases "i + 1 = length (enc_str s)")
    case True
    then have "length s + 1 \<le> i + 1" using less.prems(2) by (intro mod4_3_last) auto
    then have "enc_str s ! i = 0" using less.prems(1) by (simp add: nth_enc_str)
    with b True show ?thesis by (subst find4_before.simps) simp
  next
    case False
    then have *: "i + 4 < length (enc_str s)" "i < length s + 1"
      using mod4_3_before [of i "length s + 1"] less.prems by auto
    have "i \<noteq> length s"
    proof
      assume "i = length s"
      with less.prems(2) mod4_3_roundup [of i] False show False by simp
    qed
    with * s have "enc_str s ! i \<noteq> 0" using less.prems(1) by (auto simp: nth_enc_str in_set_conv_nth)
    moreover have "find4_before mem (p + (i + 4)) e1 = Inr (Some (p + length (enc_str s)))"
      using * less.prems by (intro less.hyps) auto
    ultimately show ?thesis using b * e by (subst find4_before.simps) (simp add: add.assoc)
  qed
qed

lemma FindStr4End_before_at:
  assumes mem: "mem_at mem p (enc_str s)" and s: "0 \<notin> set s" and e: "p + length (enc_str s) \<le> e"
  shows "FindStr4End_before mem p e = Inr (Some (p + length (enc_str s)))"
proof -
  have four: "4 \<le> length (enc_str s)" by (simp add: roundup4_pos)
  have b: "load_byte mem p = Inr (enc_str s ! 0)"
    using load_byte_at [OF mem, of 0] four by simp
  show ?thesis
  proof (cases "s = []")
    case True
    with b e show ?thesis by (simp add: FindStr4End_before_def nth_enc_str)
  next
    case False
    then have "s ! 0 \<in> set s" by simp
    with s have "s ! 0 \<noteq> 0" by metis
    then have "enc_str s ! 0 \<noteq> 0" using False four by (simp add: nth_enc_str)
    moreover have "find4_before mem (p + 3) (e - 1) = Inr (Some (p + length (enc_str s)))"
      using four e by (intro find4_before_at [OF mem s]) auto
    ultimately show ?thesis using b e four by (simp add: FindStr4End_before_def)
  qed
qed

section \<open>One argument\<close>

lemma arg_tag_class:
  "arg_tag v \<noteq> 0" "arg_tag v \<noteq> byte_of (CHR '','')"
  by (cases v; simp add: byte_of_values)+

lemma blob_size:
  "length d < 2 ^ 32 \<Longrightarrow> unat (RoundUp4_ulong (ucast (of_nat (length d) :: uint32))) = roundup4 (length d)"
  using unat_RoundUp4_ulong [of "ucast (of_nat (length d) :: uint32)"]
  by (simp add: unat_ucast_mod unat_of_nat_small)

lemma check_arg_at:
  assumes mem: "mem_at mem arg (arg_bytes v)" and v: "wire_value v"
    and e: "arg + length (arg_bytes v) \<le> e"
  shows "check_arg mem e (arg_tag v) arg = Inr (arg + length (arg_bytes v))"
proof (cases v)
  case (OString s)
  with FindStr4End_before_at [of mem arg s e] assms roundup4_pos [of "Suc (length s)"] show ?thesis
    by (simp add: check_arg_def)
next
  case (OSymbol s)
  with FindStr4End_before_at [of mem arg s e] assms roundup4_pos [of "Suc (length s)"] show ?thesis
    by (simp add: check_arg_def)
next
  case (OBlob d)
  then have "ToUInt32 mem arg = Inr (of_nat (length d))"
    using mem by (intro uint32_codec.dec_at) (simp add: mem_at_append)
  with OBlob v show ?thesis by (simp add: check_arg_def blob_size)
qed (use e in \<open>simp_all add: check_arg_def\<close>)

lemma char_roundtrip: "ucast (scast c :: 32 word) = (c :: byte)"
  by (rule bit_word_eqI) (auto simp: bit_simps)

lemma read_value_at:
  assumes mem: "mem_at mem arg (arg_bytes v)" and v: "wire_value v" and tag: "load_byte mem tag = Inr (arg_tag v)"
  shows "read_value mem \<lparr>typeTag = Some tag, argument = Some arg\<rparr> = Inr v"
proof -
  note readers = accessor_defs union_readers [simplified]
  have i32: "ToInt32 mem arg = Inr x" if "arg_bytes v = FromInt32 x" for x
    using mem that by (intro int32_codec.dec_at) simp
  have u32: "ToUInt32 mem arg = Inr x" if "arg_bytes v = FromUInt32 x" for x
    using mem that by (intro uint32_codec.dec_at) simp
  have i64: "ToInt64 mem arg = Inr x" if "arg_bytes v = FromInt64 x" for x
    using mem that by (intro int64_codec.dec_at) simp
  have u64: "ToUInt64 mem arg = Inr x" if "arg_bytes v = FromUInt64 x" for x
    using mem that by (intro uint64_codec.dec_at) simp
  have same: "FromInt32 x = FromUInt32 x" for x by (simp add: FromInt32_def FromUInt32_def)
  show ?thesis
  proof (cases v)
    case (OString s)
    with read_cstr_at [of mem arg s] mem v tag show ?thesis by (simp add: readers)
  next
    case (OSymbol s)
    with read_cstr_at [of mem arg s] mem v tag show ?thesis by (simp add: readers)
  next
    case (OBlob d)
    then have at: "mem_at mem arg (FromUInt32 (of_nat (length d)))" "mem_at mem (arg + 4) d"
      using mem by (simp_all add: mem_at_append enc_pad_def)
    have "unat (ucast (of_nat (length d) :: uint32) :: ulong) = length d"
      using OBlob v by (simp add: unat_ucast_mod unat_of_nat_small)
    with OBlob tag uint32_codec.dec_at [OF at(1)] load_bytes_at [OF at(2)] show ?thesis
      by (simp add: readers read_blob_def)
  qed (use tag i32 u32 i64 u64 same in \<open>simp_all add: readers char_roundtrip split: if_splits\<close>)
qed

section \<open>All arguments\<close>

lemma check_args_at:
  "mem_at mem tag (map arg_tag vs @ [0]) \<Longrightarrow> mem_at mem arg (concat (map arg_bytes vs)) \<Longrightarrow>
   vs \<noteq> [] \<Longrightarrow> list_all wire_value vs \<Longrightarrow> arg + length (concat (map arg_bytes vs)) \<le> e \<Longrightarrow>
   check_args mem e tag arg = Inr (tag + length vs)"
proof (induction vs arbitrary: tag arg)
  case (Cons v vs)
  have t: "load_byte mem tag = Inr (arg_tag v)"
    using load_byte_at [OF Cons.prems(1), of 0] by simp
  have t': "load_byte mem (tag + 1) = Inr ((map arg_tag vs @ [0]) ! 0)"
    using load_byte_at [OF Cons.prems(1), of 1] by simp
  have c: "check_arg mem e (arg_tag v) arg = Inr (arg + length (arg_bytes v))"
    using Cons.prems by (intro check_arg_at) (auto simp: mem_at_append)
  show ?case
  proof (cases "vs = []")
    case True
    with t t' c show ?thesis by (subst check_args.simps) simp
  next
    case False
    then have "check_args mem e (tag + 1) (arg + length (arg_bytes v)) = Inr (tag + 1 + length vs)"
      using Cons.prems by (intro Cons.IH) (auto simp: mem_at_append mem_at_Cons)
    with t t' c False arg_tag_class show ?thesis
      by (subst check_args.simps) (simp add: nth_append)
  qed
qed simp

lemma read_values_at:
  "mem_at mem tag (map arg_tag vs @ [0]) \<Longrightarrow> mem_at mem arg (concat (map arg_bytes vs)) \<Longrightarrow>
   list_all wire_value vs \<Longrightarrow>
   read_values mem (length vs) \<lparr>typeTag = Some tag, argument = Some arg\<rparr> = Inr vs"
proof (induction vs arbitrary: tag arg)
  case (Cons v vs)
  have t: "load_byte mem tag = Inr (arg_tag v)"
    using load_byte_at [OF Cons.prems(1), of 0] by simp
  have at: "mem_at mem arg (arg_bytes v)" using Cons.prems by (simp add: mem_at_append)
  have "check_arg mem (arg + length (arg_bytes v)) (arg_tag v) arg = Inr (arg + length (arg_bytes v))"
    using Cons.prems at by (intro check_arg_at) auto
  with t have "Advance mem \<lparr>typeTag = Some tag, argument = Some arg\<rparr> =
      Inr \<lparr>typeTag = Some (tag + 1), argument = Some (arg + length (arg_bytes v))\<rparr>"
    by (intro check_arg_Advance)
  moreover have "read_values mem (length vs)
      \<lparr>typeTag = Some (tag + 1), argument = Some (arg + length (arg_bytes v))\<rparr> = Inr vs"
    using Cons.prems by (intro Cons.IH) (auto simp: mem_at_append mem_at_Cons)
  ultimately show ?case using read_value_at [OF at _ t] Cons.prems by simp
qed simp

section \<open>A message\<close>

lemma length_concat_arg_bytes: "4 dvd length (concat (map arg_bytes vs))"
  by (induction vs) (auto intro!: dvd_add mod_0_imp_dvd [OF length_arg_bytes_mod4])

lemma length_enc_message:
  "length (enc_message addr vs) = length (enc_str addr) + length (enc_args vs)"
  by (simp add: enc_message_def)

lemma length_enc_args_ge: "4 \<le> length (enc_args vs)"
  using roundup4_pos [of "length vs + 2"] by (simp add: length_enc_args)

lemma length_enc_message_dvd: "4 dvd length (enc_message addr vs)"
  using length_concat_arg_bytes [of vs]
  by (simp add: length_enc_message length_enc_args dvd_eq_mod_eq_0 mod_add_eq [symmetric])

definition parsed_message :: "nat \<Rightarrow> bytes \<Rightarrow> osc_value list \<Rightarrow> received_message" where
  "parsed_message p addr vs =
     (let tags = p + length (enc_str addr) in
      \<lparr>addressPattern = p,
       typeTagsBegin = (if vs = [] then None else Some (tags + 1)),
       typeTagsEnd = (if vs = [] then None else Some (tags + 1 + length vs)),
       arguments = (if vs = [] then None
                    else Some (tags + length (enc_str (byte_of (CHR '','') # map arg_tag vs))))\<rparr>)"

lemma Message_Init_at:
  assumes mem: "mem_at mem p (enc_message addr vs)" and addr: "0 \<notin> set addr"
    and vs: "list_all wire_value vs"
    and sz: "unat sz = length (enc_message addr vs)"
  shows "Message_Init mem p sz = Inr (parsed_message p addr vs)"
proof -
  let ?tags = "p + length (enc_str addr)" and ?e = "p + length (enc_message addr vs)"
  let ?str = "byte_of (CHR '','') # map arg_tag vs"
  have at: "mem_at mem p (enc_str addr)" "mem_at mem ?tags (enc_str ?str)"
    "mem_at mem (?tags + length (enc_str ?str)) (concat (map arg_bytes vs))"
    using mem by (auto simp: enc_message_def enc_args_def mem_at_append add.assoc)
  have ge: "4 \<le> length (enc_args vs)" by (rule length_enc_args_ge)
  have "sz \<noteq> 0" "sz AND 3 = 0"
    using sz ge length_enc_message_dvd [of addr vs]
    by (auto simp: and_3_dvd length_enc_message)
  moreover have "?tags < ?e" using ge by (auto simp: length_enc_message)
  moreover have f1: "FindStr4End_before mem p ?e = Inr (Some ?tags)"
    by (rule FindStr4End_before_at [OF at(1) addr]) (simp add: length_enc_message)
  moreover have comma: "load_byte mem ?tags = Inr (byte_of (CHR '',''))"
    using load_byte_at [OF at(2), of 0] by (simp add: nth_enc_str roundup4_pos [THEN less_le_trans [rotated]])
  moreover have snd: "load_byte mem (?tags + 1) = Inr (if vs = [] then 0 else arg_tag (hd vs))"
    using load_byte_at [OF at(2), of 1] roundup4_pos [of "length ?str + 1"]
    by (cases vs) (auto simp: nth_enc_str)
  moreover have f2: "FindStr4End_before mem ?tags ?e = Inr (Some (?tags + length (enc_str ?str)))"
    using arg_tag_class
    by (intro FindStr4End_before_at [OF at(2)])
      (auto simp: length_enc_message enc_args_def byte_of_values)
  moreover have "check_args mem ?e (?tags + 1) (?tags + length (enc_str ?str)) = Inr (?tags + 1 + length vs)"
    if "vs \<noteq> []"
  proof (rule check_args_at [OF _ at(3) that vs])
    have "enc_str ?str = [byte_of (CHR '','')] @ (map arg_tag vs @ [0]) @
        replicate (roundup4 (length ?str + 1) - (length ?str + 1)) 0"
      by (simp add: enc_str_split)
    then show "mem_at mem (?tags + 1) (map arg_tag vs @ [0])"
      using at(2) by (simp only: mem_at_append) simp
  qed (simp add: length_enc_message enc_args_def)
  ultimately show ?thesis
    using arg_tag_class by (simp add: Message_Init_def parsed_message_def sz Let_def)
qed

lemma tags_of_parsed:
  assumes "mem_at mem p (enc_message addr vs)"
  shows "mem_at mem (p + length (enc_str addr) + 1) (map arg_tag vs @ [0])"
    and "mem_at mem (p + length (enc_str addr) + length (enc_str (byte_of (CHR '','') # map arg_tag vs)))
      (concat (map arg_bytes vs))"
proof -
  let ?tags = "p + length (enc_str addr)" and ?str = "byte_of (CHR '','') # map arg_tag vs"
  have at: "mem_at mem ?tags (enc_str ?str)"
    "mem_at mem (?tags + length (enc_str ?str)) (concat (map arg_bytes vs))"
    using assms by (auto simp: enc_message_def enc_args_def mem_at_append add.assoc)
  show "mem_at mem (?tags + length (enc_str ?str)) (concat (map arg_bytes vs))" by (rule at(2))
  have "enc_str ?str = [byte_of (CHR '','')] @ (map arg_tag vs @ [0]) @
      replicate (roundup4 (length ?str + 1) - (length ?str + 1)) 0"
    by (simp add: enc_str_split)
  then show "mem_at mem (?tags + 1) (map arg_tag vs @ [0])"
    using at(1) by (simp only: mem_at_append) simp
qed

lemma parsed_message_reads:
  assumes mem: "mem_at mem p (enc_message addr vs)" and addr: "0 \<notin> set addr"
    and vs: "list_all wire_value vs"
  shows "read_cstr mem (addressPattern (parsed_message p addr vs)) = Inr addr"
    and "ArgumentCount (parsed_message p addr vs) = length vs"
    and "read_values mem (length vs) (ArgumentsBegin (parsed_message p addr vs)) = Inr vs"
proof -
  let ?tags = "p + length (enc_str addr)" and ?str = "byte_of (CHR '','') # map arg_tag vs"
  have at: "mem_at mem p (enc_str addr)" "mem_at mem ?tags (enc_str ?str)"
    "mem_at mem (?tags + length (enc_str ?str)) (concat (map arg_bytes vs))"
    using mem by (auto simp: enc_message_def enc_args_def mem_at_append add.assoc)
  show "read_cstr mem (addressPattern (parsed_message p addr vs)) = Inr addr"
    using read_cstr_at [OF at(1) addr] by (simp add: parsed_message_def Let_def)
  show "ArgumentCount (parsed_message p addr vs) = length vs"
    by (simp add: parsed_message_def ArgumentCount_def Let_def)
  have "enc_str ?str = [byte_of (CHR '','')] @ (map arg_tag vs @ [0]) @
      replicate (roundup4 (length ?str + 1) - (length ?str + 1)) 0"
    by (simp add: enc_str_split)
  then have "mem_at mem (?tags + 1) (map arg_tag vs @ [0])"
    using at(2) by (simp only: mem_at_append) simp
  from read_values_at [OF this at(3) vs]
  show "read_values mem (length vs) (ArgumentsBegin (parsed_message p addr vs)) = Inr vs"
    by (cases vs) (auto simp: parsed_message_def ArgumentsBegin_def Let_def)
qed

end
