(* ===== verification/OscArgumentStream.thy ===== *)
theory OscArgumentStream
  imports OscRoundTrip
begin

text \<open>
  \<^verbatim>\<open>class ReceivedMessageArgumentStream\<close> of \<^verbatim>\<open>product/source/osc/OscReceivedElements.h\<close>: the
  arguments of a received message as a stream, one extraction operator per type.  An operator that
  finds an argument of another type throws after the stream has moved past it, so every operator
  gives its result together with the stream it leaves behind.
\<close>

section \<open>The stream\<close>

record argument_stream =
  stream_pos :: received_argument
  stream_end :: received_argument

definition ArgumentStream :: "received_message \<Rightarrow> argument_stream" where
  "ArgumentStream m = \<lparr>stream_pos = ArgumentsBegin m, stream_end = ArgumentsEnd m\<rparr>"

definition Eos :: "argument_stream \<Rightarrow> bool" where
  "Eos s = same_position (stream_pos s) (stream_end s)"

text \<open>
  The common body of the operators: \<^verbatim>\<open>p_++->AsX()\<close>, for the accessor of the type.
\<close>

definition extract_arg ::
    "(bytes \<Rightarrow> received_argument \<Rightarrow> osc_error + 'a) \<Rightarrow> bytes \<Rightarrow> argument_stream \<Rightarrow>
     (osc_error + 'a) \<times> argument_stream" where
  "extract_arg accessor mem s =
     (if Eos s then (Inl MissingArgumentException, s)
      else case Argument_postincrement mem (stream_pos s) of
        Inl err \<Rightarrow> (Inl err, s)
      | Inr (old, p) \<Rightarrow> (accessor mem old, s\<lparr>stream_pos := p\<rparr>))"

definition get_bool :: "bytes \<Rightarrow> argument_stream \<Rightarrow> (osc_error + bool) \<times> argument_stream" where
  "get_bool = extract_arg AsBool"

definition get_int32 :: "bytes \<Rightarrow> argument_stream \<Rightarrow> (osc_error + int32) \<times> argument_stream" where
  "get_int32 = extract_arg AsInt32"

definition get_float :: "bytes \<Rightarrow> argument_stream \<Rightarrow> (osc_error + (32 word)) \<times> argument_stream" where
  "get_float = extract_arg AsFloat"

definition get_char :: "bytes \<Rightarrow> argument_stream \<Rightarrow> (osc_error + byte) \<times> argument_stream" where
  "get_char = extract_arg AsChar"

definition get_rgba_color :: "bytes \<Rightarrow> argument_stream \<Rightarrow> (osc_error + uint32) \<times> argument_stream" where
  "get_rgba_color = extract_arg AsRgbaColor"

definition get_midi_message :: "bytes \<Rightarrow> argument_stream \<Rightarrow> (osc_error + uint32) \<times> argument_stream" where
  "get_midi_message = extract_arg AsMidiMessage"

definition get_int64 :: "bytes \<Rightarrow> argument_stream \<Rightarrow> (osc_error + int64) \<times> argument_stream" where
  "get_int64 = extract_arg AsInt64"

definition get_time_tag :: "bytes \<Rightarrow> argument_stream \<Rightarrow> (osc_error + uint64) \<times> argument_stream" where
  "get_time_tag = extract_arg AsTimeTag"

definition get_double :: "bytes \<Rightarrow> argument_stream \<Rightarrow> (osc_error + (64 word)) \<times> argument_stream" where
  "get_double = extract_arg AsDouble"

definition get_blob :: "bytes \<Rightarrow> argument_stream \<Rightarrow> (osc_error + (nat \<times> ulong)) \<times> argument_stream" where
  "get_blob = extract_arg AsBlob"

definition get_string :: "bytes \<Rightarrow> argument_stream \<Rightarrow> (osc_error + nat) \<times> argument_stream" where
  "get_string = extract_arg AsString"

definition get_symbol :: "bytes \<Rightarrow> argument_stream \<Rightarrow> (osc_error + nat) \<times> argument_stream" where
  "get_symbol = extract_arg AsSymbol"

text \<open>\<^verbatim>\<open>operator>>( MessageTerminator& )\<close>\<close>

definition get_end :: "argument_stream \<Rightarrow> osc_error + argument_stream" where
  "get_end s = (if \<not> Eos s then Inl ExcessArgumentException else Inr s)"

section \<open>Reading a whole message\<close>

text \<open>
  A client that knows the types of its arguments: the extraction for the type of each of \<open>vs\<close>, in
  order, up to the first exception.  \<^verbatim>\<open>Nil\<close> and \<^verbatim>\<open>Infinitum\<close> have no operator.
\<close>

fun streamable :: "osc_value \<Rightarrow> bool" where
  "streamable ONil = False"
| "streamable OInfinitum = False"
| "streamable v = True"

definition with_value ::
    "('a \<Rightarrow> osc_error + 'b) \<Rightarrow> (osc_error + 'a) \<times> argument_stream \<Rightarrow> (osc_error + 'b) \<times> argument_stream" where
  "with_value f r = (ebind (fst r) f, snd r)"

fun get_value :: "osc_value \<Rightarrow> bytes \<Rightarrow> argument_stream \<Rightarrow> (osc_error + osc_value) \<times> argument_stream" where
  "get_value (OBool _) mem s = with_value (\<lambda>x. Inr (OBool x)) (get_bool mem s)"
| "get_value (OInt32 _) mem s = with_value (\<lambda>x. Inr (OInt32 x)) (get_int32 mem s)"
| "get_value (OFloat _) mem s = with_value (\<lambda>x. Inr (OFloat x)) (get_float mem s)"
| "get_value (OChar _) mem s = with_value (\<lambda>x. Inr (OChar x)) (get_char mem s)"
| "get_value (ORgbaColor _) mem s = with_value (\<lambda>x. Inr (ORgbaColor x)) (get_rgba_color mem s)"
| "get_value (OMidiMessage _) mem s = with_value (\<lambda>x. Inr (OMidiMessage x)) (get_midi_message mem s)"
| "get_value (OInt64 _) mem s = with_value (\<lambda>x. Inr (OInt64 x)) (get_int64 mem s)"
| "get_value (OTimeTag _) mem s = with_value (\<lambda>x. Inr (OTimeTag x)) (get_time_tag mem s)"
| "get_value (ODouble _) mem s = with_value (\<lambda>x. Inr (ODouble x)) (get_double mem s)"
| "get_value (OString _) mem s =
     with_value (\<lambda>p. ebind (read_cstr mem p) (\<lambda>x. Inr (OString x))) (get_string mem s)"
| "get_value (OSymbol _) mem s =
     with_value (\<lambda>p. ebind (read_cstr mem p) (\<lambda>x. Inr (OSymbol x))) (get_symbol mem s)"
| "get_value (OBlob _) mem s =
     with_value (\<lambda>d. ebind (read_blob mem d) (\<lambda>x. Inr (OBlob x))) (get_blob mem s)"
| "get_value v mem s = (Inl WrongArgumentTypeException, s)"

fun get_values ::
    "osc_value list \<Rightarrow> bytes \<Rightarrow> argument_stream \<Rightarrow> (osc_error + osc_value list) \<times> argument_stream" where
  "get_values [] mem s = (Inr [], s)"
| "get_values (v # vs) mem s =
     (case get_value v mem s of
        (Inl err, s') \<Rightarrow> (Inl err, s')
      | (Inr x, s') \<Rightarrow> with_value (\<lambda>xs. Inr (x # xs)) (get_values vs mem s'))"

lemmas get_defs = get_bool_def get_int32_def get_float_def get_char_def get_rgba_color_def
  get_midi_message_def get_int64_def get_time_tag_def get_double_def get_blob_def get_string_def
  get_symbol_def

lemma get_value_read:
  assumes "\<not> Eos s" and "Advance mem (stream_pos s) = Inr q" and "read_value mem (stream_pos s) = Inr v"
    and "TypeTag mem (stream_pos s) = Inr (arg_tag v)" and "streamable v"
  shows "get_value v mem s = (Inr v, s\<lparr>stream_pos := q\<rparr>)"
proof (cases v)
  case (OBool b)
  with assms show ?thesis
    by (cases b) (auto simp: get_defs extract_arg_def with_value_def Argument_postincrement_def read_value_def
        ebind_eq_Inr_iff)
qed (use assms in \<open>auto simp: get_defs extract_arg_def with_value_def Argument_postincrement_def read_value_def
      ebind_eq_Inr_iff\<close>)

lemma get_values_at:
  "mem_at mem tag (map arg_tag vs @ [0]) \<Longrightarrow> mem_at mem arg (concat (map arg_bytes vs)) \<Longrightarrow>
   list_all wire_value vs \<Longrightarrow> list_all streamable vs \<Longrightarrow> typeTag e = Some (tag + length vs) \<Longrightarrow>
   get_values vs mem \<lparr>stream_pos = \<lparr>typeTag = Some tag, argument = Some arg\<rparr>, stream_end = e\<rparr> =
     (Inr vs, \<lparr>stream_pos = \<lparr>typeTag = Some (tag + length vs),
        argument = Some (arg + length (concat (map arg_bytes vs)))\<rparr>, stream_end = e\<rparr>)"
proof (induction vs arbitrary: tag arg)
  case (Cons v vs)
  let ?a = "\<lparr>typeTag = Some tag, argument = Some arg\<rparr>"
  have t: "load_byte mem tag = Inr (arg_tag v)" using load_byte_at [OF Cons.prems(1), of 0] by simp
  have at: "mem_at mem arg (arg_bytes v)" using Cons.prems by (simp add: mem_at_append)
  have "check_arg mem (arg + length (arg_bytes v)) (arg_tag v) arg = Inr (arg + length (arg_bytes v))"
    using at Cons.prems by (intro check_arg_at) auto
  from check_arg_Advance [OF this t]
  have adv: "Advance mem ?a = Inr \<lparr>typeTag = Some (tag + 1), argument = Some (arg + length (arg_bytes v))\<rparr>" .
  have "read_value mem ?a = Inr v" using Cons.prems by (intro read_value_at [OF at _ t]) simp
  from get_value_read [of "\<lparr>stream_pos = ?a, stream_end = e\<rparr>", OF _ _ _ _ _] adv this t Cons.prems
  have "get_value v mem \<lparr>stream_pos = ?a, stream_end = e\<rparr> = (Inr v,
      \<lparr>stream_pos = \<lparr>typeTag = Some (tag + 1), argument = Some (arg + length (arg_bytes v))\<rparr>, stream_end = e\<rparr>)"
    by (simp add: Eos_def same_position_def TypeTag_def deref_def)
  moreover have "get_values vs mem \<lparr>stream_pos = \<lparr>typeTag = Some (tag + 1),
        argument = Some (arg + length (arg_bytes v))\<rparr>, stream_end = e\<rparr> =
      (Inr vs, \<lparr>stream_pos = \<lparr>typeTag = Some (tag + 1 + length vs),
        argument = Some (arg + length (arg_bytes v) + length (concat (map arg_bytes vs)))\<rparr>, stream_end = e\<rparr>)"
    using Cons.prems by (intro Cons.IH) (auto simp: mem_at_append mem_at_Cons)
  ultimately show ?case by (simp add: with_value_def)
qed simp

lemma get_values_parsed:
  assumes mem: "mem_at mem p (enc_message addr vs)" and vs: "list_all wire_value vs" "list_all streamable vs"
  shows "\<exists>s. get_values vs mem (ArgumentStream (parsed_message p addr vs)) = (Inr vs, s) \<and> Eos s \<and>
    (vs \<noteq> [] \<longrightarrow> \<not> Eos (ArgumentStream (parsed_message p addr vs)))"
  using get_values_at [OF tags_of_parsed [OF mem] vs, of "ArgumentsEnd (parsed_message p addr vs)"]
  by (cases "vs = []")
    (auto simp: ArgumentStream_def ArgumentsBegin_def ArgumentsEnd_def parsed_message_def Let_def
      Eos_def same_position_def)

lemma extract_arg_Eos: "Eos s \<Longrightarrow> extract_arg f mem s = (Inl MissingArgumentException, s)"
  by (simp add: extract_arg_def)

end
