(* ===== verification/CNumbers.thy ===== *)
theory CNumbers
  imports OscTypes "HOL-Library.Log_Nat"
begin

text \<open>
  The conversions of numbers that \<^verbatim>\<open>OscMessage.cpp\<close> asks of C++: between \<^verbatim>\<open>float\<close> and
  \<^verbatim>\<open>int32_t\<close>, and \<^verbatim>\<open>sprintf\<close> with \<^verbatim>\<open>%i\<close> and \<^verbatim>\<open>%f\<close>.  A \<^verbatim>\<open>float\<close> is its IEEE 754 single
  precision bit pattern; the rounding mode is to nearest, ties to even.
\<close>

section \<open>Single precision bit patterns\<close>

definition float_negative :: "32 word \<Rightarrow> bool" where
  "float_negative w = (2 ^ 31 \<le> unat w)"

definition float_exponent :: "32 word \<Rightarrow> nat" where
  "float_exponent w = unat w div 2 ^ 23 mod 2 ^ 8"

definition float_fraction :: "32 word \<Rightarrow> nat" where
  "float_fraction w = unat w mod 2 ^ 23"

definition float_finite :: "32 word \<Rightarrow> bool" where
  "float_finite w = (float_exponent w \<noteq> 255)"

text \<open>A finite value is \<open>m * 2 powi e / 2 ^ 150\<close>: the pair \<open>(m, e)\<close>.\<close>

definition float_magnitude :: "32 word \<Rightarrow> nat \<times> nat" where
  "float_magnitude w =
     (if float_exponent w = 0 then (float_fraction w, 1)
      else (float_fraction w + 2 ^ 23, float_exponent w))"

definition make_float :: "bool \<Rightarrow> nat \<Rightarrow> nat \<Rightarrow> 32 word" where
  "make_float neg e f = of_nat ((if neg then 2 ^ 31 else 0) + e * 2 ^ 23 + f)"

lemma make_float_fields:
  assumes "e < 2 ^ 8" and "f < 2 ^ 23"
  shows "float_negative (make_float neg e f) = neg"
    and "float_exponent (make_float neg e f) = e"
    and "float_fraction (make_float neg e f) = f"
proof -
  let ?n = "(if neg then 2 ^ 31 else 0) + e * 2 ^ 23 + f"
  have "e * 2 ^ 23 \<le> (2 ^ 8 - 1) * 2 ^ 23" using assms(1) by (intro mult_right_mono) auto
  then have lt: "e * 2 ^ 23 + f < 2 ^ 31" using assms(2) by simp
  have n: "unat (make_float neg e f) = ?n"
    unfolding make_float_def by (rule unat_of_nat_small) (use lt in auto)
  show "float_negative (make_float neg e f) = neg" unfolding float_negative_def n using lt by auto
  have "?n div 2 ^ 23 = (if neg then 2 ^ 8 else 0) + e" using assms(2) by (cases neg) auto
  then show "float_exponent (make_float neg e f) = e"
    unfolding float_exponent_def n using assms(1) by auto
  show "float_fraction (make_float neg e f) = f"
    unfolding float_fraction_def n using assms(2) by (auto simp: mod_add_eq [symmetric])
qed

section \<open>Conversions\<close>

text \<open>\<open>n / 2 ^ k\<close> rounded to the nearest natural number, ties to even.\<close>

definition round_shift :: "nat \<Rightarrow> nat \<Rightarrow> nat" where
  "round_shift n k =
     (let q = n div 2 ^ k; r = n mod 2 ^ k in
      if 2 * r > 2 ^ k \<or> (2 * r = 2 ^ k \<and> odd q) then q + 1 else q)"

text \<open>\<^verbatim>\<open>(float) n\<close> for an \<^verbatim>\<open>int32_t\<close>.\<close>

definition int_to_float :: "int32 \<Rightarrow> 32 word" where
  "int_to_float n =
     (let a = nat \<bar>sint n\<bar>; neg = sint n < 0; k = floorlog 2 a - 1 in
      if a = 0 then 0
      else if k \<le> 23 then make_float neg (k + 127) (a * 2 ^ (23 - k) - 2 ^ 23)
      else
        let m = round_shift a (k - 23) in
        if m = 2 ^ 24 then make_float neg (k + 128) 0
        else make_float neg (k + 127) (m - 2 ^ 23))"

text \<open>
  \<^verbatim>\<open>(int32_t) x\<close>: truncation; undefined (here \<open>None\<close>) when the truncated value is no
  \<^verbatim>\<open>int32_t\<close>.
\<close>

definition float_to_int :: "32 word \<Rightarrow> int32 option" where
  "float_to_int w =
     (if \<not> float_finite w then None
      else
        let (m, e) = float_magnitude w;
            t = (if 150 \<le> e then m * 2 ^ (e - 150) else m div 2 ^ (150 - e));
            i = (if float_negative w then - int t else int t)
        in if - (2 ^ 31) \<le> i \<and> i < 2 ^ 31 then Some (word_of_int i) else None)"

lemma floorlog_bounds:
  assumes "0 < (a :: nat)"
  shows "2 ^ (floorlog 2 a - 1) \<le> a" and "a < 2 ^ (floorlog 2 a - 1 + 1)"
  using floorlog_bounds [of a 2] assms floorlog_leD [of 2 a "floorlog 2 a"]
  by (auto simp: floorlog_def)

text \<open>Integers of at most 24 bits survive the way to \<^verbatim>\<open>float\<close> and back.\<close>

lemma float_roundtrip:
  assumes small: "\<bar>sint n\<bar> < 2 ^ 24"
  shows "float_to_int (int_to_float n) = Some n"
proof (cases "n = 0")
  case True
  then show ?thesis
    by (simp add: int_to_float_def float_to_int_def float_finite_def float_magnitude_def
        float_exponent_def float_fraction_def float_negative_def floorlog_def Let_def)
next
  case False
  define a where "a = nat \<bar>sint n\<bar>"
  define k where "k = floorlog 2 a - 1"
  have "sint n \<noteq> 0" using False by (simp add: signed_eq_0_iff)
  then have a: "0 < a" "a < 2 ^ 24" using small by (auto simp: a_def nat_less_iff)
  have b: "2 ^ k \<le> a" "a < 2 ^ (k + 1)" using floorlog_bounds [OF a(1)] by (auto simp: k_def)
  have "(2 :: nat) ^ k < 2 ^ 24" using b(1) a(2) by linarith
  then have k: "k \<le> 23" using power_less_imp_less_exp [of "2 :: nat" k 24] by simp
  let ?f = "a * 2 ^ (23 - k) - 2 ^ 23"
  have p: "2 ^ (23 - k) * 2 ^ k = (2 ^ 23 :: nat)" using k by (simp flip: power_add)
  have "(2 :: nat) ^ 23 = 2 ^ k * 2 ^ (23 - k)" using p by (simp only: mult.commute)
  also have "\<dots> \<le> a * 2 ^ (23 - k)" by (rule mult_le_mono1 [OF b(1)])
  finally have lo: "2 ^ 23 \<le> a * 2 ^ (23 - k)" .
  have "a * 2 ^ (23 - k) < 2 ^ (k + 1) * 2 ^ (23 - k)" using b(2) by (intro mult_less_mono1) auto
  also have "\<dots> = 2 * (2 ^ (23 - k) * 2 ^ k)" by (simp only: power_add power_one_right ac_simps)
  also have "\<dots> = 2 ^ 24" by (simp only: p) simp
  finally have hi: "a * 2 ^ (23 - k) < 2 ^ 24" .
  have f: "?f < 2 ^ 23" using hi lo by simp
  have e: "k + 127 < 2 ^ 8" using k by simp
  let ?w = "make_float (sint n < 0) (k + 127) ?f"
  have w: "int_to_float n = ?w"
    unfolding int_to_float_def Let_def a_def [symmetric] k_def [symmetric] using a(1) k by simp
  note fields = make_float_fields [OF e f, of "sint n < 0"]
  have "float_magnitude ?w = (a * 2 ^ (23 - k), k + 127)"
    unfolding float_magnitude_def fields using lo by simp
  moreover have "float_finite ?w" unfolding float_finite_def fields using k by simp
  moreover have t: "(if 150 \<le> k + 127 then a * 2 ^ (23 - k) * 2 ^ (k + 127 - 150)
      else a * 2 ^ (23 - k) div 2 ^ (150 - (k + 127))) = a"
    using k by (cases "k = 23") (auto simp: nat_le_iff_add)
  moreover have i: "(if sint n < 0 then - int a else int a) = sint n" by (simp add: a_def)
  moreover have "- (2 ^ 31) \<le> sint n" "sint n < 2 ^ 31" using small by simp_all
  ultimately show ?thesis
    unfolding w float_to_int_def Let_def fields by (simp only: case_prod_conv) simp
qed

section \<open>Decimal text\<close>

fun show_nat :: "nat \<Rightarrow> bytes" where
  "show_nat n =
     (if n < 10 then [of_nat (48 + n)] else show_nat (n div 10) @ [of_nat (48 + n mod 10)])"

declare show_nat.simps [simp del]

text \<open>\<^verbatim>\<open>sprintf( buf, "%i", n )\<close>\<close>

definition sprintf_i :: "int32 \<Rightarrow> bytes" where
  "sprintf_i n = (if sint n < 0 then byte_of (CHR ''-'') # show_nat (nat (- sint n)) else show_nat (nat (sint n)))"

fun zero_fill :: "nat \<Rightarrow> bytes \<Rightarrow> bytes" where
  "zero_fill w s = replicate (w - length s) 48 @ s"

text \<open>
  \<^verbatim>\<open>sprintf( buf, "%f", x )\<close>: six decimals of the exact value, rounded to nearest, ties to even.
\<close>

definition sprintf_f :: "32 word \<Rightarrow> bytes" where
  "sprintf_f w =
     (if float_exponent w = 255
      then if float_fraction w = 0 then (if float_negative w then bytes_of ''-inf'' else bytes_of ''inf'')
           else bytes_of ''nan''
      else
        let (m, e) = float_magnitude w;
            millionths = (if 150 \<le> e then m * 2 ^ (e - 150) * 10 ^ 6
                          else round_shift (m * 10 ^ 6) (150 - e))
        in (if float_negative w then [byte_of (CHR ''-'')] else []) @
           show_nat (millionths div 10 ^ 6) @ [byte_of (CHR ''.'')] @
           zero_fill 6 (show_nat (millionths mod 10 ^ 6)))"

text \<open>Reading a decimal text back.\<close>

definition digits_value :: "bytes \<Rightarrow> nat" where
  "digits_value s = foldl (\<lambda>n b. 10 * n + (unat b - 48)) 0 s"

lemma digits_value_show_nat: "digits_value (show_nat n) = n"
proof (induction n rule: show_nat.induct)
  case (1 n)
  have d: "unat (of_nat (48 + d) :: byte) = 48 + d" if "d < 10" for d
    using that by (intro unat_of_nat_small) simp
  show ?case
  proof (cases "n < 10")
    case True
    then show ?thesis using d [of n] by (subst show_nat.simps) (simp add: digits_value_def)
  next
    case False
    then have "digits_value (show_nat (n div 10)) = n div 10" using 1 by simp
    then show ?thesis using False d [of "n mod 10"]
      by (subst show_nat.simps) (simp add: digits_value_def)
  qed
qed

lemma show_nat_digits: "set (show_nat n) \<subseteq> {48..57}"
proof (induction n rule: show_nat.induct)
  case (1 n)
  have d: "of_nat (48 + d) \<in> {48..57 :: byte}" if "d < 10" for d
  proof -
    have "unat (of_nat (48 + d) :: byte) = 48 + d" using that by (intro unat_of_nat_small) simp
    then show ?thesis using that by (simp only: atLeastAtMost_iff word_le_nat_alt) simp
  qed
  show ?case
    using 1 d [of n] d [of "n mod 10"] by (subst show_nat.simps) auto
qed

section \<open>Lengths and values of texts\<close>

lemma length_show_nat_le: "n < 10 ^ k \<Longrightarrow> 0 < k \<Longrightarrow> length (show_nat n) \<le> k"
proof (induction k arbitrary: n)
  case (Suc k)
  show ?case
  proof (cases "n < 10")
    case True
    then show ?thesis by (subst show_nat.simps) simp
  next
    case False
    with Suc.prems have "k \<noteq> 0" by (cases k) auto
    moreover have "n div 10 < 10 ^ k" using Suc.prems by (simp add: less_mult_imp_div_less)
    ultimately show ?thesis using Suc.IH [of "n div 10"] False by (subst show_nat.simps) simp
  qed
qed simp

lemma length_sprintf_i: "length (sprintf_i n) \<le> 11"
proof -
  have "nat (- sint n) < 10 ^ 10" "nat (sint n) < 10 ^ 10" using sint_lt [of n] sint_ge [of n] by simp_all
  then show ?thesis
    unfolding sprintf_i_def using length_show_nat_le [of "nat (- sint n)" 10] length_show_nat_le [of "nat (sint n)" 10]
    by simp
qed

definition decimal_value :: "bytes \<Rightarrow> int" where
  "decimal_value s = (if take 1 s = [byte_of (CHR ''-'')] then - int (digits_value (tl s)) else int (digits_value s))"

lemma decimal_value_sprintf_i: "decimal_value (sprintf_i n) = sint n"
proof -
  have "byte_of (CHR ''-'') \<notin> set (show_nat k)" for k
    using show_nat_digits [of k] by (auto simp: subset_iff word_le_nat_alt byte_of_def)
  then have "take 1 (show_nat k) \<noteq> [byte_of (CHR ''-'')]" for k
    by (metis in_set_takeD list.set_intros(1))
  then show ?thesis by (simp add: decimal_value_def sprintf_i_def digits_value_show_nat)
qed

lemma float_magnitude_bounds:
  assumes "float_exponent w \<noteq> 255" and "float_magnitude w = (m, e)"
  shows "m < 2 ^ 24 \<and> e \<le> 254"
proof -
  have "float_fraction w < 2 ^ 23" "float_exponent w < 2 ^ 8"
    by (simp_all add: float_fraction_def float_exponent_def)
  then show ?thesis using assms by (auto simp: float_magnitude_def split: if_splits)
qed

lemma length_sprintf_f: "length (sprintf_f w) \<le> 47"
proof (cases "float_exponent w = 255")
  case False
  obtain m e where me: "float_magnitude w = (m, e)" by force
  have b: "m < 2 ^ 24" "e \<le> 254" using float_magnitude_bounds [OF False me] by simp_all
  define x where "x = (if 150 \<le> e then m * 2 ^ (e - 150) * 10 ^ 6 else round_shift (m * 10 ^ 6) (150 - e))"
  have "x div 10 ^ 6 < 10 ^ 39"
  proof (cases "150 \<le> e")
    case True
    have "m * 2 ^ (e - 150) \<le> 2 ^ 24 * 2 ^ 104"
      using b by (intro mult_le_mono power_increasing) simp_all
    then show ?thesis using True by (simp add: x_def)
  next
    case False
    have "round_shift a k \<le> a + 1" for a k
    proof -
      have "a div 2 ^ k \<le> a" by (rule div_le_dividend)
      then show ?thesis by (simp add: round_shift_def Let_def le_SucI)
    qed
    then have "x \<le> m * 10 ^ 6 + 1" using False by (simp only: x_def if_False)
    then show ?thesis using b(1) by (simp add: less_mult_imp_div_less)
  qed
  then have "length (show_nat (x div 10 ^ 6)) \<le> 39" by (rule length_show_nat_le) simp
  moreover have "length (show_nat (x mod 10 ^ 6)) \<le> 6" by (rule length_show_nat_le) simp_all
  ultimately show ?thesis
    using False unfolding sprintf_f_def Let_def me case_prod_conv x_def [symmetric] by simp
qed (simp add: sprintf_f_def)

end
