(* ===== verification/CFormat.thy ===== *)
theory CFormat
  imports CNumbers
begin

text \<open>
  The formatting that \<^verbatim>\<open>product/source/osc/OscPrintReceivedElements.cpp\<close> asks of \<^verbatim>\<open>std::ostream\<close>:
  integers in decimal and in hexadecimal with two digits, and floating point values in the default
  format, which is \<^verbatim>\<open>%g\<close> of \<^verbatim>\<open>printf\<close> with six significant digits.
\<close>

section \<open>Integers\<close>

definition show_int64 :: "int64 \<Rightarrow> bytes" where
  "show_int64 n = (if sint n < 0 then byte_of (CHR ''-'') # show_nat (nat (- sint n)) else show_nat (nat (sint n)))"

definition show_uint64 :: "uint64 \<Rightarrow> bytes" where
  "show_uint64 n = show_nat (unat n)"

definition hex_digit :: "nat \<Rightarrow> byte" where
  "hex_digit d = (if d < 10 then of_nat (48 + d) else of_nat (87 + d))"

text \<open>\<^verbatim>\<open>std::hex << std::setfill('0') << std::setw(2) << n\<close>, for a value of one byte.\<close>

definition show_hex2 :: "byte \<Rightarrow> bytes" where
  "show_hex2 b = [hex_digit (unat b div 16), hex_digit (unat b mod 16)]"

lemma hex_digit_inject: "c < 16 \<Longrightarrow> d < 16 \<Longrightarrow> hex_digit c = hex_digit d \<longleftrightarrow> c = d"
proof -
  assume c: "c < 16" and d: "d < 16"
  have u: "unat (hex_digit n) = (if n < 10 then 48 + n else 87 + n)" if "n < 16" for n
    using that unat_of_nat_small [of "48 + n", where 'a = 8] unat_of_nat_small [of "87 + n", where 'a = 8]
    by (simp add: hex_digit_def)
  show ?thesis using u [OF c] u [OF d] c d by (auto split: if_splits simp: word_unat_eq_iff)
qed

lemma show_hex2_inject: "show_hex2 a = show_hex2 b \<longleftrightarrow> a = b"
proof
  assume eq: "show_hex2 a = show_hex2 b"
  have lt: "unat w div 16 < 16" for w :: byte
  proof -
    have "unat w < 2 ^ 8" using unsigned_less [of w] by simp
    then show ?thesis by simp
  qed
  have "unat a div 16 = unat b div 16" "unat a mod 16 = unat b mod 16"
    using eq lt by (simp_all add: show_hex2_def hex_digit_inject)
  then have "unat a = unat b" by (metis div_mult_mod_eq)
  then show "a = b" by (simp add: word_unat_eq_iff)
qed simp

section \<open>Floating point\<close>

text \<open>The quotient \<open>a / b\<close> rounded to the nearest natural number, ties to even.\<close>

definition round_div :: "nat \<Rightarrow> nat \<Rightarrow> nat" where
  "round_div a b =
     (let q = a div b; r = a mod b in if 2 * r > b \<or> (2 * r = b \<and> odd q) then q + 1 else q)"

text \<open>The number of places the first digit of \<open>n / d\<close> stands behind the point; 0 from 1 on.\<close>

function leading_zeros :: "nat \<Rightarrow> nat \<Rightarrow> nat" where
  "leading_zeros n d = (if n = 0 \<or> d \<le> n then 0 else Suc (leading_zeros (10 * n) d))"
  by pat_completeness auto
termination by (relation "measure (\<lambda>(n, d). d - n)") auto

declare leading_zeros.simps [simp del]

definition strip_zeros :: "bytes \<Rightarrow> bytes" where
  "strip_zeros s = rev (dropWhile (\<lambda>b. b = 48) (rev s))"

definition with_fraction :: "bytes \<Rightarrow> bytes \<Rightarrow> bytes" where
  "with_fraction whole fraction =
     (let f = strip_zeros fraction in if f = [] then whole else whole @ [byte_of (CHR ''.'')] @ f)"

text \<open>
  The magnitude \<open>n / d\<close>, not 0: six significant digits \<open>ds\<close>, the first with the weight
  \<open>10 powi x\<close>.
\<close>

definition show_ratio :: "nat \<Rightarrow> nat \<Rightarrow> bytes" where
  "show_ratio n d =
     (let x0 = (if d \<le> n then int (length (show_nat (n div d))) - 1 else - int (leading_zeros n d));
          q = (if x0 \<le> 5 then round_div (n * 10 ^ nat (5 - x0)) d else round_div n (d * 10 ^ nat (x0 - 5)));
          x = (if q = 10 ^ 6 then x0 + 1 else x0);
          ds = show_nat (if q = 10 ^ 6 then 10 ^ 5 else q)
      in if x < - 4 \<or> 6 \<le> x
         then with_fraction (take 1 ds) (drop 1 ds) @ [byte_of (CHR ''e'')] @
              [byte_of (if x < 0 then CHR ''-'' else CHR ''+'')] @ zero_fill 2 (show_nat (nat \<bar>x\<bar>))
         else if 0 \<le> x then with_fraction (take (nat x + 1) ds) (drop (nat x + 1) ds)
         else with_fraction [48] (replicate (nat (- x) - 1) 48 @ ds))"

definition show_signed :: "bool \<Rightarrow> bytes \<Rightarrow> bytes" where
  "show_signed neg s = (if neg then byte_of (CHR ''-'') # s else s)"

definition show_float :: "32 word \<Rightarrow> bytes" where
  "show_float w =
     (if float_exponent w = 255
      then if float_fraction w = 0 then show_signed (float_negative w) (bytes_of ''inf'') else bytes_of ''nan''
      else
        let (m, e) = float_magnitude w
        in show_signed (float_negative w) (if m = 0 then [48] else show_ratio (m * 2 ^ e) (2 ^ 150)))"

text \<open>A \<^verbatim>\<open>double\<close>: a sign, 11 bits of exponent, 52 of fraction.\<close>

definition double_negative :: "64 word \<Rightarrow> bool" where
  "double_negative w = (2 ^ 63 \<le> unat w)"

definition double_exponent :: "64 word \<Rightarrow> nat" where
  "double_exponent w = unat w div 2 ^ 52 mod 2 ^ 11"

definition double_fraction :: "64 word \<Rightarrow> nat" where
  "double_fraction w = unat w mod 2 ^ 52"

text \<open>A finite value is \<open>m * 2 powi e / 2 ^ 1075\<close>: the pair \<open>(m, e)\<close>.\<close>

definition double_magnitude :: "64 word \<Rightarrow> nat \<times> nat" where
  "double_magnitude w =
     (if double_exponent w = 0 then (double_fraction w, 1)
      else (double_fraction w + 2 ^ 52, double_exponent w))"

definition show_double :: "64 word \<Rightarrow> bytes" where
  "show_double w =
     (if double_exponent w = 2047
      then if double_fraction w = 0 then show_signed (double_negative w) (bytes_of ''inf'') else bytes_of ''nan''
      else
        let (m, e) = double_magnitude w
        in show_signed (double_negative w) (if m = 0 then [48] else show_ratio (m * 2 ^ e) (2 ^ 1075)))"

end
