(* ===== verification/OscPrint.thy ===== *)
theory OscPrint
  imports CFormat OscReceived
begin

text \<open>
  \<^verbatim>\<open>product/source/osc/OscPrintReceivedElements.cpp\<close>: the text of received packets.  The output
  stream starts with its default format and every operator restores what it changes, so a stream is
  the bytes written so far.  \<^verbatim>\<open>std::ctime\<close>, which depends on the time zone, is the parameter
  \<open>ctime\<close>: it gives a text that ends in a newline.  The depth of the indentation is a static variable
  of the bundle operator and so part of the state.
\<close>

section \<open>Arguments\<close>

text \<open>The loop over the bytes of a blob.\<close>

fun hex_list :: "bytes \<Rightarrow> bytes" where
  "hex_list [] = []"
| "hex_list [b] = bytes_of ''0x'' @ show_hex2 b"
| "hex_list (b # bs) = bytes_of ''0x'' @ show_hex2 b @ [32] @ hex_list bs"

definition print_rgba :: "uint32 \<Rightarrow> bytes" where
  "print_rgba color =
     bytes_of ''RGBA:0x'' @ show_hex2 (ucast (drop_bit 24 color)) @ show_hex2 (ucast (drop_bit 16 color)) @
     show_hex2 (ucast (drop_bit 8 color)) @ show_hex2 (ucast color)"

definition print_midi :: "uint32 \<Rightarrow> bytes" where
  "print_midi m =
     bytes_of ''midi (port, status, data1, data2):<<'' @
     bytes_of ''0x'' @ show_hex2 (ucast (drop_bit 24 m)) @ bytes_of '' 0x'' @ show_hex2 (ucast (drop_bit 16 m)) @
     bytes_of '' 0x'' @ show_hex2 (ucast (drop_bit 8 m)) @ bytes_of '' 0x'' @ show_hex2 (ucast m) @ bytes_of ''>>''"

text \<open>The seconds of the time tag are given to \<^verbatim>\<open>ctime\<close>, whose newline is cut off.\<close>

definition print_time :: "(ulong \<Rightarrow> bytes) \<Rightarrow> uint64 \<Rightarrow> bytes" where
  "print_time ctime t =
     bytes_of ''OSC-timetag:'' @ show_uint64 t @ bytes_of '' '' @ butlast (ctime (drop_bit 32 t))"

definition print_argument :: "(ulong \<Rightarrow> bytes) \<Rightarrow> bytes \<Rightarrow> received_argument \<Rightarrow> osc_error + bytes" where
  "print_argument ctime mem a =
     ebind (TypeTag mem a) (\<lambda>t.
       if t = TRUE_TYPE_TAG then Inr (bytes_of ''bool:true'')
       else if t = FALSE_TYPE_TAG then Inr (bytes_of ''bool:false'')
       else if t = NIL_TYPE_TAG then Inr (bytes_of ''(Nil)'')
       else if t = INFINITUM_TYPE_TAG then Inr (bytes_of ''(Infinitum)'')
       else if t = INT32_TYPE_TAG
       then ebind (AsInt32Unchecked mem a) (\<lambda>x. Inr (bytes_of ''int32:'' @ sprintf_i x))
       else if t = FLOAT_TYPE_TAG
       then ebind (AsFloatUnchecked mem a) (\<lambda>x. Inr (bytes_of ''float32:'' @ show_float x))
       else if t = CHAR_TYPE_TAG
       then ebind (AsCharUnchecked mem a) (\<lambda>x. Inr (bytes_of ''char:'' @ [39] @ c_str [x, 0] @ [39]))
       else if t = RGBA_COLOR_TYPE_TAG
       then ebind (AsRgbaColorUnchecked mem a) (\<lambda>x. Inr (print_rgba x))
       else if t = MIDI_MESSAGE_TYPE_TAG
       then ebind (AsMidiMessageUnchecked mem a) (\<lambda>x. Inr (print_midi x))
       else if t = INT64_TYPE_TAG
       then ebind (AsInt64Unchecked mem a) (\<lambda>x. Inr (bytes_of ''int64:'' @ show_int64 x))
       else if t = TIME_TAG_TYPE_TAG
       then ebind (AsTimeTagUnchecked mem a) (\<lambda>x. Inr (print_time ctime x))
       else if t = DOUBLE_TYPE_TAG
       then ebind (AsDoubleUnchecked mem a) (\<lambda>x. Inr (bytes_of ''double:'' @ show_double x))
       else if t = STRING_TYPE_TAG
       then ebind (deref (argument a) (read_cstr mem)) (\<lambda>s. Inr (bytes_of ''OSC-string:`'' @ s @ [39]))
       else if t = SYMBOL_TYPE_TAG
       then ebind (deref (argument a) (read_cstr mem)) (\<lambda>s.
              Inr (bytes_of ''OSC-string (symbol):`'' @ s @ [39]))
       else if t = BLOB_TYPE_TAG
       then ebind (AsBlobUnchecked mem a) (\<lambda>(data, size).
              ebind (if size = 0 then Inr [] else load_bytes mem data (unat size)) (\<lambda>bs.
                Inr (bytes_of ''OSC-blob:<<'' @ hex_list bs @ bytes_of ''>>'')))
       else Inr (bytes_of ''unknown''))"

section \<open>Messages\<close>

text \<open>
  The loop over the arguments from \<open>i\<close> to \<open>e\<close>.  The iterator stays where it is on a type tag it does
  not know, so the loop may have no result.
\<close>

partial_function (option) print_arguments ::
    "(ulong \<Rightarrow> bytes) \<Rightarrow> bytes \<Rightarrow> received_argument \<Rightarrow> received_argument \<Rightarrow> bool \<Rightarrow> bytes \<Rightarrow> (osc_error + bytes) option" where
  "print_arguments ctime mem i e first os =
     (if same_position i e then Some (Inr os)
      else
        let os = os @ (if first then bytes_of '' '' else bytes_of '', '') in
        case print_argument ctime mem i of
          Inl err \<Rightarrow> Some (Inl err)
        | Inr text \<Rightarrow>
            (case Advance mem i of
               Inl err \<Rightarrow> Some (Inl err)
             | Inr i' \<Rightarrow> print_arguments ctime mem i' e False (os @ text)))"

definition print_message :: "(ulong \<Rightarrow> bytes) \<Rightarrow> bytes \<Rightarrow> received_message \<Rightarrow> (osc_error + bytes) option" where
  "print_message ctime mem m =
     (case read_cstr mem (addressPattern m) of
        Inl err \<Rightarrow> Some (Inl err)
      | Inr addr \<Rightarrow>
          Option.bind
            (print_arguments ctime mem (ArgumentsBegin m) (ArgumentsEnd m) True (bytes_of ''['' @ addr))
            (\<lambda>r. Some (ebind r (\<lambda>os. Inr (os @ bytes_of '']'')))))"

section \<open>Bundles\<close>

record printing =
  printed :: bytes
  indent :: nat

definition print_bytes :: "bytes \<Rightarrow> printing \<Rightarrow> printing" where
  "print_bytes s st = st\<lparr>printed := printed st @ s\<rparr>"

definition indentation :: "nat \<Rightarrow> bytes" where
  "indentation n = concat (replicate n (bytes_of ''  ''))"

text \<open>The text before and after the elements, with the change of \<^verbatim>\<open>indent\<close> between them.\<close>

definition print_opening :: "bytes \<Rightarrow> received_bundle \<Rightarrow> printing \<Rightarrow> osc_error + printing" where
  "print_opening mem b st =
     ebind (Bundle_TimeTag mem b) (\<lambda>t.
       let st = print_bytes (indentation (indent st) @ bytes_of ''{ ( '' @
                  (if t = 1 then bytes_of ''immediate'' else show_uint64 t) @ bytes_of '' )'' @ [10]) st
       in Inr (st\<lparr>indent := indent st + 1\<rparr>))"

definition print_closing :: "printing \<Rightarrow> printing" where
  "print_closing st =
     (let st = st\<lparr>indent := indent st - 1\<rparr> in print_bytes (indentation (indent st) @ bytes_of ''}'') st)"

text \<open>
  The loop over the elements of a bundle: what was printed before an exception stays printed, and
  \<^verbatim>\<open>indent\<close> stays what it was when the exception was thrown.
\<close>

partial_function (option) print_elements ::
    "(ulong \<Rightarrow> bytes) \<Rightarrow> bytes \<Rightarrow> nat \<Rightarrow> nat \<Rightarrow> printing \<Rightarrow> (printing \<times> osc_error option) option" where
  "print_elements ctime mem p e st =
     (if same_element p e then Some (st, None)
      else
        case Element_IsBundle mem p of
          Inl err \<Rightarrow> Some (st, Some err)
        | Inr is_bundle \<Rightarrow>
            Option.bind
              (if is_bundle then
                 case ReceivedBundle_element mem p of
                   None \<Rightarrow> None
                 | Some (Inl err) \<Rightarrow> Some (st, Some err)
                 | Some (Inr b) \<Rightarrow>
                     case print_opening mem b st of
                       Inl err \<Rightarrow> Some (st, Some err)
                     | Inr st1 \<Rightarrow>
                         Option.bind (print_elements ctime mem (ElementsBegin b) (ElementsEnd b) st1)
                           (\<lambda>(st2, thrown).
                             case thrown of
                               Some err \<Rightarrow> Some (st2, Some err)
                             | None \<Rightarrow> Some (print_bytes [10] (print_closing st2), None))
               else
                 case ReceivedMessage_element mem p of
                   Inl err \<Rightarrow> Some (st, Some err)
                 | Inr m \<Rightarrow>
                     let st1 = print_bytes (indentation (indent st)) st in
                     case print_message ctime mem m of
                       None \<Rightarrow> None
                     | Some (Inl err) \<Rightarrow> Some (st1, Some err)
                     | Some (Inr text) \<Rightarrow> Some (print_bytes (text @ [10]) st1, None))
              (\<lambda>(st', thrown).
                case thrown of
                  Some err \<Rightarrow> Some (st', Some err)
                | None \<Rightarrow>
                    case Element_Advance mem p of
                      Inl err \<Rightarrow> Some (st', Some err)
                    | Inr q \<Rightarrow> print_elements ctime mem q e st'))"

definition print_bundle ::
    "(ulong \<Rightarrow> bytes) \<Rightarrow> bytes \<Rightarrow> received_bundle \<Rightarrow> printing \<Rightarrow> (printing \<times> osc_error option) option" where
  "print_bundle ctime mem b st =
     (case print_opening mem b st of
        Inl err \<Rightarrow> Some (st, Some err)
      | Inr st1 \<Rightarrow>
          Option.bind (print_elements ctime mem (ElementsBegin b) (ElementsEnd b) st1)
            (\<lambda>(st2, thrown).
              case thrown of
                Some err \<Rightarrow> Some (st2, Some err)
              | None \<Rightarrow> Some (print_closing st2, None)))"

definition print_packet ::
    "(ulong \<Rightarrow> bytes) \<Rightarrow> bytes \<Rightarrow> received_packet \<Rightarrow> printing \<Rightarrow> (printing \<times> osc_error option) option" where
  "print_packet ctime mem p st =
     (case ReceivedPacket_IsBundle mem p of
        Inl err \<Rightarrow> Some (st, Some err)
      | Inr True \<Rightarrow>
          (case ReceivedBundle_packet mem p of
             None \<Rightarrow> None
           | Some (Inl err) \<Rightarrow> Some (st, Some err)
           | Some (Inr b) \<Rightarrow>
               Option.bind (print_bundle ctime mem b st) (\<lambda>(st', thrown).
                 case thrown of
                   Some err \<Rightarrow> Some (st', Some err)
                 | None \<Rightarrow> Some (print_bytes [10] st', None)))
      | Inr False \<Rightarrow>
          (case ReceivedMessage_packet mem p of
             Inl err \<Rightarrow> Some (st, Some err)
           | Inr m \<Rightarrow>
               (case print_message ctime mem m of
                  None \<Rightarrow> None
                | Some (Inl err) \<Rightarrow> Some (st, Some err)
                | Some (Inr text) \<Rightarrow> Some (print_bytes (text @ [10]) st, None))))"

end
