(* ===== verification/OscBundleSpec.thy ===== *)
theory OscBundleSpec
  imports OscRoundTrip
begin

text \<open>
  What \<^verbatim>\<open>ReceivedBundle::Init\<close> guarantees: which inputs it never returns on, that it returns on
  all others, that the elements of an accepted bundle lie inside it one after the other, and that
  it accepts what the writer produces.
\<close>

section \<open>When the loop over the elements returns\<close>

text \<open>The element size that turns \<^verbatim>\<open>4 + elementSize\<close> into 0.\<close>

definition stuck_size :: uint32 where
  "stuck_size = 0xFFFFFFFC"

lemma stuck_size_plus: "4 + stuck_size = 0"
  by (simp add: stuck_size_def)

lemma and_3_dvd32: "(x :: 32 word) AND 3 = 0 \<longleftrightarrow> 4 dvd unat x"
proof -
  have "x AND 3 = take_bit 2 x" by (simp add: take_bit_eq_mask mask_eq_exp_minus_1)
  also have "\<dots> = x mod 4" by (simp add: take_bit_eq_mod)
  finally have "unat (x AND 3) = unat x mod 4" by (simp add: unat_mod)
  then show ?thesis by (simp add: dvd_eq_mod_eq_0 unat_eq_zero flip: unat_0_iff)
qed

lemma step_size:
  assumes "(n :: uint32) AND 3 = 0" and "n \<noteq> stuck_size"
  shows "unat (4 + n) = 4 + unat n"
proof -
  have "unat n < 2 ^ 32" using unsigned_less [of n] by simp
  moreover have "unat n \<noteq> 2 ^ 32 - 4"
  proof
    assume "unat n = 2 ^ 32 - 4"
    then have "unat n = unat stuck_size" by (simp add: stuck_size_def)
    with assms(2) show False by (simp add: word_unat_eq_iff)
  qed
  ultimately have "unat n + 4 < 2 ^ 32" using assms(1) unfolding and_3_dvd32 by (auto elim!: dvdE)
  then show ?thesis by (simp add: unat_word_ariths)
qed

lemma bundle_elements_stuck_result:
  assumes "bundle_elements mem e p count = Some r" and "p + 4 \<le> e"
  shows "ToUInt32 mem p \<noteq> Inr stuck_size"
proof -
  have "p + 4 \<le> e \<longrightarrow> ToUInt32 mem p \<noteq> Inr stuck_size"
  proof (rule bundle_elements.raw_induct
      [where P = "\<lambda>mem e p count r. p + 4 \<le> e \<longrightarrow> ToUInt32 mem p \<noteq> Inr stuck_size"])
    show "bundle_elements mem e p count = Some r" by (rule assms)
  qed (auto simp: stuck_size_plus Let_def stuck_size_def split: if_splits sum.splits)
  with assms(2) show ?thesis by simp
qed

lemma bundle_elements_returns:
  assumes "\<forall>q. p \<le> q \<and> q + 4 \<le> e \<and> 4 dvd q - p \<longrightarrow> ToUInt32 mem q \<noteq> Inr stuck_size"
  shows "\<exists>r. bundle_elements mem e p count = Some r"
  using assms
proof (induction "e - p" arbitrary: p count rule: less_induct)
  case less
  show ?case
  proof (cases "p < e \<and> p + 4 \<le> e")
    case False
    then show ?thesis by (subst bundle_elements.simps) auto
  next
    case True
    show ?thesis
    proof (cases "ToUInt32 mem p")
      case (Inr n)
      show ?thesis
      proof (cases "n AND 3 = 0 \<and> p + unat (4 + n) \<le> e")
        case cont: True
        have "n \<noteq> stuck_size" using less.prems True Inr by auto
        with cont have sz: "unat (4 + n) = 4 + unat n" by (intro step_size) auto
        have "4 dvd unat n" using cont by (simp add: and_3_dvd32)
        then have later: "\<forall>q. p + (4 + unat n) \<le> q \<and> q + 4 \<le> e \<and> 4 dvd q - (p + (4 + unat n)) \<longrightarrow>
            ToUInt32 mem q \<noteq> Inr stuck_size"
        proof (intro allI impI)
          fix q assume q: "p + (4 + unat n) \<le> q \<and> q + 4 \<le> e \<and> 4 dvd q - (p + (4 + unat n))"
          then have "q - p = (q - (p + (4 + unat n))) + (4 + unat n)" by simp
          then have "4 dvd q - p" using q \<open>4 dvd unat n\<close> by (metis dvd_add dvd_refl)
          then show "ToUInt32 mem q \<noteq> Inr stuck_size" using less.prems q by simp
        qed
        have "e - (p + (4 + unat n)) < e - p" using True by linarith
        from less.hyps [OF this later] obtain r
          where "bundle_elements mem e (p + (4 + unat n)) (count + 1) = Some r" by blast
        with True Inr cont sz show ?thesis by (subst bundle_elements.simps) (auto simp: Let_def)
      qed (use True Inr in \<open>subst bundle_elements.simps, auto simp: Let_def\<close>)
    qed (use True in \<open>subst bundle_elements.simps, auto\<close>)
  qed
qed

section \<open>The elements of an accepted bundle\<close>

text \<open>\<open>n\<close> elements, each with its size slot and its contents inside \<open>[p, e)\<close>, fill it exactly.\<close>

fun elements_fill :: "bytes \<Rightarrow> nat \<Rightarrow> nat \<Rightarrow> nat \<Rightarrow> bool" where
  "elements_fill mem e p 0 = (p = e)"
| "elements_fill mem e p (Suc n) =
     (p + 4 \<le> e \<and>
      (case ToUInt32 mem p of
         Inl err \<Rightarrow> False
       | Inr sz \<Rightarrow> 4 dvd unat sz \<and> p + 4 + unat sz \<le> e \<and> elements_fill mem e (p + 4 + unat sz) n))"

lemma bundle_elements_step:
  assumes "bundle_elements mem e p count = Some (Inr cnt)" and "p < e"
  obtains n where "p + 4 \<le> e" and "ToUInt32 mem p = Inr n" and "4 dvd unat n"
    and "p + 4 + unat n \<le> e"
    and "bundle_elements mem e (p + 4 + unat n) (count + 1) = Some (Inr cnt)"
proof -
  from assms obtain n where n: "p + 4 \<le> e" "ToUInt32 mem p = Inr n" "n AND 3 = 0"
    "p + unat (4 + n) \<le> e" "bundle_elements mem e (p + unat (4 + n)) (count + 1) = Some (Inr cnt)"
    by (subst (asm) bundle_elements.simps) (auto simp: Let_def split: if_splits sum.splits)
  then have "n \<noteq> stuck_size" using bundle_elements_stuck_result [OF assms(1)] by auto
  with n step_size [of n] show ?thesis by (intro that) (auto simp: and_3_dvd32 add.assoc)
qed

lemma bundle_elements_fill:
  assumes "bundle_elements mem e p count = Some (Inr cnt)" and "p \<le> e"
  shows "count \<le> cnt \<and> elements_fill mem e p (cnt - count)"
  using assms
proof (induction "e - p" arbitrary: p count rule: less_induct)
  case less
  show ?case
  proof (cases "p < e")
    case False
    with less.prems show ?thesis by (subst (asm) bundle_elements.simps) auto
  next
    case True
    then obtain n where n: "p + 4 \<le> e" "ToUInt32 mem p = Inr n" "4 dvd unat n" "p + 4 + unat n \<le> e"
      "bundle_elements mem e (p + 4 + unat n) (count + 1) = Some (Inr cnt)"
      using bundle_elements_step [OF less.prems(1)] by blast
    have ih: "count + 1 \<le> cnt \<and> elements_fill mem e (p + 4 + unat n) (cnt - (count + 1))"
      using n True by (intro less.hyps) auto
    then have "cnt - count = Suc (cnt - (count + 1))" by linarith
    then obtain k where "cnt - count = Suc k" and "cnt - (count + 1) = k" by blast
    with n ih show ?thesis by simp
  qed
qed

lemma sint_small: "unat (w :: 32 word) < 2 ^ 31 \<Longrightarrow> sint w = int (unat w)"
proof -
  assume w: "unat w < 2 ^ 31"
  have "sint w = (uint w + 2 ^ 31) mod 2 ^ 32 - 2 ^ 31"
    using int_word_sint [where 'a = 32, of "uint w"] by simp
  also have "(uint w + 2 ^ 31) mod 2 ^ 32 = uint w + 2 ^ 31"
  proof (rule mod_pos_pos_trivial)
    have "int (unat w) < int (2 ^ 31)" using w by (simp only: of_nat_less_iff)
    then show "uint w + 2 ^ 31 < 2 ^ 32" by simp
  qed simp
  finally show ?thesis by simp
qed

text \<open>\<^verbatim>\<open>Advance\<close> moves from one element to the next, and to \<^verbatim>\<open>ElementsEnd()\<close> after the last one.\<close>

lemma elements_fill_Advance:
  assumes "elements_fill mem e p (Suc n)" and "e < 2 ^ 31"
  shows "\<exists>q. Element_Advance mem p = Inr q \<and> elements_fill mem e q n \<and> p < q \<and> q \<le> e"
proof -
  from assms(1) obtain sz where sz: "ToUInt32 mem p = Inr sz" "p + 4 + unat sz \<le> e"
    "elements_fill mem e (p + 4 + unat sz) n" by (auto split: sum.splits)
  then have "sint sz = int (unat sz)" using assms(2) by (intro sint_small) simp
  then have "int (Element_Contents p) + sint sz = int (p + 4 + unat sz)"
    by (simp only: Element_Contents_def of_nat_add)
  then have "Element_Advance mem p = Inr (p + 4 + unat sz)"
    using sz(1) by (simp only: Element_Advance_def Element_Size_def ebind.simps Let_def nat_int
        of_nat_less_0_iff if_False)
  with sz show ?thesis by auto
qed

section \<open>The whole constructor\<close>

lemma differs_at_iff:
  "p + length xs \<le> length mem \<Longrightarrow> differs_at mem p xs = Inr (\<not> mem_at mem p xs)"
  by (induction xs arbitrary: p) (auto simp: load_byte_def mem_at_Cons)

lemma length_magic: "length (bytes_of ''#bundle'' @ [0]) = 8"
  by simp

text \<open>
  An accepted bundle: the header stands at its start, and the elements fill the rest of it.
\<close>

lemma Bundle_Init_accepts:
  assumes "Bundle_Init mem bundle sz = Some (Inr b)" and "bundle + unat sz \<le> length mem"
  shows "received_bundle.timeTag b = bundle + 8" and "bundle_end b = bundle + unat sz"
    and "mem_at mem bundle (bytes_of ''#bundle'' @ [0])" and "16 \<le> unat sz"
    and "elements_fill mem (bundle + unat sz) (ElementsBegin b) (elementCount b)"
proof -
  from assms have sz: "\<not> sz < 16" by (auto simp: Bundle_Init_def)
  then show le: "16 \<le> unat sz" by (simp add: word_less_nat_alt)
  have d: "differs_at mem bundle (bytes_of ''#bundle'' @ [0]) =
      Inr (\<not> mem_at mem bundle (bytes_of ''#bundle'' @ [0]))"
    using le assms(2) by (intro differs_at_iff) (simp only: length_magic)
  with assms(1) sz show m: "mem_at mem bundle (bytes_of ''#bundle'' @ [0])"
    by (auto simp: Bundle_Init_def split: if_splits bool.splits)
  from assms(1) sz d m obtain cnt where
    e: "bundle_elements mem (bundle + unat sz) (bundle + 8 + 8) 0 = Some (Inr cnt)"
    and b: "b = \<lparr>received_bundle.timeTag = bundle + 8, bundle_end = bundle + unat sz, elementCount = cnt\<rparr>"
    by (auto simp: Bundle_Init_def Let_def split: if_splits option.splits sum.splits)
  show "received_bundle.timeTag b = bundle + 8" "bundle_end b = bundle + unat sz" using b by simp_all
  have "bundle + 8 + 8 \<le> bundle + unat sz" using le by simp
  from bundle_elements_fill [OF e this]
  show "elements_fill mem (bundle + unat sz) (ElementsBegin b) (elementCount b)"
    by (simp add: b ElementsBegin_def)
qed

lemma Bundle_Init_returns:
  assumes "\<forall>q. bundle \<le> q \<and> q + 4 \<le> bundle + unat sz \<and> 4 dvd q - bundle \<longrightarrow>
    ToUInt32 mem q \<noteq> Inr stuck_size"
  shows "\<exists>r. Bundle_Init mem bundle sz = Some r"
proof -
  have "\<exists>r. bundle_elements mem (bundle + unat sz) (bundle + 8 + 8) 0 = Some r"
  proof (rule bundle_elements_returns, intro allI impI)
    fix q assume q: "bundle + 8 + 8 \<le> q \<and> q + 4 \<le> bundle + unat sz \<and> 4 dvd q - (bundle + 8 + 8)"
    then have "q - bundle = (q - (bundle + 8 + 8)) + 16" by simp
    moreover have "4 dvd (q - (bundle + 8 + 8)) + 16" using q by (intro dvd_add) auto
    ultimately have "4 dvd q - bundle" by (simp only:)
    with assms q show "ToUInt32 mem q \<noteq> Inr stuck_size" by auto
  qed
  then show ?thesis
    by (auto simp: Bundle_Init_def Let_def split: sum.splits bool.splits)
qed

text \<open>A well-formed bundle whose first element claims the size \<open>stuck_size\<close>: no result.\<close>

lemma Bundle_Init_hangs:
  assumes "mem_at mem bundle (bundle_header t)" and "20 \<le> unat sz" and "sz AND 3 = 0"
    and "ToUInt32 mem (bundle + 16) = Inr stuck_size"
  shows "Bundle_Init mem bundle sz = None"
proof -
  have m: "mem_at mem bundle (bytes_of ''#bundle'' @ [0])"
    using assms(1) by (simp only: bundle_header_split mem_at_append)
  then have d: "differs_at mem bundle (bytes_of ''#bundle'' @ [0]) = Inr False"
    using differs_at_iff [of "bundle" "bytes_of ''#bundle'' @ [0]" mem] mem_at_bound [OF m] by simp
  have "bundle_elements mem (bundle + unat sz) (bundle + 8 + 8) 0 = None"
  proof (cases "bundle_elements mem (bundle + unat sz) (bundle + 8 + 8) 0")
    case (Some r)
    have "bundle + 8 + 8 + 4 \<le> bundle + unat sz" using assms(2) by simp
    from bundle_elements_stuck_result [OF Some this] assms(4) show ?thesis by (simp add: add.commute)
  qed
  moreover have "\<not> sz < 16" using assms(2) by (simp add: word_less_nat_alt)
  ultimately show ?thesis using d assms(3) by (simp add: Bundle_Init_def Let_def)
qed

section \<open>Bundles in the wire format\<close>

lemma concat_elements_dvd:
  "\<forall>x\<in>set es. 4 dvd length x \<Longrightarrow> 4 dvd length (concat (map enc_element es))"
  by (induction es) (auto intro!: dvd_add)

lemma bundle_elements_at:
  "mem_at mem p (concat (map enc_element es)) \<Longrightarrow> \<forall>x\<in>set es. 4 dvd length x \<Longrightarrow>
   e = p + length (concat (map enc_element es)) \<Longrightarrow> e < 2 ^ 31 \<Longrightarrow>
   bundle_elements mem e p count = Some (Inr (count + length es))"
proof (induction es arbitrary: p count)
  case Nil
  then show ?case by (subst bundle_elements.simps) simp
next
  case (Cons x es)
  let ?n = "of_nat (length x) :: uint32"
  have len: "length x < 2 ^ 31" using Cons.prems(3,4) by simp
  then have un: "unat ?n = length x" by (simp add: unat_of_nat_small)
  have load: "ToUInt32 mem p = Inr ?n"
    using Cons.prems(1) by (intro uint32_codec.dec_at) (simp add: mem_at_append enc_element_def)
  have "?n AND 3 = 0" using Cons.prems(2) by (simp add: and_3_dvd32 un)
  moreover have "?n \<noteq> stuck_size"
  proof
    assume "?n = stuck_size"
    then have "length x = unat stuck_size" using un by simp
    then show False using len by (simp add: stuck_size_def)
  qed
  ultimately have sz: "?n AND 3 = 0" "unat (4 + ?n) = 4 + length x"
    using step_size [of ?n] un by auto
  have "bundle_elements mem e (p + (4 + length x)) (count + 1) = Some (Inr (count + 1 + length es))"
    using Cons.prems by (intro Cons.IH) (auto simp: mem_at_append add.assoc)
  then show ?case
    using load sz Cons.prems(3) by (subst bundle_elements.simps) (simp add: Let_def)
qed

definition enc_bundle :: "uint64 \<Rightarrow> bytes list \<Rightarrow> bytes" where
  "enc_bundle t es = bundle_header t @ concat (map enc_element es)"

lemma length_enc_bundle: "length (enc_bundle t es) = 16 + length (concat (map enc_element es))"
  by (simp add: enc_bundle_def)

lemma enc_bundle_dvd: "\<forall>x\<in>set es. 4 dvd length x \<Longrightarrow> 4 dvd length (enc_bundle t es)"
  using concat_elements_dvd [of es] by (simp add: length_enc_bundle)

lemma Bundle_Init_at:
  assumes mem: "mem_at mem p (enc_bundle t es)" and es: "\<forall>x\<in>set es. 4 dvd length x"
    and sz: "unat sz = length (enc_bundle t es)" and small: "p + length (enc_bundle t es) < 2 ^ 31"
  shows "Bundle_Init mem p sz =
      Some (Inr \<lparr>received_bundle.timeTag = p + 8, bundle_end = p + unat sz, elementCount = length es\<rparr>)"
    and "ToUInt64 mem (p + 8) = Inr t"
    and "elements_fill mem (p + unat sz) (p + 16) (length es)"
proof -
  have at: "mem_at mem p (bytes_of ''#bundle'' @ [0])" "mem_at mem (p + 8) (FromUInt64 t)"
    "mem_at mem (p + 16) (concat (map enc_element es))"
  proof -
    from mem have "mem_at mem p ((bytes_of ''#bundle'' @ [0]) @ FromUInt64 t @ concat (map enc_element es))"
      by (simp only: enc_bundle_def bundle_header_split append_assoc)
    then show "mem_at mem p (bytes_of ''#bundle'' @ [0])" "mem_at mem (p + 8) (FromUInt64 t)"
      "mem_at mem (p + 16) (concat (map enc_element es))"
      by (simp_all only: mem_at_append length_magic codec_lengths) (simp add: add.assoc)
  qed
  show "ToUInt64 mem (p + 8) = Inr t" by (rule uint64_codec.dec_at [OF at(2)])
  have "differs_at mem p (bytes_of ''#bundle'' @ [0]) = Inr False"
    using differs_at_iff [of p "bytes_of ''#bundle'' @ [0]" mem] mem_at_bound [OF at(1)] at(1) by simp
  moreover have "\<not> sz < 16" "sz AND 3 = 0"
    using sz enc_bundle_dvd [OF es, of t] by (auto simp: word_less_nat_alt and_3_dvd length_enc_bundle)
  moreover have e: "bundle_elements mem (p + unat sz) (p + 16) 0 = Some (Inr (length es))"
    using bundle_elements_at [OF at(3) es _ _, of "p + unat sz" 0] sz small
    by (simp add: length_enc_bundle)
  ultimately show "Bundle_Init mem p sz =
      Some (Inr \<lparr>received_bundle.timeTag = p + 8, bundle_end = p + unat sz, elementCount = length es\<rparr>)"
    by (simp add: Bundle_Init_def Let_def add.assoc)
  show "elements_fill mem (p + unat sz) (p + 16) (length es)"
    using bundle_elements_fill [OF e] sz by (simp add: length_enc_bundle)
qed

end
