(* ===== verification/OscPacketListener.thy ===== *)
theory OscPacketListener
  imports OscBundleSpec
begin

text \<open>
  \<^verbatim>\<open>product/source/osc/OscPacketListener.h\<close>: the walk over a received packet.  The virtual function
  \<^verbatim>\<open>ProcessMessage\<close> is the parameter \<open>pm\<close> of the walk, a function on the state of the derived
  class that may throw.  \<^verbatim>\<open>ProcessBundle\<close> calls itself on nested bundles and the constructor of
  \<^verbatim>\<open>ReceivedBundle\<close> may not return, so the walk has an optional result.
\<close>

section \<open>The walk\<close>

type_synonym 's handler = "received_message \<Rightarrow> 's \<Rightarrow> 's \<times> osc_error option"

text \<open>
  The loop of \<^verbatim>\<open>ProcessBundle\<close> from the element at \<open>p\<close> to \<open>e\<close>: what was processed before an
  exception stays processed.
\<close>

partial_function (option) process_elements ::
    "bytes \<Rightarrow> 's handler \<Rightarrow> nat \<Rightarrow> nat \<Rightarrow> 's \<Rightarrow> ('s \<times> osc_error option) option" where
  "process_elements mem pm p e s =
     (if p = e then Some (s, None)
      else
        case Element_IsBundle mem p of
          Inl err \<Rightarrow> Some (s, Some err)
        | Inr is_bundle \<Rightarrow>
            Option.bind
              (if is_bundle then
                 case ReceivedBundle_element mem p of
                   None \<Rightarrow> None
                 | Some (Inl err) \<Rightarrow> Some (s, Some err)
                 | Some (Inr b) \<Rightarrow> process_elements mem pm (ElementsBegin b) (ElementsEnd b) s
               else
                 case ReceivedMessage_element mem p of
                   Inl err \<Rightarrow> Some (s, Some err)
                 | Inr m \<Rightarrow> Some (pm m s))
              (\<lambda>(s', thrown).
                case thrown of
                  Some err \<Rightarrow> Some (s', Some err)
                | None \<Rightarrow>
                    case Element_Advance mem p of
                      Inl err \<Rightarrow> Some (s', Some err)
                    | Inr q \<Rightarrow> process_elements mem pm q e s'))"

definition ProcessBundle ::
    "bytes \<Rightarrow> 's handler \<Rightarrow> received_bundle \<Rightarrow> 's \<Rightarrow> ('s \<times> osc_error option) option" where
  "ProcessBundle mem pm b s = process_elements mem pm (ElementsBegin b) (ElementsEnd b) s"

text \<open>The packet is the whole of \<open>data\<close>; \<^verbatim>\<open>size\<close> is its number of bytes.\<close>

definition ProcessPacket ::
    "bytes \<Rightarrow> int32 \<Rightarrow> 's handler \<Rightarrow> 's \<Rightarrow> ('s \<times> osc_error option) option" where
  "ProcessPacket data sz pm s =
     (let p = \<lparr>contents = 0, packet_size = sz\<rparr> in
      case ReceivedPacket_IsBundle data p of
        Inl err \<Rightarrow> Some (s, Some err)
      | Inr True \<Rightarrow>
          (case ReceivedBundle_packet data p of
             None \<Rightarrow> None
           | Some (Inl err) \<Rightarrow> Some (s, Some err)
           | Some (Inr b) \<Rightarrow> ProcessBundle data pm b s)
      | Inr False \<Rightarrow>
          (case ReceivedMessage_packet data p of
             Inl err \<Rightarrow> Some (s, Some err)
           | Inr m \<Rightarrow> Some (pm m s)))"

end
