(* ===== verification/OscWalkSpec.thy ===== *)
theory OscWalkSpec
  imports OscPacketListener
begin

text \<open>
  What the walk over a packet guarantees.  On a packet in the wire format it hands every message,
  depth first and in order, to a handler that keeps its contract (the locale \<open>message_sink\<close>).  On
  any packet without the element size \<open>stuck_size\<close> it returns, and it leaves the packet only when
  some message in it has a blob among its type tags.
\<close>

section \<open>Packets as trees\<close>

datatype packet_tree =
    TMessage bytes "osc_value list"
  | TBundle uint64 "packet_tree list"

fun enc_tree :: "packet_tree \<Rightarrow> bytes" where
  "enc_tree (TMessage addr vs) = enc_message addr vs"
| "enc_tree (TBundle t ks) = enc_bundle t (map enc_tree ks)"

fun leaves :: "packet_tree \<Rightarrow> (bytes \<times> osc_value list) list" where
  "leaves (TMessage addr vs) = [(addr, vs)]"
| "leaves (TBundle t ks) = concat (map leaves ks)"

text \<open>No NUL inside a string; an address that does not look like a bundle.\<close>

fun wire_tree :: "packet_tree \<Rightarrow> bool" where
  "wire_tree (TMessage addr vs) \<longleftrightarrow>
     0 \<notin> set addr \<and> (addr = [] \<or> hd addr \<noteq> byte_of (CHR ''#'')) \<and> list_all wire_value vs"
| "wire_tree (TBundle t ks) \<longleftrightarrow> list_all wire_tree ks"

lemma enc_tree_dvd: "4 dvd length (enc_tree k)"
proof (induction k)
  case (TBundle t ks)
  then have "\<forall>x\<in>set (map enc_tree ks). 4 dvd length x" by auto
  then show ?case by (simp add: enc_bundle_dvd)
qed (simp add: length_enc_message_dvd)

lemma enc_tree_pos: "0 < length (enc_tree k)"
  by (cases k) (auto simp: length_enc_bundle length_enc_message enc_str_def enc_pad_def)

lemma enc_message_first: "enc_message addr vs ! 0 = (if addr = [] then 0 else hd addr)"
  by (cases addr) (auto simp: enc_message_def enc_str_def enc_pad_def nth_append)

lemma enc_bundle_first: "enc_bundle t es ! 0 = byte_of (CHR ''#'')"
  by (simp add: enc_bundle_def bundle_header_def)

lemma scast_size:
  "n < 2 ^ 31 \<Longrightarrow> unat (scast (of_nat n :: 32 word) :: 64 word) = n"
proof -
  assume n: "n < 2 ^ 31"
  then have u: "unat (of_nat n :: 32 word) = n" by (simp add: unat_of_nat_small)
  then have "sint (of_nat n :: 32 word) = int n" using sint_small [of "of_nat n"] n by simp
  then have "(scast (of_nat n :: 32 word) :: 64 word) = of_nat n"
    by (simp add: signed_eq_0_iff scast_eq)
  then show ?thesis using n by (simp add: unat_of_nat_small)
qed

section \<open>An element of a bundle\<close>

lemma element_header:
  assumes mem: "mem_at mem p (enc_element x)" and len: "0 < length x" "length x < 2 ^ 31"
  shows "Element_Size mem p = Inr (of_nat (length x))" and "mem_at mem (p + 4) x"
    and "sint (of_nat (length x) :: 32 word) = int (length x)"
    and "Element_IsBundle mem p = Inr (x ! 0 = byte_of (CHR ''#''))"
    and "Element_Advance mem p = Inr (p + 4 + length x)"
proof -
  show s: "Element_Size mem p = Inr (of_nat (length x))"
    unfolding Element_Size_def using mem
    by (intro uint32_codec.dec_at) (simp add: enc_element_def mem_at_append)
  show at: "mem_at mem (p + 4) x" using mem by (simp add: enc_element_def mem_at_append)
  have u: "unat (of_nat (length x) :: 32 word) = length x" using len(2) by (simp add: unat_of_nat_small)
  show i: "sint (of_nat (length x) :: 32 word) = int (length x)"
    using sint_small [of "of_nat (length x)"] len(2) u by simp
  have "load_byte mem (p + 4) = Inr (x ! 0)" using load_byte_at [OF at, of 0] len by simp
  then show "Element_IsBundle mem p = Inr (x ! 0 = byte_of (CHR ''#''))"
    using s i len by (simp add: Element_IsBundle_def Element_Contents_def)
  have "int (Element_Contents p) + sint (of_nat (length x) :: 32 word) = int (p + 4 + length x)"
    unfolding i by (simp add: Element_Contents_def)
  then show "Element_Advance mem p = Inr (p + 4 + length x)"
    using s by (simp only: Element_Advance_def ebind.simps Let_def nat_int of_nat_less_0_iff if_False)
qed

text \<open>What the constructors make of an element, or of a whole packet, in the wire format.\<close>

lemma message_element_at:
  assumes mem: "mem_at mem p (enc_element (enc_message addr vs))" and len: "length (enc_message addr vs) < 2 ^ 31"
    and ok: "0 \<notin> set addr" "list_all wire_value vs"
  shows "ReceivedMessage_element mem p = Inr (parsed_message (p + 4) addr vs)"
proof -
  have pos: "0 < length (enc_message addr vs)" using enc_tree_pos [of "TMessage addr vs"] by simp
  note h = element_header [OF mem pos len]
  have "Message_Init mem (p + 4) (scast (of_nat (length (enc_message addr vs)) :: int32)) =
      Inr (parsed_message (p + 4) addr vs)"
    using h(2) ok scast_size [OF len] by (intro Message_Init_at) auto
  then show ?thesis using h(1) by (simp add: ReceivedMessage_element_def Element_Contents_def)
qed

lemma bundle_element_at:
  fixes t ks
  defines "x \<equiv> enc_tree (TBundle t ks)"
  assumes mem: "mem_at mem p (enc_element x)" and small: "p + length (enc_element x) < 2 ^ 31"
  shows "ReceivedBundle_element mem p =
      Some (Inr \<lparr>received_bundle.timeTag = p + 12, bundle_end = p + 4 + length x, elementCount = length ks\<rparr>)"
    and "mem_at mem (p + 20) (concat (map enc_element (map enc_tree ks)))"
    and "ToUInt64 mem (p + 12) = Inr t"
proof -
  have len: "0 < length x" "length x < 2 ^ 31" using enc_tree_pos [of "TBundle t ks"] small by (auto simp: x_def)
  note h = element_header [OF mem len]
  have at: "mem_at mem (p + 4) (enc_bundle t (map enc_tree ks))" using h(2) by (simp add: x_def)
  have dvd: "\<forall>x\<in>set (map enc_tree ks). 4 dvd length x" by (auto simp: enc_tree_dvd)
  have init: "unat (scast (of_nat (length x) :: int32) :: ulong) = length (enc_bundle t (map enc_tree ks))"
    "p + 4 + length (enc_bundle t (map enc_tree ks)) < 2 ^ 31"
    using scast_size [OF len(2)] small by (simp_all add: x_def)
  note b = Bundle_Init_at [OF at dvd init]
  from b(1) show "ReceivedBundle_element mem p =
      Some (Inr \<lparr>received_bundle.timeTag = p + 12, bundle_end = p + 4 + length x, elementCount = length ks\<rparr>)"
    using h(1) init(1) by (simp add: ReceivedBundle_element_def Element_Contents_def x_def)
  show "ToUInt64 mem (p + 12) = Inr t" using b(2) by (simp add: ac_simps)
  show "mem_at mem (p + 20) (concat (map enc_element (map enc_tree ks)))"
    using at by (simp add: enc_bundle_def mem_at_append add.commute)
qed

lemma message_packet_at:
  assumes "mem = enc_message addr vs" and "length mem < 2 ^ 31"
    and "0 \<notin> set addr" "list_all wire_value vs"
  shows "ReceivedMessage_packet mem \<lparr>contents = 0, packet_size = of_nat (length mem)\<rparr> =
    Inr (parsed_message 0 addr vs)"
  using assms scast_size [OF assms(2)] by (simp add: ReceivedMessage_packet_def Message_Init_at)

lemma bundle_packet_at:
  assumes mem: "mem = enc_tree (TBundle t ks)" and small: "length mem < 2 ^ 31"
  shows "ReceivedBundle_packet mem \<lparr>contents = 0, packet_size = of_nat (length mem)\<rparr> =
      Some (Inr \<lparr>received_bundle.timeTag = 8, bundle_end = length mem, elementCount = length ks\<rparr>)"
    and "mem_at mem 16 (concat (map enc_element (map enc_tree ks)))"
    and "ToUInt64 mem 8 = Inr t" and "length mem = 16 + length (concat (map enc_element (map enc_tree ks)))"
proof -
  have at: "mem_at mem 0 (enc_bundle t (map enc_tree ks))" using mem by simp
  have dvd: "\<forall>x\<in>set (map enc_tree ks). 4 dvd length x" by (auto simp: enc_tree_dvd)
  have len: "length mem = length (enc_bundle t (map enc_tree ks))" using mem by simp
  have sc: "unat (scast (of_nat (length mem) :: int32) :: ulong) = length (enc_bundle t (map enc_tree ks))"
    using scast_size [OF small] len by simp
  note b = Bundle_Init_at [OF at dvd sc]
  show "ReceivedBundle_packet mem \<lparr>contents = 0, packet_size = of_nat (length mem)\<rparr> =
      Some (Inr \<lparr>received_bundle.timeTag = 8, bundle_end = length mem, elementCount = length ks\<rparr>)"
    using b(1) sc len small by (simp add: ReceivedBundle_packet_def)
  show "mem_at mem 16 (concat (map enc_element (map enc_tree ks)))"
    using at by (simp add: enc_bundle_def mem_at_append)
  show "ToUInt64 mem 8 = Inr t" using b(2) len small by simp
  show "length mem = 16 + length (concat (map enc_element (map enc_tree ks)))"
    using len by (simp add: length_enc_bundle)
qed

lemma packet_is_bundle:
  assumes "0 < length mem" and "length mem < 2 ^ 31"
  shows "ReceivedPacket_IsBundle mem \<lparr>contents = 0, packet_size = of_nat (length mem)\<rparr> =
    Inr (mem ! 0 = byte_of (CHR ''#''))"
proof -
  have u: "unat (of_nat (length mem) :: int32) = length mem" using assms(2) by (simp add: unat_of_nat_small)
  have "sint (of_nat (length mem) :: int32) = int (length mem)"
    using sint_small [of "of_nat (length mem)"] assms(2) u by simp
  then show ?thesis using assms(1) by (simp add: ReceivedPacket_IsBundle_def load_byte_def)
qed

section \<open>The contract of a message handler\<close>

locale message_sink =
  fixes mem :: bytes
    and pm :: "'s handler"
    and deliver :: "bytes \<Rightarrow> osc_value list \<Rightarrow> 's \<Rightarrow> 's"
    and accepts :: "bytes \<Rightarrow> osc_value list \<Rightarrow> bool"
  assumes pm_deliver:
    "mem_at mem p (enc_message addr vs) \<Longrightarrow> 0 \<notin> set addr \<Longrightarrow> list_all wire_value vs \<Longrightarrow>
     accepts addr vs \<Longrightarrow> pm (parsed_message p addr vs) s = (deliver addr vs s, None)"
begin

definition deliver_all :: "(bytes \<times> osc_value list) list \<Rightarrow> 's \<Rightarrow> 's" where
  "deliver_all ms s = fold (\<lambda>(addr, vs). deliver addr vs) ms s"

lemma deliver_all_simps [simp]:
  "deliver_all [] s = s"
  "deliver_all ((addr, vs) # ms) s = deliver_all ms (deliver addr vs s)"
  "deliver_all (ms @ ns) s = deliver_all ns (deliver_all ms s)"
  by (simp_all add: deliver_all_def)

definition sound_tree :: "packet_tree \<Rightarrow> bool" where
  "sound_tree k \<longleftrightarrow> wire_tree k \<and> (\<forall>(addr, vs)\<in>set (leaves k). accepts addr vs)"

lemma sound_TBundle: "sound_tree (TBundle t ks) \<longleftrightarrow> (\<forall>k\<in>set ks. sound_tree k)"
  by (auto simp: sound_tree_def list_all_iff)

lemma walk_list:
  assumes one: "\<And>k p e s. k \<in> set ks \<Longrightarrow> mem_at mem p (enc_element (enc_tree k)) \<Longrightarrow>
      p + length (enc_element (enc_tree k)) < 2 ^ 31 \<Longrightarrow> p \<noteq> e \<Longrightarrow>
      process_elements mem pm p e s =
        process_elements mem pm (p + length (enc_element (enc_tree k))) e (deliver_all (leaves k) s)"
    and at: "mem_at mem p (concat (map enc_element (map enc_tree ks)))"
    and e: "e = p + length (concat (map enc_element (map enc_tree ks)))" "e < 2 ^ 31"
  shows "process_elements mem pm p e s = Some (deliver_all (concat (map leaves ks)) s, None)"
  using one at e
proof (induction ks arbitrary: p s)
  case Nil
  then show ?case by (subst process_elements.simps) simp
next
  case (Cons k ks)
  let ?x = "enc_element (enc_tree k)"
  have "process_elements mem pm p e s =
      process_elements mem pm (p + length ?x) e (deliver_all (leaves k) s)"
    using Cons.prems by (intro Cons.prems(1)) (auto simp: mem_at_append)
  also have "\<dots> = Some (deliver_all (concat (map leaves ks)) (deliver_all (leaves k) s), None)"
    using Cons.prems by (intro Cons.IH) (auto simp: mem_at_append add.assoc)
  finally show ?case by simp
qed

lemma walk_element:
  "mem_at mem p (enc_element (enc_tree k)) \<Longrightarrow> sound_tree k \<Longrightarrow>
   p + length (enc_element (enc_tree k)) < 2 ^ 31 \<Longrightarrow> p \<noteq> e \<Longrightarrow>
   process_elements mem pm p e s =
     process_elements mem pm (p + length (enc_element (enc_tree k))) e (deliver_all (leaves k) s)"
proof (induction k arbitrary: p e s)
  case (TMessage addr vs)
  let ?x = "enc_message addr vs"
  have at: "mem_at mem p (enc_element ?x)" and len: "0 < length ?x" "length ?x < 2 ^ 31"
    using TMessage.prems(1,3) enc_tree_pos [of "TMessage addr vs"] by auto
  note h = element_header [OF at len]
  have ok: "0 \<notin> set addr" "list_all wire_value vs" "accepts addr vs"
    and hash: "?x ! 0 \<noteq> byte_of (CHR ''#'')"
    using TMessage.prems(2) by (auto simp: sound_tree_def enc_message_first byte_of_values)
  show ?case
    using TMessage.prems(4) h(4,5) hash pm_deliver [OF h(2) ok, of s] message_element_at [OF at len(2) ok(1,2)]
    by (subst process_elements.simps) (simp add: add.assoc)
next
  case (TBundle t ks)
  let ?x = "enc_tree (TBundle t ks)"
  have len: "0 < length ?x" "length ?x < 2 ^ 31" using TBundle.prems(3) enc_tree_pos [of "TBundle t ks"] by auto
  note h = element_header [OF TBundle.prems(1) len] and b = bundle_element_at [OF TBundle.prems(1,3)]
  have "process_elements mem pm (p + 20) (p + 4 + length ?x) s =
      Some (deliver_all (concat (map leaves ks)) s, None)"
  proof (rule walk_list [OF _ b(2)])
    fix k p e s assume k: "k \<in> set ks" "mem_at mem p (enc_element (enc_tree k))"
      "p + length (enc_element (enc_tree k)) < 2 ^ 31" "p \<noteq> e"
    then show "process_elements mem pm p e s = process_elements mem pm
        (p + length (enc_element (enc_tree k))) e (deliver_all (leaves k) s)"
      using TBundle.prems(2) by (intro TBundle.IH) (auto simp: sound_TBundle)
  qed (use TBundle.prems(3) in \<open>auto simp: length_enc_bundle\<close>)
  then show ?case
    using TBundle.prems(4) h(4,5) b(1) enc_bundle_first [of t "map enc_tree ks"]
    by (subst process_elements.simps) (simp add: ElementsBegin_def ElementsEnd_def add.assoc)
qed

text \<open>The whole packet: its messages are delivered in order and nothing is thrown.\<close>

lemma process_tree:
  assumes mem: "mem = enc_tree k" and k: "sound_tree k" and small: "length mem < 2 ^ 31"
    and sz: "sz = of_nat (length mem)"
  shows "ProcessPacket mem sz pm s = Some (deliver_all (leaves k) s, None)"
proof -
  have pos: "0 < length mem" using enc_tree_pos mem by simp
  note first = packet_is_bundle [OF pos small]
  show ?thesis
  proof (cases k)
    case (TMessage addr vs)
    have ok: "0 \<notin> set addr" "list_all wire_value vs" "accepts addr vs"
      and hash: "mem ! 0 \<noteq> byte_of (CHR ''#'')"
      using k TMessage mem by (auto simp: sound_tree_def enc_message_first byte_of_values)
    have m: "mem = enc_message addr vs" using mem TMessage by simp
    have at: "mem_at mem 0 (enc_message addr vs)" using m by simp
    show ?thesis
      using first hash pm_deliver [OF at ok, of s] message_packet_at [OF m small ok(1,2)]
      by (simp add: ProcessPacket_def Let_def sz TMessage)
  next
    case (TBundle t ks)
    note b = bundle_packet_at [OF mem [unfolded TBundle] small]
    have "process_elements mem pm 16 (length mem) s = Some (deliver_all (concat (map leaves ks)) s, None)"
    proof (rule walk_list [OF _ b(2,4) small])
      fix ka p e s assume "ka \<in> set ks" "mem_at mem p (enc_element (enc_tree ka))"
        "p + length (enc_element (enc_tree ka)) < 2 ^ 31" "p \<noteq> e"
      then show "process_elements mem pm p e s = process_elements mem pm
          (p + length (enc_element (enc_tree ka))) e (deliver_all (leaves ka) s)"
        using k TBundle by (intro walk_element) (auto simp: sound_TBundle)
    qed
    moreover have "mem ! 0 = byte_of (CHR ''#'')" using mem TBundle by (simp add: enc_bundle_first)
    ultimately show ?thesis
      using first TBundle b(1)
      by (simp add: ProcessPacket_def ProcessBundle_def Let_def ElementsBegin_def ElementsEnd_def sz)
  qed
qed

end

section \<open>Any packet at all\<close>

definition no_stuck :: "bytes \<Rightarrow> bool" where
  "no_stuck mem \<longleftrightarrow> (\<forall>q. q + 4 \<le> length mem \<and> 4 dvd q \<longrightarrow> ToUInt32 mem q \<noteq> Inr stuck_size)"

text \<open>Some region of the packet would, parsed as a message, have a blob among its type tags.\<close>

definition blob_message :: "bytes \<Rightarrow> bool" where
  "blob_message mem \<longleftrightarrow>
     (\<exists>p sz. p + unat sz \<le> length mem \<and> BLOB_TYPE_TAG \<in> set (type_tag_string mem p sz))"

definition walk_ok :: "bytes \<Rightarrow> ('s \<times> osc_error option) option \<Rightarrow> bool" where
  "walk_ok mem r \<longleftrightarrow> (\<exists>s' thrown. r = Some (s', thrown) \<and> (thrown = Some Fault \<longrightarrow> blob_message mem))"

lemma Message_Init_fault:
  assumes "p + unat sz \<le> length mem" and "Message_Init mem p sz = Inl Fault"
  shows "blob_message mem"
  using Message_Init_safe [OF assms(1)] assms by (auto simp: init_ok_def blob_message_def)

lemma Bundle_Init_no_fault:
  assumes "bundle + unat sz \<le> length mem" and "Bundle_Init mem bundle sz = Some (Inl err)"
  shows "err \<noteq> Fault"
proof -
  have e: "err \<noteq> Fault" if "bundle_elements mem e p count = Some (Inl err)" "e \<le> length mem" for e p count
  proof -
    have "e \<le> length mem \<longrightarrow> Inl err = r \<longrightarrow> err \<noteq> Fault" if "bundle_elements mem e p count = Some r" for r
      using that
      by (rule bundle_elements.raw_induct
          [where P = "\<lambda>mem e p count r. e \<le> length mem \<longrightarrow> Inl err = r \<longrightarrow> err \<noteq> Fault", rotated])
        (auto simp: Let_def uint32_codec.dec_Inl_iff split: if_splits sum.splits)
    with that show ?thesis by blast
  qed
  show ?thesis
  proof (cases "sz < 16")
    case True
    then show ?thesis using assms by (auto simp: Bundle_Init_def)
  next
    case False
    then have "differs_at mem bundle (bytes_of ''#bundle'' @ [0]) =
        Inr (\<not> mem_at mem bundle (bytes_of ''#bundle'' @ [0]))"
      using assms(1) by (intro differs_at_iff) (simp only: length_magic word_less_nat_alt, simp)
    with False assms e show ?thesis
      by (auto simp: Bundle_Init_def Let_def split: if_splits bool.splits option.splits sum.splits)
  qed
qed

text \<open>A handler that faults at most on the messages of a packet with blobs.\<close>

definition handler_ok :: "bytes \<Rightarrow> 's handler \<Rightarrow> bool" where
  "handler_ok mem pm \<longleftrightarrow>
     (\<forall>p sz m s. p + unat sz \<le> length mem \<longrightarrow> Message_Init mem p sz = Inr m \<longrightarrow>
        snd (pm m s) = Some Fault \<longrightarrow> blob_message mem)"

lemma handler_okD:
  "handler_ok mem pm \<Longrightarrow> p + unat sz \<le> length mem \<Longrightarrow> Message_Init mem p sz = Inr m \<Longrightarrow>
   pm m s = (a, Some Fault) \<Longrightarrow> blob_message mem"
  unfolding handler_ok_def by (metis snd_conv)

lemma scast_small: "unat (sz :: int32) < 2 ^ 31 \<Longrightarrow> unat (scast sz :: ulong) = unat sz"
  using scast_size [of "unat sz"] by simp

lemma Message_step:
  assumes "handler_ok mem pm" and "p + 4 + unat sz \<le> length mem" and "unat sz < 2 ^ 31"
    and "ToUInt32 mem p = Inr sz"
  shows "walk_ok mem (case ReceivedMessage_element mem p of Inl err \<Rightarrow> Some (s, Some err) | Inr m \<Rightarrow> Some (pm m s))"
proof -
  have le: "(p + 4) + unat (scast sz :: ulong) \<le> length mem" using assms by (simp add: scast_small)
  have r: "ReceivedMessage_element mem p = Message_Init mem (p + 4) (scast sz)"
    using assms(4) by (simp add: ReceivedMessage_element_def Element_Size_def Element_Contents_def)
  show ?thesis
  proof (cases "Message_Init mem (p + 4) (scast sz)")
    case (Inl err)
    with Message_Init_fault [OF le] r show ?thesis by (auto simp: walk_ok_def)
  next
    case (Inr m)
    with handler_okD [OF assms(1) le Inr] r show ?thesis
      by (cases "pm m s") (auto simp: walk_ok_def)
  qed
qed

lemma Bundle_step:
  assumes "no_stuck mem" and "4 dvd p" and "p + 4 + unat sz \<le> length mem" and "unat sz < 2 ^ 31"
    and "ToUInt32 mem p = Inr sz"
    and inner: "\<And>q n. elements_fill mem (p + 4 + unat sz) q n \<Longrightarrow> q = p + 20 \<Longrightarrow> q \<le> p + 4 + unat sz \<Longrightarrow>
      walk_ok mem (process_elements mem pm q (p + 4 + unat sz) s)"
  shows "walk_ok mem (case ReceivedBundle_element mem p of
      None \<Rightarrow> None | Some (Inl err) \<Rightarrow> Some (s, Some err)
    | Some (Inr b) \<Rightarrow> process_elements mem pm (ElementsBegin b) (ElementsEnd b) s)"
proof -
  let ?z = "scast sz :: ulong"
  have z: "unat ?z = unat sz" using assms(4) by (rule scast_small)
  have le: "(p + 4) + unat ?z \<le> length mem" using assms(3) z by simp
  have r: "ReceivedBundle_element mem p = Bundle_Init mem (p + 4) ?z"
    using assms(5) by (simp add: ReceivedBundle_element_def Element_Size_def Element_Contents_def)
  have "\<exists>r. Bundle_Init mem (p + 4) ?z = Some r"
  proof (rule Bundle_Init_returns, intro allI impI)
    fix q assume q: "p + 4 \<le> q \<and> q + 4 \<le> p + 4 + unat ?z \<and> 4 dvd q - (p + 4)"
    then have "q = (q - (p + 4)) + (p + 4)" by simp
    moreover have "4 dvd (q - (p + 4)) + (p + 4)" using q assms(2) by (intro dvd_add) auto
    ultimately have "4 dvd q" by simp
    then show "ToUInt32 mem q \<noteq> Inr stuck_size" using assms(1) q le by (auto simp: no_stuck_def)
  qed
  then obtain b where b: "Bundle_Init mem (p + 4) ?z = Some b" by blast
  show ?thesis
  proof (cases b)
    case (Inl err)
    with Bundle_Init_no_fault [OF le] b r show ?thesis by (auto simp: walk_ok_def)
  next
    case (Inr bd)
    note acc = Bundle_Init_accepts [OF b [unfolded Inr] le]
    have bounds: "ElementsBegin bd = p + 20" "ElementsEnd bd = p + 4 + unat sz"
      using acc(1,2) z by (simp_all add: ElementsBegin_def ElementsEnd_def)
    have "elements_fill mem (p + 4 + unat sz) (p + 20) (elementCount bd)" "p + 20 \<le> p + 4 + unat sz"
      using acc(4,5) bounds z by simp_all
    then show ?thesis using inner b Inr r bounds by simp
  qed
qed

lemma walk_safe:
  assumes "elements_fill mem e p n" and "p \<le> e" and "e \<le> length mem" and small: "length mem < 2 ^ 31"
    and "4 dvd p" and ns: "no_stuck mem" and pm: "handler_ok mem pm"
  shows "walk_ok mem (process_elements mem pm p e s)"
  using assms(1,2,3,5)
proof (induction "e - p" arbitrary: p e n s rule: less_induct)
  case less
  show ?case
  proof (cases n)
    case 0
    with less.prems show ?thesis by (subst process_elements.simps) (simp add: walk_ok_def)
  next
    case (Suc n')
    with less.prems(1) obtain sz where sz: "p + 4 \<le> e" "ToUInt32 mem p = Inr sz" "4 dvd unat sz"
      "p + 4 + unat sz \<le> e" "elements_fill mem e (p + 4 + unat sz) n'"
      by (auto split: sum.splits)
    have L: "unat sz < 2 ^ 31" "p + 4 + unat sz \<le> length mem" using sz less.prems small by auto
    have "\<exists>b. Element_IsBundle mem p = Inr b"
    proof (cases "0 < sint sz")
      case True
      then have "0 < unat sz" by (simp only: sint_small [OF L(1)] of_nat_0_less_iff)
      then have "p + 4 < length mem" using L(2) by linarith
      with True sz(2) show ?thesis
        by (simp add: Element_IsBundle_def Element_Size_def Element_Contents_def load_byte_def)
    qed (use sz(2) in \<open>auto simp: Element_IsBundle_def Element_Size_def\<close>)
    then obtain is_b where isb: "Element_IsBundle mem p = Inr is_b" by blast
    have adv: "Element_Advance mem p = Inr (p + 4 + unat sz)"
    proof -
      have "int (Element_Contents p) + sint sz = int (p + 4 + unat sz)"
        using sint_small [OF L(1)] by (simp only: Element_Contents_def of_nat_add)
      then show ?thesis
        using sz(2) by (simp only: Element_Advance_def Element_Size_def ebind.simps Let_def nat_int
            of_nat_less_0_iff if_False)
    qed
    let ?elem = "if is_b then
        case ReceivedBundle_element mem p of
          None \<Rightarrow> None | Some (Inl err) \<Rightarrow> Some (s, Some err)
        | Some (Inr b) \<Rightarrow> process_elements mem pm (ElementsBegin b) (ElementsEnd b) s
      else case ReceivedMessage_element mem p of Inl err \<Rightarrow> Some (s, Some err) | Inr m \<Rightarrow> Some (pm m s)"
    have "walk_ok mem ?elem"
    proof (cases is_b)
      case True
      have inner: "walk_ok mem (process_elements mem pm q (p + 4 + unat sz) s)"
        if "elements_fill mem (p + 4 + unat sz) q k" "q = p + 20" "q \<le> p + 4 + unat sz" for q k
        using that sz L less.prems(4) by (intro less.hyps [OF _ that(1)]) (auto intro: dvd_add)
      note Bundle_step [OF ns less.prems(4) L(2,1) sz(2) inner]
      with True show ?thesis by (simp only: if_True)
    next
      case False
      with Message_step [OF pm L(2,1) sz(2)] show ?thesis by simp
    qed
    then obtain s' thrown where el: "?elem = Some (s', thrown)" "thrown = Some Fault \<longrightarrow> blob_message mem"
      by (auto simp: walk_ok_def)
    have rest: "walk_ok mem (process_elements mem pm (p + 4 + unat sz) e s')"
      using sz less.prems by (intro less.hyps [OF _ sz(5)]) (auto intro!: dvd_add)
    have "process_elements mem pm p e s = (case thrown of Some err \<Rightarrow> Some (s', Some err)
        | None \<Rightarrow> process_elements mem pm (p + 4 + unat sz) e s')"
      using sz(1) isb adv el(1) by (subst process_elements.simps) (simp split: option.splits)
    then show ?thesis using el(2) rest by (auto simp: walk_ok_def split: option.splits)
  qed
qed

lemma ProcessPacket_safe:
  assumes small: "length mem < 2 ^ 31" and sz: "sz = of_nat (length mem)"
    and ns: "no_stuck mem" and pm: "handler_ok mem pm"
  shows "walk_ok mem (ProcessPacket mem sz pm s)"
proof -
  have u: "unat sz = length mem" using small sz by (simp add: unat_of_nat_small)
  then have i: "sint sz = int (length mem)" using sint_small [of sz] small by simp
  have sc: "unat (scast sz :: ulong) = length mem" using scast_size [OF small] sz by simp
  obtain is_b where isb: "ReceivedPacket_IsBundle mem \<lparr>contents = 0, packet_size = sz\<rparr> = Inr is_b"
    using i by (cases "mem = []") (auto simp: ReceivedPacket_IsBundle_def load_byte_def)
  show ?thesis
  proof (cases is_b)
    case True
    have "\<exists>r. Bundle_Init mem 0 (scast sz) = Some r"
      using ns sc by (intro Bundle_Init_returns) (auto simp: no_stuck_def)
    then obtain b where b: "Bundle_Init mem 0 (scast sz) = Some b" by blast
    show ?thesis
    proof (cases b)
      case (Inl err)
      with b Bundle_Init_no_fault [of 0 "scast sz" mem err] True isb sc show ?thesis
        by (auto simp: ProcessPacket_def ReceivedBundle_packet_def walk_ok_def)
    next
      case (Inr bd)
      have le: "0 + unat (scast sz :: ulong) \<le> length mem" using sc by simp
      note acc = Bundle_Init_accepts [OF b [unfolded Inr] le]
      have "walk_ok mem (process_elements mem pm (ElementsBegin bd) (ElementsEnd bd) s)"
        using acc sc small by (intro walk_safe [OF _ _ _ small _ ns pm])
          (auto simp: ElementsBegin_def ElementsEnd_def)
      with b Inr True isb show ?thesis
        by (simp add: ProcessPacket_def ReceivedBundle_packet_def ProcessBundle_def)
    qed
  next
    case False
    have le: "0 + unat (scast sz :: ulong) \<le> length mem" using sc by simp
    show ?thesis
    proof (cases "Message_Init mem 0 (scast sz)")
      case (Inl err)
      with Message_Init_fault [OF le] False isb show ?thesis
        by (auto simp: ProcessPacket_def ReceivedMessage_packet_def walk_ok_def)
    next
      case (Inr m)
      with handler_okD [OF pm le Inr] False isb show ?thesis
        by (cases "pm m s") (auto simp: ProcessPacket_def ReceivedMessage_packet_def walk_ok_def)
    qed
  qed
qed

end
