(* ===== verification/OscPrintSpec.thy ===== *)
theory OscPrintSpec
  imports OscPrint OscWalkSpec
begin

text \<open>
  What printing a packet gives: for a packet in the wire format exactly the text of its tree, and
  for any packet an indentation that is restored when, and only when, no exception is thrown.
\<close>

section \<open>The text of a tree\<close>

fun show_value :: "(ulong \<Rightarrow> bytes) \<Rightarrow> osc_value \<Rightarrow> bytes" where
  "show_value ctime (OBool b) = (if b then bytes_of ''bool:true'' else bytes_of ''bool:false'')"
| "show_value ctime ONil = bytes_of ''(Nil)''"
| "show_value ctime OInfinitum = bytes_of ''(Infinitum)''"
| "show_value ctime (OInt32 x) = bytes_of ''int32:'' @ sprintf_i x"
| "show_value ctime (OFloat x) = bytes_of ''float32:'' @ show_float x"
| "show_value ctime (OChar x) = bytes_of ''char:'' @ [39] @ c_str [x, 0] @ [39]"
| "show_value ctime (ORgbaColor x) = print_rgba x"
| "show_value ctime (OMidiMessage x) = print_midi x"
| "show_value ctime (OInt64 x) = bytes_of ''int64:'' @ show_int64 x"
| "show_value ctime (OTimeTag x) = print_time ctime x"
| "show_value ctime (ODouble x) = bytes_of ''double:'' @ show_double x"
| "show_value ctime (OString s) = bytes_of ''OSC-string:`'' @ s @ [39]"
| "show_value ctime (OSymbol s) = bytes_of ''OSC-string (symbol):`'' @ s @ [39]"
| "show_value ctime (OBlob d) = bytes_of ''OSC-blob:<<'' @ hex_list d @ bytes_of ''>>''"

fun show_values :: "(ulong \<Rightarrow> bytes) \<Rightarrow> bool \<Rightarrow> osc_value list \<Rightarrow> bytes" where
  "show_values ctime first [] = []"
| "show_values ctime first (v # vs) =
     (if first then bytes_of '' '' else bytes_of '', '') @ show_value ctime v @ show_values ctime False vs"

definition show_message :: "(ulong \<Rightarrow> bytes) \<Rightarrow> bytes \<Rightarrow> osc_value list \<Rightarrow> bytes" where
  "show_message ctime addr vs = bytes_of ''['' @ addr @ show_values ctime True vs @ bytes_of '']''"

definition show_time_tag :: "uint64 \<Rightarrow> bytes" where
  "show_time_tag t = (if t = 1 then bytes_of ''immediate'' else show_uint64 t)"

text \<open>One line per message, bundles in braces, their elements indented by two blanks.\<close>

fun show_tree :: "(ulong \<Rightarrow> bytes) \<Rightarrow> nat \<Rightarrow> packet_tree \<Rightarrow> bytes" where
  "show_tree ctime n (TMessage addr vs) = indentation n @ show_message ctime addr vs @ [10]"
| "show_tree ctime n (TBundle t ks) =
     indentation n @ bytes_of ''{ ( '' @ show_time_tag t @ bytes_of '' )'' @ [10] @
     concat (map (show_tree ctime (Suc n)) ks) @ indentation n @ bytes_of ''}'' @ [10]"

section \<open>Printing a message\<close>

lemma print_argument_at:
  assumes mem: "mem_at mem arg (arg_bytes v)" and v: "wire_value v" and tag: "load_byte mem tag = Inr (arg_tag v)"
  shows "print_argument ctime mem \<lparr>typeTag = Some tag, argument = Some arg\<rparr> = Inr (show_value ctime v)"
proof (cases v)
  case (OBool b)
  then show ?thesis using tag by (cases b) (simp_all add: print_argument_def TypeTag_def deref_def)
next
  case (OBlob d)
  have size: "ToUInt32 mem arg = Inr (of_nat (length d))" "mem_at mem (arg + 4) d"
    using mem v OBlob
    by (auto simp: mem_at_append enc_pad_def intro!: uint32_codec.dec_at)
  moreover have "unat (ucast (of_nat (length d) :: uint32) :: ulong) = length d"
    using v OBlob by (simp add: unat_ucast_mod unat_of_nat_small)
  moreover have "load_bytes mem (arg + 4) (length d) = Inr d"
    using size(2) by (simp add: load_bytes_at)
  ultimately show ?thesis
    using tag OBlob
    by (cases "d = []") (auto simp: print_argument_def TypeTag_def deref_def AsBlobUnchecked_def
        simp flip: unat_0_iff)
qed (use read_value_at [OF mem v tag] tag in
    \<open>auto simp: print_argument_def accessor_defs ebind_eq_Inr_iff\<close>)

lemma print_arguments_at:
  "mem_at mem tag (map arg_tag vs @ [0]) \<Longrightarrow> mem_at mem arg (concat (map arg_bytes vs)) \<Longrightarrow>
   list_all wire_value vs \<Longrightarrow> typeTag e = Some (tag + length vs) \<Longrightarrow>
   print_arguments ctime mem \<lparr>typeTag = Some tag, argument = Some arg\<rparr> e first os =
     Some (Inr (os @ show_values ctime first vs))"
proof (induction vs arbitrary: tag arg first os)
  case Nil
  then show ?case by (subst print_arguments.simps) (simp add: same_position_def)
next
  case (Cons v vs)
  let ?a = "\<lparr>typeTag = Some tag, argument = Some arg\<rparr>"
  have t: "load_byte mem tag = Inr (arg_tag v)" using load_byte_at [OF Cons.prems(1), of 0] by simp
  have at: "mem_at mem arg (arg_bytes v)" using Cons.prems by (simp add: mem_at_append)
  have "check_arg mem (arg + length (arg_bytes v)) (arg_tag v) arg = Inr (arg + length (arg_bytes v))"
    using at Cons.prems by (intro check_arg_at) auto
  note adv = check_arg_Advance [OF this t]
  have shown: "print_argument ctime mem ?a = Inr (show_value ctime v)"
    using Cons.prems by (intro print_argument_at [OF at _ t]) simp
  have "print_arguments ctime mem \<lparr>typeTag = Some (tag + 1), argument = Some (arg + length (arg_bytes v))\<rparr> e False os' =
      Some (Inr (os' @ show_values ctime False vs))" for os'
    using Cons.prems by (intro Cons.IH) (auto simp: mem_at_append mem_at_Cons)
  then show ?case
    using adv shown Cons.prems(4) by (subst print_arguments.simps) (simp add: same_position_def)
qed

lemma print_message_at:
  assumes mem: "mem_at mem p (enc_message addr vs)" and addr: "0 \<notin> set addr" and vs: "list_all wire_value vs"
  shows "print_message ctime mem (parsed_message p addr vs) = Some (Inr (show_message ctime addr vs))"
proof -
  let ?m = "parsed_message p addr vs"
  have "print_arguments ctime mem (ArgumentsBegin ?m) (ArgumentsEnd ?m) True os =
      Some (Inr (os @ show_values ctime True vs))" for os
  proof (cases "vs = []")
    case True
    then show ?thesis
      by (subst print_arguments.simps)
        (simp add: parsed_message_def ArgumentsBegin_def ArgumentsEnd_def same_position_def Let_def)
  next
    case False
    then show ?thesis
      using print_arguments_at [OF tags_of_parsed [OF mem] vs, of "ArgumentsEnd ?m"]
      by (simp add: parsed_message_def ArgumentsBegin_def ArgumentsEnd_def Let_def)
  qed
  then show ?thesis
    using parsed_message_reads(1) [OF mem addr vs] by (simp add: print_message_def show_message_def)
qed

section \<open>Printing a packet\<close>

lemma print_bytes_simps [simp]:
  "print_bytes [] st = st"
  "print_bytes s (print_bytes r st) = print_bytes (r @ s) st"
  "indent (print_bytes s st) = indent st"
  "printed (print_bytes s st) = printed st @ s"
  "print_bytes s (st\<lparr>indent := n\<rparr>) = (print_bytes s st)\<lparr>indent := n\<rparr>"
  "(print_bytes s st)\<lparr>indent := indent st\<rparr> = print_bytes s st"
  by (simp_all add: print_bytes_def)

lemma opening_closing:
  assumes "Bundle_TimeTag mem b = Inr t"
  shows "print_opening mem b st =
      Inr ((print_bytes (indentation (indent st) @ bytes_of ''{ ( '' @ show_time_tag t @ bytes_of '' )'' @ [10]) st)
        \<lparr>indent := Suc (indent st)\<rparr>)"
    and "print_closing (st\<lparr>indent := Suc n\<rparr>) = (print_bytes (indentation n @ bytes_of ''}'') st)\<lparr>indent := n\<rparr>"
  using assms by (simp_all add: print_opening_def show_time_tag_def print_closing_def print_bytes_def)

lemma print_list:
  assumes one: "\<And>k p e st. k \<in> set ks \<Longrightarrow> mem_at mem p (enc_element (enc_tree k)) \<Longrightarrow>
      p + length (enc_element (enc_tree k)) < 2 ^ 31 \<Longrightarrow> p \<noteq> e \<Longrightarrow>
      print_elements ctime mem p e st = print_elements ctime mem (p + length (enc_element (enc_tree k))) e
        (print_bytes (show_tree ctime (indent st) k) st)"
    and at: "mem_at mem p (concat (map enc_element (map enc_tree ks)))"
    and e: "e = p + length (concat (map enc_element (map enc_tree ks)))" "e < 2 ^ 31"
  shows "print_elements ctime mem p e st =
    Some (print_bytes (concat (map (show_tree ctime (indent st)) ks)) st, None)"
  using one at e
proof (induction ks arbitrary: p st)
  case Nil
  then show ?case by (subst print_elements.simps) (simp add: same_element_def)
next
  case (Cons k ks)
  let ?x = "enc_element (enc_tree k)" and ?st = "print_bytes (show_tree ctime (indent st) k) st"
  have "print_elements ctime mem p e st = print_elements ctime mem (p + length ?x) e ?st"
    using Cons.prems by (intro Cons.prems(1)) (auto simp: mem_at_append)
  also have "\<dots> = Some (print_bytes (concat (map (show_tree ctime (indent ?st)) ks)) ?st, None)"
    using Cons.prems by (intro Cons.IH) (auto simp: mem_at_append add.assoc)
  finally show ?case by simp
qed

lemma print_element:
  "mem_at mem p (enc_element (enc_tree k)) \<Longrightarrow> wire_tree k \<Longrightarrow>
   p + length (enc_element (enc_tree k)) < 2 ^ 31 \<Longrightarrow> p \<noteq> e \<Longrightarrow>
   print_elements ctime mem p e st = print_elements ctime mem (p + length (enc_element (enc_tree k))) e
     (print_bytes (show_tree ctime (indent st) k) st)"
proof (induction k arbitrary: p e st)
  case (TMessage addr vs)
  let ?x = "enc_message addr vs"
  have at: "mem_at mem p (enc_element ?x)" and len: "0 < length ?x" "length ?x < 2 ^ 31"
    using TMessage.prems(1,3) enc_tree_pos [of "TMessage addr vs"] by auto
  note h = element_header [OF at len]
  have ok: "0 \<notin> set addr" "list_all wire_value vs" and hash: "?x ! 0 \<noteq> byte_of (CHR ''#'')"
    using TMessage.prems(2) by (auto simp: enc_message_first byte_of_values)
  show ?case
    using TMessage.prems(4) h(4,5) hash message_element_at [OF at len(2) ok] print_message_at [OF h(2) ok]
    by (subst print_elements.simps) (simp add: same_element_def add.assoc)
next
  case (TBundle t ks)
  let ?x = "enc_tree (TBundle t ks)"
  let ?b = "\<lparr>received_bundle.timeTag = p + 12, bundle_end = p + 4 + length ?x, elementCount = length ks\<rparr>"
  have len: "0 < length ?x" "length ?x < 2 ^ 31" using TBundle.prems(3) enc_tree_pos [of "TBundle t ks"] by auto
  note h = element_header [OF TBundle.prems(1) len] and b = bundle_element_at [OF TBundle.prems(1,3)]
  let ?st1 = "(print_bytes (indentation (indent st) @ bytes_of ''{ ( '' @ show_time_tag t @ bytes_of '' )'' @ [10]) st)
      \<lparr>indent := Suc (indent st)\<rparr>"
  have "Bundle_TimeTag mem ?b = Inr t" using b(3) by (simp add: Bundle_TimeTag_def)
  note oc = opening_closing [OF this]
  have "print_elements ctime mem (p + 20) (p + 4 + length ?x) ?st1 =
      Some (print_bytes (concat (map (show_tree ctime (indent ?st1)) ks)) ?st1, None)"
  proof (rule print_list [OF _ b(2)])
    fix k p e st assume "k \<in> set ks" "mem_at mem p (enc_element (enc_tree k))"
      "p + length (enc_element (enc_tree k)) < 2 ^ 31" "p \<noteq> e"
    then show "print_elements ctime mem p e st = print_elements ctime mem
        (p + length (enc_element (enc_tree k))) e (print_bytes (show_tree ctime (indent st) k) st)"
      using TBundle.prems(2) by (intro TBundle.IH) (auto simp: list_all_iff)
  qed (use TBundle.prems(3) in \<open>auto simp: length_enc_bundle\<close>)
  then show ?case
    using TBundle.prems(4) h(4,5) b(1) oc enc_bundle_first [of t "map enc_tree ks"]
    by (subst print_elements.simps)
      (simp add: same_element_def ElementsBegin_def ElementsEnd_def add.assoc)
qed

text \<open>The whole packet.\<close>

lemma print_packet_tree:
  assumes mem: "mem = enc_tree k" and k: "wire_tree k" and small: "length mem < 2 ^ 31" and top: "indent st = 0"
  shows "print_packet ctime mem \<lparr>contents = 0, packet_size = of_nat (length mem)\<rparr> st =
    Some (print_bytes (show_tree ctime 0 k) st, None)"
proof -
  have pos: "0 < length mem" using enc_tree_pos mem by simp
  note first = packet_is_bundle [OF pos small]
  show ?thesis
  proof (cases k)
    case (TMessage addr vs)
    have ok: "0 \<notin> set addr" "list_all wire_value vs" and hash: "mem ! 0 \<noteq> byte_of (CHR ''#'')"
      using k TMessage mem by (auto simp: enc_message_first byte_of_values)
    have m: "mem = enc_message addr vs" using mem TMessage by simp
    then have at: "mem_at mem 0 (enc_message addr vs)" by simp
    show ?thesis
      using first hash message_packet_at [OF m small ok] print_message_at [OF at ok]
      by (simp add: print_packet_def TMessage indentation_def)
  next
    case (TBundle t ks)
    note b = bundle_packet_at [OF mem [unfolded TBundle] small]
    let ?b = "\<lparr>received_bundle.timeTag = 8, bundle_end = length mem, elementCount = length ks\<rparr>"
    have "Bundle_TimeTag mem ?b = Inr t" using b(3) by (simp add: Bundle_TimeTag_def)
    note oc = opening_closing [OF this]
    have "print_elements ctime mem 16 (length mem) st1 =
        Some (print_bytes (concat (map (show_tree ctime (indent st1)) ks)) st1, None)" for st1
    proof (rule print_list [OF _ b(2,4) small])
      fix ka p e st assume "ka \<in> set ks" "mem_at mem p (enc_element (enc_tree ka))"
        "p + length (enc_element (enc_tree ka)) < 2 ^ 31" "p \<noteq> e"
      then show "print_elements ctime mem p e st = print_elements ctime mem
          (p + length (enc_element (enc_tree ka))) e (print_bytes (show_tree ctime (indent st) ka) st)"
        using k TBundle by (intro print_element) (auto simp: list_all_iff)
    qed
    moreover have "mem ! 0 = byte_of (CHR ''#'')" using mem TBundle by (simp add: enc_bundle_first)
    moreover have "print_bytes u st\<lparr>indent := 0\<rparr> = print_bytes u st" for u
      using top by (simp add: print_bytes_def)
    ultimately show ?thesis
      using first TBundle b(1) oc top
      by (simp add: print_packet_def print_bundle_def ElementsBegin_def ElementsEnd_def)
  qed
qed

section \<open>The indentation\<close>

lemma indent_opening: "print_opening mem b st = Inr st' \<Longrightarrow> indent st' = Suc (indent st)"
  by (auto simp: print_opening_def ebind_eq_Inr_iff)

lemma indent_closing: "indent (print_closing st) = indent st - 1"
  by (simp add: print_closing_def Let_def print_bytes_def)

definition keeps_indent :: "printing \<Rightarrow> (printing \<times> osc_error option) option \<Rightarrow> bool" where
  "keeps_indent st m \<longleftrightarrow>
     (case m of
        None \<Rightarrow> True
      | Some (st', thrown) \<Rightarrow> indent st \<le> indent st' \<and> (thrown = None \<longrightarrow> indent st' = indent st))"

lemma keeps_indent_simps [simp]:
  "keeps_indent st None"
  "keeps_indent st (Some (st', Some err)) \<longleftrightarrow> indent st \<le> indent st'"
  "keeps_indent st (Some (st', None)) \<longleftrightarrow> indent st' = indent st"
  by (auto simp: keeps_indent_def)

lemma keeps_indent_cong: "indent st' = indent st \<Longrightarrow> keeps_indent st' m = keeps_indent st m"
  by (simp add: keeps_indent_def split: option.split)

lemma keeps_indent_then:
  assumes "keeps_indent st m" and "\<And>st'. indent st' = indent st \<Longrightarrow> keeps_indent st (f st')"
  shows "keeps_indent st (Option.bind m (\<lambda>(st', thrown).
    case thrown of Some err \<Rightarrow> Some (st', Some err) | None \<Rightarrow> f st'))"
proof (cases m)
  case (Some r)
  obtain st' thrown where "r = (st', thrown)" by (cases r)
  with Some assms show ?thesis by (cases thrown) auto
qed simp

lemma keeps_indent_nested:
  assumes "keeps_indent st1 m" and "indent st1 = Suc (indent st)"
  shows "keeps_indent st (Option.bind m (\<lambda>(st2, thrown).
    case thrown of Some err \<Rightarrow> Some (st2, Some err) | None \<Rightarrow> Some (print_bytes s (print_closing st2), None)))"
  using assms by (auto simp: keeps_indent_def indent_closing split: option.splits bind_split)

lemma print_elements_indent:
  "print_elements ctime mem p e st = Some r \<Longrightarrow> keeps_indent st (Some r)"
proof (rule print_elements.raw_induct [where P = "\<lambda>ctime mem p e st r. keeps_indent st (Some r)"])
  fix rec :: "(ulong \<Rightarrow> bytes) \<Rightarrow> bytes \<Rightarrow> nat \<Rightarrow> nat \<Rightarrow> printing \<Rightarrow> (printing \<times> osc_error option) option"
    and ctime mem p e st r
  assume IH: "\<And>ctime mem p e st r. rec ctime mem p e st = Some r \<Longrightarrow> keeps_indent st (Some r)"
  have rec: "keeps_indent st (rec ctime mem p e st)" for mem p e st
    by (cases "rec ctime mem p e st") (auto dest: IH)
  have nested: "keeps_indent st (case ReceivedBundle_element mem p of
      None \<Rightarrow> None
    | Some (Inl err) \<Rightarrow> Some (st, Some err)
    | Some (Inr b) \<Rightarrow>
        case print_opening mem b st of
          Inl err \<Rightarrow> Some (st, Some err)
        | Inr st1 \<Rightarrow>
            Option.bind (rec ctime mem (ElementsBegin b) (ElementsEnd b) st1)
              (\<lambda>(st2, thrown).
                case thrown of
                  Some err \<Rightarrow> Some (st2, Some err)
                | None \<Rightarrow> Some (print_bytes [10] (print_closing st2), None)))" for mem p st
    using keeps_indent_nested [OF rec indent_opening]
    by (simp split: option.split sum.split)
  have message: "keeps_indent st (case ReceivedMessage_element mem p of
      Inl err \<Rightarrow> Some (st, Some err)
    | Inr m \<Rightarrow>
        let st1 = print_bytes (indentation (indent st)) st in
        case print_message ctime mem m of
          None \<Rightarrow> None
        | Some (Inl err) \<Rightarrow> Some (st1, Some err)
        | Some (Inr text) \<Rightarrow> Some (print_bytes (text @ [10]) st1, None))" for mem p st
    by (simp add: Let_def split: option.split sum.split)
  have later: "keeps_indent st (case Element_Advance mem p of
      Inl err \<Rightarrow> Some (st', Some err) | Inr q \<Rightarrow> rec ctime mem q e st')"
    if "indent st' = indent st" for mem p e st st'
    using rec [where st = st'] that keeps_indent_cong [OF that] by (simp split: sum.split)
  assume eq: "(if same_element p e then Some (st, None)
      else
        case Element_IsBundle mem p of
          Inl err \<Rightarrow> Some (st, Some err)
        | Inr is_bundle \<Rightarrow>
            Option.bind
              (if is_bundle then
                 case ReceivedBundle_element mem p of
                   None \<Rightarrow> None
                 | Some (Inl err) \<Rightarrow> Some (st, Some err)
                 | Some (Inr b) \<Rightarrow>
                     case print_opening mem b st of
                       Inl err \<Rightarrow> Some (st, Some err)
                     | Inr st1 \<Rightarrow>
                         Option.bind (rec ctime mem (ElementsBegin b) (ElementsEnd b) st1)
                           (\<lambda>(st2, thrown).
                             case thrown of
                               Some err \<Rightarrow> Some (st2, Some err)
                             | None \<Rightarrow> Some (print_bytes [10] (print_closing st2), None))
               else
                 case ReceivedMessage_element mem p of
                   Inl err \<Rightarrow> Some (st, Some err)
                 | Inr m \<Rightarrow>
                     let st1 = print_bytes (indentation (indent st)) st in
                     case print_message ctime mem m of
                       None \<Rightarrow> None
                     | Some (Inl err) \<Rightarrow> Some (st1, Some err)
                     | Some (Inr text) \<Rightarrow> Some (print_bytes (text @ [10]) st1, None))
              (\<lambda>(st', thrown).
                case thrown of
                  Some err \<Rightarrow> Some (st', Some err)
                | None \<Rightarrow>
                    case Element_Advance mem p of
                      Inl err \<Rightarrow> Some (st', Some err)
                    | Inr q \<Rightarrow> rec ctime mem q e st')) = Some r" (is "?body = _")
  have "keeps_indent st ?body"
  proof (cases "same_element p e")
    case False
    show ?thesis
    proof (cases "Element_IsBundle mem p")
      case (Inr is_b)
      with keeps_indent_then [OF nested later] keeps_indent_then [OF message later] False show ?thesis
        by (cases is_b) (simp_all only: if_True if_False sum.case)
    qed (simp add: False)
  qed simp
  then show "keeps_indent st (Some r)" by (simp only: eq)
qed

lemma print_bundle_indent:
  assumes "print_bundle ctime mem b st = Some (st', thrown)" and "Bundle_TimeTag mem b = Inr t"
  shows "indent st' = indent st \<longleftrightarrow> thrown = None"
proof -
  note st1 = opening_closing(1) [OF assms(2), of st]
  let ?st1 = "print_bytes (indentation (indent st) @ bytes_of ''{ ( '' @ show_time_tag t @ bytes_of '' )'' @ [10]) st
      \<lparr>indent := Suc (indent st)\<rparr>"
  let ?inner = "print_elements ctime mem (ElementsBegin b) (ElementsEnd b) ?st1"
  have b: "Option.bind ?inner (\<lambda>(st2, thrown). case thrown of
      Some err \<Rightarrow> Some (st2, Some err) | None \<Rightarrow> Some (print_closing st2, None)) = Some (st', thrown)"
    using assms(1) unfolding print_bundle_def st1 by simp
  show ?thesis
  proof (cases ?inner)
    case (Some r)
    obtain st2 t2 where "r = (st2, t2)" by (cases r)
    with b Some print_elements_indent [OF Some] show ?thesis
      by (cases t2) (auto simp: indent_closing)
  qed (use b in simp)
qed

end
