(* ===== verification/MessageMapping.thy ===== *)
theory MessageMapping
  imports OscWalkSpec
begin

text \<open>
  \<^verbatim>\<open>product/source/osc/MessageMappingOscPacketListener.h\<close>: a packet listener that calls the function
  registered for the address pattern of each message.  The map compares its keys with \<^verbatim>\<open>strcmp\<close>, so
  a key is the characters before the NUL; \<^verbatim>\<open>std::map::insert\<close> keeps the entry that is there.
\<close>

section \<open>The table of functions\<close>

type_synonym 's function_table = "bytes \<rightharpoonup> (bytes \<Rightarrow> 's handler)"

definition RegisterMessageFunction ::
    "bytes \<Rightarrow> (bytes \<Rightarrow> 's handler) \<Rightarrow> 's function_table \<Rightarrow> 's function_table" where
  "RegisterMessageFunction pattern f table =
     (case table (c_str pattern) of
        None \<Rightarrow> table(c_str pattern \<mapsto> f)
      | Some old \<Rightarrow> table)"

definition mapped_ProcessMessage :: "'s function_table \<Rightarrow> bytes \<Rightarrow> 's handler" where
  "mapped_ProcessMessage table mem m s =
     (case read_cstr mem (addressPattern m) of
        Inl err \<Rightarrow> (s, Some err)
      | Inr addr \<Rightarrow>
          (case table addr of
             None \<Rightarrow> (s, None)
           | Some f \<Rightarrow> f mem m s))"

section \<open>Dispatch\<close>

text \<open>What was registered first for a pattern stays; other patterns are not touched.\<close>

lemma register_lookup:
  "RegisterMessageFunction pattern f table addr =
    (if addr = c_str pattern \<and> table addr = None then Some f else table addr)"
  by (auto simp: RegisterMessageFunction_def split: option.splits)

lemma register_fold:
  "fold (\<lambda>(pattern, f). RegisterMessageFunction pattern f) registrations entries addr =
    (case entries addr of
       Some f \<Rightarrow> Some f
     | None \<Rightarrow> map_of (map (\<lambda>(pattern, f). (c_str pattern, f)) registrations) addr)"
  by (induction registrations arbitrary: entries) (auto simp: register_lookup split: option.splits)

lemma register_all:
  "fold (\<lambda>(pattern, f). RegisterMessageFunction pattern f) registrations (\<lambda>_. None) addr =
    map_of (map (\<lambda>(pattern, f). (c_str pattern, f)) registrations) addr"
  by (simp add: register_fold)

text \<open>The effect of a message, for functions with the effects \<open>act\<close>.\<close>

definition mapped_delivery ::
    "'s function_table \<Rightarrow> (bytes \<Rightarrow> osc_value list \<Rightarrow> 's \<Rightarrow> 's) \<Rightarrow> bytes \<Rightarrow> osc_value list \<Rightarrow> 's \<Rightarrow> 's" where
  "mapped_delivery table act addr vs s = (if table addr = None then s else act addr vs s)"

lemma mapped_sink:
  assumes "\<And>addr f p vs s. table addr = Some f \<Longrightarrow> mem_at mem p (enc_message addr vs) \<Longrightarrow>
      0 \<notin> set addr \<Longrightarrow> list_all wire_value vs \<Longrightarrow> f mem (parsed_message p addr vs) s = (act addr vs s, None)"
  shows "message_sink mem (mapped_ProcessMessage table mem) (mapped_delivery table act) (\<lambda>addr vs. True)"
  using assms parsed_message_reads(1)
  by unfold_locales (auto simp: mapped_ProcessMessage_def mapped_delivery_def split: option.splits)

lemma mapped_packet:
  assumes act: "\<And>addr f p vs s. table addr = Some f \<Longrightarrow> mem_at (enc_tree k) p (enc_message addr vs) \<Longrightarrow>
      0 \<notin> set addr \<Longrightarrow> list_all wire_value vs \<Longrightarrow>
      f (enc_tree k) (parsed_message p addr vs) s = (act addr vs s, None)"
    and k: "wire_tree k" and small: "length (enc_tree k) < 2 ^ 31"
  shows "ProcessPacket (enc_tree k) (of_nat (length (enc_tree k)))
      (mapped_ProcessMessage table (enc_tree k)) s =
    Some (fold (\<lambda>(addr, vs). mapped_delivery table act addr vs) (leaves k) s, None)"
proof -
  have sink: "message_sink (enc_tree k) (mapped_ProcessMessage table (enc_tree k))
      (mapped_delivery table act) (\<lambda>addr vs. True)"
    by (rule mapped_sink) (rule act)
  have "message_sink.sound_tree (\<lambda>addr vs. True) k"
    using k by (simp add: message_sink.sound_tree_def [OF sink])
  from message_sink.process_tree [OF sink refl this small refl] show ?thesis
    by (simp add: message_sink.deliver_all_def [OF sink])
qed

end
