(* ===== verification/Fifo.thy ===== *)
theory Fifo
  imports Main
begin

text \<open>
  The contract of the queues that one thread fills and another empties: the messages of
  \<^verbatim>\<open>OscListener\<close>, the events, states and presences of \<^verbatim>\<open>xmpp::Client\<close>.  \<open>ready\<close> holds while what is
  delivered goes into the queue.
\<close>

locale fifo =
  fixes enq :: "'a \<Rightarrow> 's \<Rightarrow> 's"
    and deq :: "'s \<Rightarrow> ('a \<times> 's) option"
    and ready :: "'s \<Rightarrow> bool"
    and items :: "'s \<Rightarrow> 'a list"
  assumes items_enq: "ready s \<Longrightarrow> items (enq x s) = items s @ [x]"
    and ready_enq: "ready s \<Longrightarrow> ready (enq x s)"
    and deq_None: "items s = [] \<Longrightarrow> deq s = None"
    and deq_Some: "items s = x # xs \<Longrightarrow> \<exists>s'. deq s = Some (x, s') \<and> items s' = xs \<and> (ready s \<longrightarrow> ready s')"
begin

fun deq_all :: "nat \<Rightarrow> 's \<Rightarrow> 'a list" where
  "deq_all 0 s = []"
| "deq_all (Suc n) s = (case deq s of None \<Rightarrow> [] | Some (x, s') \<Rightarrow> x # deq_all n s')"

lemma items_enqs: "ready s \<Longrightarrow> items (fold enq xs s) = items s @ xs \<and> ready (fold enq xs s)"
  by (induction xs arbitrary: s) (auto simp: items_enq ready_enq)

lemma deq_all_items: "deq_all (length (items s)) s = items s"
proof (induction "items s" arbitrary: s)
  case (Cons x xs)
  then obtain s' where "deq s = Some (x, s')" "items s' = xs" using deq_Some [of s x xs] by auto
  with Cons show ?case by (metis case_prod_conv deq_all.simps(2) length_Cons option.simps(5))
qed (metis deq_all.simps(1) list.size(3))

text \<open>Everything that was put in comes out in order, after what was there before.\<close>

lemma deq_enqs: "ready s \<Longrightarrow> deq_all (length (items s) + length xs) (fold enq xs s) = items s @ xs"
  using items_enqs [of s xs] deq_all_items [of "fold enq xs s"] by simp

end

end
