(* ===== verification/StdMap.thy ===== *)
theory StdMap
  imports Prelude "HOL-Library.List_Lexorder"
begin

text \<open>
  \<^verbatim>\<open>std::map<std::string, T>\<close> as the list of its entries in the order of its iterators: keys in
  increasing order, byte by byte without sign, each key once.  The interface its clients rely on is the
  locale \<open>ordered_map\<close>.
\<close>

type_synonym 'v std_map = "(bytes \<times> 'v) list"

definition map_find :: "bytes \<Rightarrow> 'v std_map \<Rightarrow> 'v option" where
  "map_find k m = map_of m k"

text \<open>\<^verbatim>\<open>insert\<close> leaves an entry that is there.\<close>

fun map_insert :: "bytes \<Rightarrow> 'v \<Rightarrow> 'v std_map \<Rightarrow> 'v std_map" where
  "map_insert k v [] = [(k, v)]"
| "map_insert k v ((k', v') # m) =
     (if k < k' then (k, v) # (k', v') # m
      else if k = k' then (k', v') # m
      else (k', v') # map_insert k v m)"

text \<open>Writing through an iterator that \<^verbatim>\<open>find\<close> gave.\<close>

fun map_modify :: "bytes \<Rightarrow> ('v \<Rightarrow> 'v) \<Rightarrow> 'v std_map \<Rightarrow> 'v std_map" where
  "map_modify k f [] = []"
| "map_modify k f ((k', v) # m) = (if k = k' then (k', f v) # m else (k', v) # map_modify k f m)"

definition map_ok :: "'v std_map \<Rightarrow> bool" where
  "map_ok m \<longleftrightarrow> sorted_wrt (<) (map fst m)"

section \<open>The interface\<close>

locale ordered_map =
  fixes find :: "'k \<Rightarrow> 'm \<Rightarrow> 'v option"
    and insert :: "'k \<Rightarrow> 'v \<Rightarrow> 'm \<Rightarrow> 'm"
    and modify :: "'k \<Rightarrow> ('v \<Rightarrow> 'v) \<Rightarrow> 'm \<Rightarrow> 'm"
    and empty :: 'm
    and ok :: "'m \<Rightarrow> bool"
  assumes find_empty: "find k empty = None"
    and find_insert: "ok m \<Longrightarrow>
      find k (insert k' v m) = (if k = k' then Some (case find k m of None \<Rightarrow> v | Some w \<Rightarrow> w) else find k m)"
    and find_modify: "find k (modify k' f m) = (if k = k' then map_option f (find k m) else find k m)"
    and ok_empty: "ok empty"
    and ok_insert: "ok m \<Longrightarrow> ok (insert k v m)"
    and ok_modify: "ok m \<Longrightarrow> ok (modify k f m)"
begin

text \<open>Filling a map in a loop: the first value given for a key stays.\<close>

lemma ok_fold_insert: "ok m \<Longrightarrow> ok (fold (\<lambda>k. insert k (f k)) ks m)"
  by (induction ks arbitrary: m) (auto simp: ok_insert)

lemma find_fold_insert:
  "ok m \<Longrightarrow> find k (fold (\<lambda>k. insert k (f k)) ks m) =
    (case find k m of Some v \<Rightarrow> Some v | None \<Rightarrow> if k \<in> set ks then Some (f k) else None)"
  by (induction ks arbitrary: m) (auto simp: ok_insert find_insert split: option.split)

lemma find_fill: "find k (fold (\<lambda>k. insert k (f k)) ks empty) = (if k \<in> set ks then Some (f k) else None)"
  by (simp add: find_fold_insert ok_empty find_empty)

lemma modify_absent: "find k m = None \<Longrightarrow> find k' (modify k f m) = find k' m"
  by (simp add: find_modify)

end

lemma fst_map_modify: "map fst (map_modify k f m) = map fst m"
  by (induction k f m rule: map_modify.induct) auto

lemma set_map_insert: "set (map_insert k v m) \<subseteq> insert (k, v) (set m)"
  by (induction k v m rule: map_insert.induct) auto

lemma map_ok_insert: "map_ok m \<Longrightarrow> map_ok (map_insert k v m)"
proof (induction k v m rule: map_insert.induct)
  case (2 k v k' v' m)
  then show ?case
    using set_map_insert [of k v m] by (fastforce simp: map_ok_def)
qed (simp add: map_ok_def)

lemma map_find_insert:
  "map_ok m \<Longrightarrow> map_find k (map_insert k' v m) =
    (if k = k' then Some (case map_find k m of None \<Rightarrow> v | Some w \<Rightarrow> w) else map_find k m)"
proof (induction k' v m rule: map_insert.induct)
  case (2 k' v k'' v' m)
  have "map_find k' m = None" if "k' < k''"
    using 2(2) that by (force simp: map_find_def map_ok_def map_of_eq_None_iff)
  then show ?case using 2 by (auto simp: map_find_def map_ok_def)
qed (simp add: map_find_def)

lemma map_find_modify:
  "map_find k (map_modify k' f m) = (if k = k' then map_option f (map_find k m) else map_find k m)"
  by (induction k' f m rule: map_modify.induct) (auto simp: map_find_def)

interpretation std_map: ordered_map map_find map_insert map_modify "[]" map_ok
  by unfold_locales (auto simp: map_find_insert map_find_modify map_ok_insert, auto simp: map_find_def map_ok_def fst_map_modify)

text \<open>Values that an operation puts into a map.\<close>

lemma set_map_modify: "(k', v) \<in> set (map_modify k f m) \<Longrightarrow> (k', v) \<in> set m \<or> (\<exists>w. (k', w) \<in> set m \<and> v = f w)"
  by (induction k f m rule: map_modify.induct) (auto split: if_splits)

lemma set_fold_insert:
  "set (fold (\<lambda>k. map_insert k (f k)) ks m) \<subseteq> set m \<union> (\<lambda>k. (k, f k)) ` set ks"
proof (induction ks arbitrary: m)
  case (Cons k ks)
  then show ?case using set_map_insert [of k "f k" m] by fastforce
qed simp

end
