(* ===== verification/Gloox.thy ===== *)
theory Gloox
  imports OscTypes
begin

text \<open>
  What the XMPP classes use of the library gloox, whose code is not part of the repository: its
  enumerations (\<^verbatim>\<open>product/extern/gloox/*.h\<close>), the calls it is given, kept as a log, and its blocking
  calls \<^verbatim>\<open>connect\<close> and \<^verbatim>\<open>recv\<close>, which call back into the program.  What gloox calls back, and what it
  returns, is an argument of the definitions: a \<open>session\<close>.
\<close>

section \<open>Enumerations\<close>

datatype presence_type =
    PresenceAvailable | PresenceChat | PresenceAway | PresenceDND | PresenceXA | PresenceUnavailable
  | PresenceProbe | PresenceError | PresenceInvalid

fun presence_value :: "presence_type \<Rightarrow> int" where
  "presence_value PresenceAvailable = 0"
| "presence_value PresenceChat = 1"
| "presence_value PresenceAway = 2"
| "presence_value PresenceDND = 3"
| "presence_value PresenceXA = 4"
| "presence_value PresenceUnavailable = 5"
| "presence_value PresenceProbe = 6"
| "presence_value PresenceError = 7"
| "presence_value PresenceInvalid = 8"

datatype connection_error =
    ConnNoError | ConnStreamError | ConnStreamVersionError | ConnStreamClosed | ConnProxyAuthRequired
  | ConnProxyAuthFailed | ConnProxyNoSupportedAuth | ConnIoError | ConnParseError | ConnConnectionRefused
  | ConnDnsError | ConnOutOfMemory | ConnNoSupportedAuth | ConnTlsFailed | ConnTlsNotAvailable
  | ConnCompressionFailed | ConnAuthenticationFailed | ConnUserDisconnected | ConnNotConnected

datatype registration_result =
    RegistrationSuccess | RegistrationNotAcceptable | RegistrationConflict | RegistrationNotAuthorized
  | RegistrationBadRequest | RegistrationForbidden | RegistrationRequired
  | RegistrationUnexpectedRequest | RegistrationNotAllowed | RegistrationUnknownError

text \<open>\<open>message_subtype\<close>: \<^verbatim>\<open>Message::MessageType\<close>.\<close>

datatype message_subtype =
  MessageChat | MessageError | MessageGroupchat | MessageHeadline | MessageNormal | MessageInvalid

record jid =
  jid_username :: bytes
  jid_server :: bytes

record gloox_message =
  msg_subtype :: message_subtype
  msg_from :: jid
  msg_body :: bytes
  msg_subject :: bytes

section \<open>Calls\<close>

text \<open>
  An address the program has put together is the text it gave to the constructor of \<^verbatim>\<open>JID\<close>; the sender
  of a message is the \<^verbatim>\<open>JID\<close> gloox passed.
\<close>

datatype address = AddressText bytes | AddressOf jid

datatype gloox_call =
    NewClientJid address bytes int32
  | NewClientHost bytes
  | NewRegistration nat
  | NewMessageEventFilter nat
  | NewChatStateFilter nat
  | DeleteObject
  | DisableRoster
  | SetPort int32
  | SetUsername bytes
  | SetPassword bytes
  | RegisterPresenceHandler
  | RegisterConnectionListener
  | RegisterMessageSessionHandler int
  | RegisterRosterListener
  | RegisterRegistrationHandler
  | RegisterMessageHandler
  | RegisterMessageEventHandler
  | RegisterChatStateHandler
  | RegisterLogHandler
  | DiscoSetVersion string string
  | DiscoSetIdentity string string
  | DiscoAddFeature string
  | ConnectCall bool
  | RecvCall
  | DisconnectCall
  | SendMessageStanza message_subtype address bytes bytes
  | SendSubscribe address
  | FetchRegistrationFields
  | CreateAccount int32 bytes bytes
  | RemoveAccount
  | RemoveRegistrationHandler
  | DisposeMessageSession "nat option"

text \<open>\<open>log\<close>: the calls made so far, with the object each was made on; objects are numbers.\<close>

record gloox =
  glog :: "(nat \<times> gloox_call) list"
  objects :: nat

definition no_gloox :: gloox where
  "no_gloox = \<lparr>glog = [], objects = 0\<rparr>"

text \<open>\<open>Terminated\<close>: \<^verbatim>\<open>std::terminate\<close>, as the destructor of a running \<^verbatim>\<open>std::thread\<close> calls it.\<close>

datatype xmpp_fault =
  NullPointer | EndIterator | DoubleFree | UseAfterFree | OutOfBounds | DivisionByZero | Terminated

text \<open>\<open>Blocked\<close>: the call never returns.\<close>

datatype 'a outcome = Done 'a | Faulted xmpp_fault | Blocked

fun obind :: "'a outcome \<Rightarrow> ('a \<Rightarrow> 'b outcome) \<Rightarrow> 'b outcome" where
  "obind (Done a) f = f a"
| "obind (Faulted e) f = Faulted e"
| "obind Blocked f = Blocked"

lemma obind_cong [fundef_cong]:
  "m = m' \<Longrightarrow> (\<And>a. m' = Done a \<Longrightarrow> f a = f' a) \<Longrightarrow> obind m f = obind m' f'"
  by (cases m') auto

lemma obind_eq_Done: "obind m f = Done b \<longleftrightarrow> (\<exists>a. m = Done a \<and> f a = Done b)"
  by (cases m) auto

definition gcall :: "nat \<Rightarrow> gloox_call \<Rightarrow> gloox \<Rightarrow> gloox" where
  "gcall h c g = g\<lparr>glog := glog g @ [(h, c)]\<rparr>"

definition gcalls :: "nat \<Rightarrow> gloox_call list \<Rightarrow> gloox \<Rightarrow> gloox" where
  "gcalls h cs g = g\<lparr>glog := glog g @ map (Pair h) cs\<rparr>"

text \<open>A call through a pointer that may be null.\<close>

definition gcall_ptr :: "nat option \<Rightarrow> gloox_call \<Rightarrow> gloox \<Rightarrow> gloox outcome" where
  "gcall_ptr p c g = (case p of None \<Rightarrow> Faulted NullPointer | Some h \<Rightarrow> Done (gcall h c g))"

definition gnew :: "gloox_call \<Rightarrow> gloox \<Rightarrow> nat \<times> gloox" where
  "gnew c g = (objects g, g\<lparr>glog := glog g @ [(objects g, c)], objects := objects g + 1\<rparr>)"

lemma log_simps [simp]:
  "glog (gcall h c g) = glog g @ [(h, c)]" "glog (gcalls h cs g) = glog g @ map (Pair h) cs"
  "objects (gcall h c g) = objects g" "objects (gcalls h cs g) = objects g"
  by (auto simp: gcall_def gcalls_def gnew_def)

lemma glog_gnew: "gnew c g = (n, g') \<Longrightarrow> glog g' = glog g @ [(n, c)]"
  by (auto simp: gnew_def)

section \<open>The receiving loop\<close>

text \<open>
  A connection as gloox plays it: the callbacks made by \<^verbatim>\<open>connect\<close> and its result, then for each call
  of \<^verbatim>\<open>recv\<close> the callbacks it makes and what it returns.  After the last one \<^verbatim>\<open>recv\<close> waits for ever.
\<close>

record 'cb session =
  connect_callbacks :: "'cb list"
  connect_result :: bool
  recvs :: "('cb list \<times> connection_error) list"

fun deliver_all :: "('cb \<Rightarrow> 's \<Rightarrow> 's outcome) \<Rightarrow> 'cb list \<Rightarrow> 's \<Rightarrow> 's outcome" where
  "deliver_all handle [] s = Done s"
| "deliver_all handle (c # cs) s = obind (handle c s) (deliver_all handle cs)"

text \<open>
  \<^verbatim>\<open>while (ce == ConnNoError && mClient) { ce = mClient->recv(); if (...) break; }\<close>, which occurs three
  times in the code: \<open>go\<close> is the condition on the pointer, \<open>stop\<close> the condition of the \<^verbatim>\<open>break\<close>.
\<close>

fun recv_loop ::
    "('s \<Rightarrow> 's outcome) \<Rightarrow> ('cb \<Rightarrow> 's \<Rightarrow> 's outcome) \<Rightarrow> ('s \<Rightarrow> bool) \<Rightarrow> ('s \<Rightarrow> bool) \<Rightarrow>
     ('cb list \<times> connection_error) list \<Rightarrow> 's \<Rightarrow> 's outcome" where
  "recv_loop recv handle go stop [] s = (if go s then Blocked else Done s)"
| "recv_loop recv handle go stop ((cs, ce) # rest) s =
     (if \<not> go s then Done s
      else obind (recv s) (\<lambda>s. obind (deliver_all handle cs s) (\<lambda>s.
        if stop s \<or> ce \<noteq> ConnNoError then Done s else recv_loop recv handle go stop rest s)))"

section \<open>The contract of a receiving loop\<close>

text \<open>
  What holds of every object whose handlers gloox calls from \<^verbatim>\<open>recv\<close>: an invariant of the handlers
  is one of the loop.
\<close>

locale recv_client =
  fixes recv :: "'s \<Rightarrow> 's outcome"
    and handle :: "'cb \<Rightarrow> 's \<Rightarrow> 's outcome"
    and go :: "'s \<Rightarrow> bool"
    and stop :: "'s \<Rightarrow> bool"
    and inv :: "'s \<Rightarrow> bool"
  assumes recv_inv: "inv s \<Longrightarrow> recv s = Done s' \<Longrightarrow> inv s'"
    and handle_inv: "inv s \<Longrightarrow> handle c s = Done s' \<Longrightarrow> inv s'"
begin

lemma deliver_all_inv: "inv s \<Longrightarrow> deliver_all handle cs s = Done s' \<Longrightarrow> inv s'"
  by (induction cs arbitrary: s) (auto simp: obind_eq_Done intro: handle_inv)

lemma recv_loop_inv: "inv s \<Longrightarrow> recv_loop recv handle go stop script s = Done s' \<Longrightarrow> inv s'"
proof (induction script arbitrary: s)
  case Nil
  then show ?case by (simp split: if_splits)
next
  case (Cons b script)
  obtain cs ce where b: "b = (cs, ce)" by force
  show ?case
  proof (cases "go s")
    case True
    then obtain s1 s2 where s: "recv s = Done s1" "deliver_all handle cs s1 = Done s2"
      using Cons.prems by (auto simp: b obind_eq_Done)
    have "inv s2" using deliver_all_inv [OF recv_inv [OF Cons.prems(1) s(1)] s(2)] .
    then show ?thesis using Cons s True by (auto simp: b split: if_splits)
  qed (use Cons.prems in \<open>simp add: b\<close>)
qed

end

text \<open>Handlers that return from every callback make a loop that ends with the connection.\<close>

locale total_recv_client = recv_client +
  assumes recv_total: "inv s \<Longrightarrow> \<exists>s'. recv s = Done s'"
    and handle_total: "inv s \<Longrightarrow> \<exists>s'. handle c s = Done s'"
begin

lemma deliver_all_total: "inv s \<Longrightarrow> \<exists>s'. deliver_all handle cs s = Done s' \<and> inv s'"
proof (induction cs arbitrary: s)
  case (Cons c cs)
  obtain s' where s': "handle c s = Done s'" using handle_total [OF Cons.prems] by blast
  then show ?case using Cons.IH [OF handle_inv [OF Cons.prems s']] by simp
qed simp

lemma recv_loop_returns:
  "inv s \<Longrightarrow> \<exists>b\<in>set script. snd b \<noteq> ConnNoError \<Longrightarrow>
   \<exists>s'. recv_loop recv handle go stop script s = Done s' \<and> inv s'"
proof (induction script arbitrary: s)
  case (Cons b script)
  obtain cs ce where b: "b = (cs, ce)" by force
  obtain s1 where s1: "recv s = Done s1" using recv_total [OF Cons.prems(1)] by blast
  obtain s2 where s2: "deliver_all handle cs s1 = Done s2" "inv s2"
    using deliver_all_total [OF recv_inv [OF Cons.prems(1) s1]] by blast
  show ?case
  proof (cases "stop s2 \<or> ce \<noteq> ConnNoError")
    case True
    then show ?thesis using Cons.prems(1) s1 s2 by (auto simp: b)
  next
    case False
    then show ?thesis using Cons.IH [OF s2(2)] Cons.prems s1 s2 by (auto simp: b)
  qed
qed simp

end

end
