(* ===== verification/Accounts.thy ===== *)
theory Accounts
  imports Gloox
begin

text \<open>
  \<^verbatim>\<open>class AccountRegistration\<close> and \<^verbatim>\<open>class AccountEraser\<close>
  (\<^verbatim>\<open>product/source/AccountRegistration.{h,cpp}\<close>, \<^verbatim>\<open>AccountEraser.{h,cpp}\<close>): each opens a connection of
  its own, asks for one account operation and waits for the answer.  A state is the object and the
  log of gloox.
\<close>

datatype operation_status = INCOMPLETE | SUCCESS | FAILURE

text \<open>The callbacks of \<^verbatim>\<open>ConnectionListener\<close>, \<^verbatim>\<open>LogHandler\<close> and \<^verbatim>\<open>RegistrationHandler\<close>.\<close>

datatype account_callback =
    AccountOnConnect
  | AccountOnDisconnect connection_error
  | AccountOnTLSConnect
  | AccountHandleLog bytes
  | RegistrationFields int32
  | AlreadyRegistered
  | RegistrationAnswer registration_result
  | AccountHandleDataForm
  | AccountHandleOOB

abbreviation VERSION_CALLS :: "gloox_call list" where
  "VERSION_CALLS \<equiv>
     [DiscoSetVersion ''messageTest'' ''Linux'', DiscoSetIdentity ''client'' ''bot'',
      DiscoAddFeature ''XMLNS_REGISTER'', DiscoAddFeature ''XMLNS_STREAM_IQREGISTER'']"

section \<open>AccountRegistration\<close>

record registration =
  mStatus :: operation_status
  mHostname :: bytes
  reg_username :: bytes
  reg_password :: bytes
  reg_client :: "nat option"
  reg_registration :: "nat option"

type_synonym registration_state = "registration \<times> gloox"

definition new_AccountRegistration :: registration where
  "new_AccountRegistration =
     \<lparr>mStatus = INCOMPLETE, mHostname = [], reg_username = [], reg_password = [],
      reg_client = None, reg_registration = None\<rparr>"

definition delete_AccountRegistration :: "registration_state \<Rightarrow> gloox" where
  "delete_AccountRegistration s =
     (case s of (r, g) \<Rightarrow>
        let g = (case reg_client r of None \<Rightarrow> g | Some h \<Rightarrow> gcall h DeleteObject g)
        in case reg_registration r of None \<Rightarrow> g | Some h \<Rightarrow> gcall h DeleteObject g)"

text \<open>A missing registration object is tested and used all the same.\<close>

definition reg_onConnect :: "registration_state \<Rightarrow> registration_state outcome" where
  "reg_onConnect s =
     (case s of (r, g) \<Rightarrow>
        obind (if reg_registration r = None then gcall_ptr (reg_client r) DisconnectCall g else Done g) (\<lambda>g.
        obind (gcall_ptr (reg_registration r) FetchRegistrationFields g) (\<lambda>g. Done (r, g))))"

definition reg_handleRegistrationFields :: "int32 \<Rightarrow> registration_state \<Rightarrow> registration_state outcome" where
  "reg_handleRegistrationFields fieldset s =
     (case s of (r, g) \<Rightarrow>
        obind (if reg_registration r = None then gcall_ptr (reg_client r) DisconnectCall g else Done g) (\<lambda>g.
        obind (gcall_ptr (reg_registration r) (CreateAccount fieldset (reg_username r) (reg_password r)) g)
          (\<lambda>g. Done (r, g))))"

definition reg_handleAlreadyRegistered :: "registration_state \<Rightarrow> registration_state outcome" where
  "reg_handleAlreadyRegistered s = (case s of (r, g) \<Rightarrow> Done (r\<lparr>mStatus := FAILURE\<rparr>, g))"

definition reg_handleRegistrationResult ::
    "registration_result \<Rightarrow> registration_state \<Rightarrow> registration_state outcome" where
  "reg_handleRegistrationResult result s =
     (case s of (r, g) \<Rightarrow>
        if result = RegistrationSuccess then
          let r = r\<lparr>mStatus := SUCCESS\<rparr> in
          obind (gcall_ptr (reg_registration r) RemoveRegistrationHandler g) (\<lambda>g. Done (r, g))
        else Done (r\<lparr>mStatus := FAILURE\<rparr>, g))"

text \<open>\<^verbatim>\<open>onDisconnect\<close>, \<^verbatim>\<open>onTLSConnect\<close>, \<^verbatim>\<open>handleDataForm\<close> and \<^verbatim>\<open>handleOOB\<close> are empty; \<^verbatim>\<open>handleLog\<close> prints.\<close>

fun reg_handle :: "account_callback \<Rightarrow> registration_state \<Rightarrow> registration_state outcome" where
  "reg_handle AccountOnConnect s = reg_onConnect s"
| "reg_handle (RegistrationFields fieldset) s = reg_handleRegistrationFields fieldset s"
| "reg_handle AlreadyRegistered s = reg_handleAlreadyRegistered s"
| "reg_handle (RegistrationAnswer result) s = reg_handleRegistrationResult result s"
| "reg_handle c s = Done s"

definition reg_recv :: "registration_state \<Rightarrow> registration_state outcome" where
  "reg_recv s = (case s of (r, g) \<Rightarrow> obind (gcall_ptr (reg_client r) RecvCall g) (\<lambda>g. Done (r, g)))"

definition reg_go :: "registration_state \<Rightarrow> bool" where
  "reg_go s = (reg_client (fst s) \<noteq> None)"

definition reg_stop :: "registration_state \<Rightarrow> bool" where
  "reg_stop s = (mStatus (fst s) = SUCCESS \<or> mStatus (fst s) = FAILURE)"

text \<open>\<open>debug\<close>: \<^verbatim>\<open>DEBUG\<close> is defined.  A second \<^verbatim>\<open>init\<close> replaces the objects of the first, which leak.\<close>

definition AccountRegistration_init ::
    "bool \<Rightarrow> account_callback session \<Rightarrow> bytes \<Rightarrow> bytes \<Rightarrow> bytes \<Rightarrow> int32 \<Rightarrow> bool \<Rightarrow>
     registration_state \<Rightarrow> (bool \<times> registration_state) outcome" where
  "AccountRegistration_init debug net username password host port enableLogging s =
     (case s of (r, g) \<Rightarrow>
        if username = [] \<or> password = [] \<or> host = [] then Done (False, (r, g))
        else
          let r = r\<lparr>reg_username := username, reg_password := password, mHostname := host,
                    mStatus := INCOMPLETE\<rparr>;
              (c, g) = gnew (NewClientHost host) g;
              g = gcalls c ([SetPort port, RegisterConnectionListener] @ VERSION_CALLS) g;
              (reg, g) = gnew (NewRegistration c) g;
              g = gcall reg RegisterRegistrationHandler g;
              g = (if debug \<and> enableLogging then gcall c RegisterLogHandler g else g);
              r = r\<lparr>reg_client := Some c, reg_registration := Some reg\<rparr>;
              g = gcall c (ConnectCall False) g
          in obind (deliver_all reg_handle (connect_callbacks net) (r, g)) (\<lambda>s.
             obind (if connect_result net
                    then recv_loop reg_recv reg_handle reg_go reg_stop (recvs net) s else Done s) (\<lambda>s.
             Done (True, s))))"

section \<open>AccountEraser\<close>

record eraser =
  eraser_status :: operation_status
  eraser_client :: "nat option"
  eraser_registration :: "nat option"

type_synonym eraser_state = "eraser \<times> gloox"

definition new_AccountEraser :: eraser where
  "new_AccountEraser = \<lparr>eraser_status = INCOMPLETE, eraser_client = None, eraser_registration = None\<rparr>"

definition delete_AccountEraser :: "eraser_state \<Rightarrow> gloox" where
  "delete_AccountEraser s =
     (case s of (r, g) \<Rightarrow>
        let g = (case eraser_client r of None \<Rightarrow> g | Some h \<Rightarrow> gcall h DeleteObject g)
        in case eraser_registration r of None \<Rightarrow> g | Some h \<Rightarrow> gcall h DeleteObject g)"

definition eraser_onConnect :: "eraser_state \<Rightarrow> eraser_state outcome" where
  "eraser_onConnect s =
     (case s of (r, g) \<Rightarrow>
        obind (if eraser_registration r = None then gcall_ptr (eraser_client r) DisconnectCall g else Done g) (\<lambda>g.
        obind (gcall_ptr (eraser_registration r) RemoveAccount g) (\<lambda>g. Done (r, g))))"

definition eraser_handleAlreadyRegistered :: "eraser_state \<Rightarrow> eraser_state outcome" where
  "eraser_handleAlreadyRegistered s = (case s of (r, g) \<Rightarrow> Done (r\<lparr>eraser_status := FAILURE\<rparr>, g))"

definition eraser_handleRegistrationResult ::
    "registration_result \<Rightarrow> eraser_state \<Rightarrow> eraser_state outcome" where
  "eraser_handleRegistrationResult result s =
     (case s of (r, g) \<Rightarrow>
        if result = RegistrationSuccess then
          let r = r\<lparr>eraser_status := SUCCESS\<rparr> in
          obind (gcall_ptr (eraser_registration r) RemoveRegistrationHandler g) (\<lambda>g. Done (r, g))
        else Done (r\<lparr>eraser_status := FAILURE\<rparr>, g))"

fun eraser_handle :: "account_callback \<Rightarrow> eraser_state \<Rightarrow> eraser_state outcome" where
  "eraser_handle AccountOnConnect s = eraser_onConnect s"
| "eraser_handle AlreadyRegistered s = eraser_handleAlreadyRegistered s"
| "eraser_handle (RegistrationAnswer result) s = eraser_handleRegistrationResult result s"
| "eraser_handle c s = Done s"

definition eraser_recv :: "eraser_state \<Rightarrow> eraser_state outcome" where
  "eraser_recv s = (case s of (r, g) \<Rightarrow> obind (gcall_ptr (eraser_client r) RecvCall g) (\<lambda>g. Done (r, g)))"

definition eraser_go :: "eraser_state \<Rightarrow> bool" where
  "eraser_go s = (eraser_client (fst s) \<noteq> None)"

definition eraser_stop :: "eraser_state \<Rightarrow> bool" where
  "eraser_stop s = (eraser_status (fst s) = SUCCESS \<or> eraser_status (fst s) = FAILURE)"

text \<open>The source defines \<^verbatim>\<open>DEBUG\<close> itself here.\<close>

definition AccountEraser_init ::
    "account_callback session \<Rightarrow> bytes \<Rightarrow> bytes \<Rightarrow> bytes \<Rightarrow> int32 \<Rightarrow> bool \<Rightarrow>
     eraser_state \<Rightarrow> (bool \<times> eraser_state) outcome" where
  "AccountEraser_init net username password host port enableLogging s =
     (case s of (r, g) \<Rightarrow>
        if username = [] \<or> password = [] \<or> host = [] then Done (False, (r, g))
        else
          let r = r\<lparr>eraser_status := INCOMPLETE\<rparr>;
              (c, g) = gnew (NewClientHost host) g;
              g = gcalls c ([DisableRoster, SetPort port, SetUsername username, SetPassword password,
                    RegisterConnectionListener] @ VERSION_CALLS) g;
              (reg, g) = gnew (NewRegistration c) g;
              g = gcall reg RegisterRegistrationHandler g;
              g = (if enableLogging then gcall c RegisterLogHandler g else g);
              r = r\<lparr>eraser_client := Some c, eraser_registration := Some reg\<rparr>;
              g = gcall c (ConnectCall False) g
          in obind (deliver_all eraser_handle (connect_callbacks net) (r, g)) (\<lambda>s.
             obind (if connect_result net
                    then recv_loop eraser_recv eraser_handle eraser_go eraser_stop (recvs net) s else Done s) (\<lambda>s.
             Done (True, s))))"

end
