(* ===== verification/XmppClient.thy ===== *)
theory XmppClient
  imports StdMap Accounts CFormat
begin

text \<open>
  \<^verbatim>\<open>namespace xmpp\<close>: \<^verbatim>\<open>class Client\<close> with its \<^verbatim>\<open>Peer\<close>s (\<^verbatim>\<open>product/source/XmppClient.{h,cpp}\<close>) and
  \<^verbatim>\<open>class Listener\<close> (\<^verbatim>\<open>product/source/XmppListener.{h,cpp}\<close>), which stands between it and gloox.  The
  listener is a part of the state of its client.  Two threads work on this state without a lock; here
  each function is one step, and \<open>connect\<close> is also given in the parts the other thread may come
  between.
\<close>

section \<open>Constants and enumerations\<close>

definition kDocentUsername :: bytes where "kDocentUsername = bytes_of ''docent''"
definition kGameEngineUsername :: bytes where "kGameEngineUsername = bytes_of ''game-engine''"
definition kGameLauncherUsername :: bytes where "kGameLauncherUsername = bytes_of ''game-launcher''"

datatype state_t = CONNECTED | TLS_CONNECTED | DISCONNECTED | ROSTER_LOADED | STATE_ERROR

datatype error_t = NoError | GeneralError | AuthenticationError | ProtocolError | StreamError | ConnectionError

datatype status_t = Available | Chat | Away | DND | XA | Unavailable | Invalid

fun status_value :: "status_t \<Rightarrow> int" where
  "status_value Available = 0"
| "status_value Chat = 1"
| "status_value Away = 2"
| "status_value DND = 3"
| "status_value XA = 4"
| "status_value Unavailable = 5"
| "status_value Invalid = 6"

text \<open>Enumerators compare by their values, as in \<^verbatim>\<open>mStatus < 5\<close>.\<close>

lemma status_value_inject: "status_value s = status_value t \<longleftrightarrow> s = t"
  by (cases s; cases t) simp_all

instantiation status_t :: linorder
begin

definition less_eq_status_t :: "status_t \<Rightarrow> status_t \<Rightarrow> bool" where
  "s \<le> t \<longleftrightarrow> status_value s \<le> status_value t"

definition less_status_t :: "status_t \<Rightarrow> status_t \<Rightarrow> bool" where
  "s < t \<longleftrightarrow> status_value s < status_value t"

instance
  by standard (auto simp: less_eq_status_t_def less_status_t_def status_value_inject)

end

definition status_of_value :: "int \<Rightarrow> status_t" where
  "status_of_value n =
     (if n = 0 then Available else if n = 1 then Chat else if n = 2 then Away else if n = 3 then DND
      else if n = 4 then XA else if n = 5 then Unavailable else Invalid)"

definition presenceToStatus :: "presence_type \<Rightarrow> status_t" where
  "presenceToStatus value =
     (if presence_value value \<le> 6 then status_of_value (presence_value value) else Invalid)"

fun statusString :: "status_t \<Rightarrow> string" where
  "statusString Available = ''available''"
| "statusString Chat = ''chat''"
| "statusString Away = ''away''"
| "statusString DND = ''do not disturb''"
| "statusString XA = ''extended away''"
| "statusString Unavailable = ''unavailable''"
| "statusString Invalid = ''invalid''"

section \<open>Peers\<close>

record peer =
  mConnected :: bool
  mUsername :: bytes
  peer_status :: status_t

definition Peer :: "bytes \<Rightarrow> bool \<Rightarrow> status_t \<Rightarrow> peer" where
  "Peer user conn status = \<lparr>mConnected = conn, mUsername = user, peer_status = status\<rparr>"

definition setConnected :: "bool \<Rightarrow> peer \<Rightarrow> peer" where
  "setConnected value p = p\<lparr>mConnected := value\<rparr>"

definition setUsername :: "bytes \<Rightarrow> peer \<Rightarrow> peer" where
  "setUsername value p = p\<lparr>mUsername := value\<rparr>"

definition setStatus :: "status_t \<Rightarrow> peer \<Rightarrow> peer" where
  "setStatus value p = (let p = p\<lparr>peer_status := value\<rparr> in p\<lparr>mConnected := peer_status p < Unavailable\<rparr>)"

definition peer_eq :: "peer \<Rightarrow> peer \<Rightarrow> bool" where
  "peer_eq lhs rhs = (mUsername lhs = mUsername rhs)"

definition peer_neq :: "peer \<Rightarrow> peer \<Rightarrow> bool" where
  "peer_neq lhs rhs = (mUsername lhs \<noteq> mUsername rhs)"

section \<open>The state\<close>

record event =
  event_username :: bytes
  event_message :: bytes

record presence_event =
  presence_username :: bytes
  presence_status :: status_t

record listener =
  mServer :: bytes
  listener_username :: bytes
  mIsConnected :: bool
  mClient :: "nat option"
  mSession :: "nat option"
  mMessageEventFilter :: "nat option"
  mChatStateFilter :: "nat option"
  mRegistration :: "nat option"
  mDelegate :: bool

text \<open>The callbacks of the application: which are set, and the calls made of them.\<close>

datatype signal =
    SignalConnect | SignalTlsConnect | SignalDisconnect | SignalRoster | SignalHandleMsg
  | SignalRosterPresence | SignalRegistration

datatype signal_call =
    CalledConnect
  | CalledTlsConnect
  | CalledDisconnect error_t
  | CalledRoster "bytes list"
  | CalledMsg peer bytes bytes
  | CalledPresence peer bytes status_t bytes
  | CalledRegistration

text \<open>
  \<open>threads\<close>: how many threads \<^verbatim>\<open>pthread_create\<close> has started; \<open>mListenerThread\<close> holds the last one's
  number.
\<close>

record xmpp_client =
  mInitialConnection :: bool
  mAccountCreator :: registration
  client_username :: bytes
  client_password :: bytes
  client_server :: bytes
  mListener :: listener
  mListenerThread :: "nat option"
  threads :: nat
  mRoster :: "peer std_map"
  mEventQueue :: "event list"
  mStateQueue :: "state_t list"
  mPresenceQueue :: "presence_event list"
  mSignals :: "signal list"
  signal_calls :: "signal_call list"
  gloox_state :: gloox

definition new_Listener :: "bool \<Rightarrow> listener" where
  "new_Listener delegate =
     \<lparr>mServer = [], listener_username = [], mIsConnected = False, mClient = None, mSession = None,
      mMessageEventFilter = None, mChatStateFilter = None, mRegistration = None, mDelegate = delegate\<rparr>"

definition new_Client :: xmpp_client where
  "new_Client =
     \<lparr>mInitialConnection = False, mAccountCreator = new_AccountRegistration, client_username = [],
      client_password = [], client_server = [], mListener = new_Listener True, mListenerThread = None,
      threads = 0, mRoster = [], mEventQueue = [], mStateQueue = [], mPresenceQueue = [], mSignals = [],
      signal_calls = [], gloox_state = no_gloox\<rparr>"

definition setSignal :: "signal \<Rightarrow> bool \<Rightarrow> xmpp_client \<Rightarrow> xmpp_client" where
  "setSignal k callable s =
     s\<lparr>mSignals := (if callable then k # removeAll k (mSignals s) else removeAll k (mSignals s))\<rparr>"

definition emit :: "signal \<Rightarrow> signal_call \<Rightarrow> xmpp_client \<Rightarrow> xmpp_client" where
  "emit k c s = (if k \<in> set (mSignals s) then s\<lparr>signal_calls := signal_calls s @ [c]\<rparr> else s)"

definition push_state :: "state_t \<Rightarrow> xmpp_client \<Rightarrow> xmpp_client" where
  "push_state x s = s\<lparr>mStateQueue := mStateQueue s @ [x]\<rparr>"

definition push_event :: "event \<Rightarrow> xmpp_client \<Rightarrow> xmpp_client" where
  "push_event e s = s\<lparr>mEventQueue := mEventQueue s @ [e]\<rparr>"

definition push_presence :: "presence_event \<Rightarrow> xmpp_client \<Rightarrow> xmpp_client" where
  "push_presence e s = s\<lparr>mPresenceQueue := mPresenceQueue s @ [e]\<rparr>"

definition set_listener :: "(listener \<Rightarrow> listener) \<Rightarrow> xmpp_client \<Rightarrow> xmpp_client" where
  "set_listener f s = s\<lparr>mListener := f (mListener s)\<rparr>"

text \<open>A call of gloox through a pointer of the listener.\<close>

definition ask_gloox :: "nat option \<Rightarrow> gloox_call \<Rightarrow> xmpp_client \<Rightarrow> xmpp_client outcome" where
  "ask_gloox p c s = obind (gcall_ptr p c (gloox_state s)) (\<lambda>g. Done (s\<lparr>gloox_state := g\<rparr>))"

section \<open>Calls of the application\<close>

text \<open>\<^verbatim>\<open>Listener::setup\<close>: a client that is there already is replaced and leaks.\<close>

definition Listener_setup ::
    "bool \<Rightarrow> bytes \<Rightarrow> bytes \<Rightarrow> bytes \<Rightarrow> int32 \<Rightarrow> bool \<Rightarrow> xmpp_client \<Rightarrow> xmpp_client" where
  "Listener_setup debug username password server port enableLogging s =
     (let address = username @ bytes_of ''@'';
          (address, s) = (if server = [] then (address @ mServer (mListener s), s)
            else (address @ server, set_listener (\<lambda>l. l\<lparr>mServer := server\<rparr>) s));
          (c, g) = gnew (NewClientJid (AddressText address) password port) (gloox_state s);
          g = gcalls c [RegisterPresenceHandler, RegisterConnectionListener, RegisterMessageSessionHandler 0,
                RegisterRosterListener, DiscoSetVersion ''EscMessanger'' ''Darwin'',
                DiscoSetIdentity ''client'' ''bot'', DiscoAddFeature ''XMLNS_CHAT_STATES''] g;
          g = (if debug \<and> enableLogging then gcall c RegisterLogHandler g else g)
      in set_listener (\<lambda>l. l\<lparr>mClient := Some c\<rparr>) (s\<lparr>gloox_state := g\<rparr>))"

definition Listener_closeConnection :: "xmpp_client \<Rightarrow> xmpp_client outcome" where
  "Listener_closeConnection s =
     (if mIsConnected (mListener s) \<and> mClient (mListener s) \<noteq> None
      then ask_gloox (mClient (mListener s)) DisconnectCall s else Done s)"

definition Listener_sendMessage :: "address \<Rightarrow> bytes \<Rightarrow> bytes \<Rightarrow> xmpp_client \<Rightarrow> (bool \<times> xmpp_client) outcome" where
  "Listener_sendMessage recipient message subject s =
     (if \<not> mIsConnected (mListener s) \<or> message = [] \<or> mClient (mListener s) = None then Done (False, s)
      else obind (ask_gloox (mClient (mListener s)) (SendMessageStanza MessageChat recipient message subject) s)
        (\<lambda>s. Done (True, s)))"

definition Listener_subscribeTo :: "address \<Rightarrow> xmpp_client \<Rightarrow> (bool \<times> xmpp_client) outcome" where
  "Listener_subscribeTo recipient s =
     (if \<not> mIsConnected (mListener s) \<or> mClient (mListener s) = None then Done (False, s)
      else obind (ask_gloox (mClient (mListener s)) (SendSubscribe recipient) s) (\<lambda>s. Done (True, s)))"

text \<open>
  \<open>meanwhile\<close> is what gloox calls back from \<^verbatim>\<open>disconnect\<close>; \<^verbatim>\<open>delete mClient\<close> deletes the client that is there
  afterwards, if any.
\<close>

definition delete_Listener :: "(xmpp_client \<Rightarrow> xmpp_client outcome) \<Rightarrow> xmpp_client \<Rightarrow> xmpp_client outcome" where
  "delete_Listener meanwhile s =
     obind (if mClient (mListener s) \<noteq> None
            then obind (ask_gloox (mClient (mListener s)) DisconnectCall s) meanwhile else Done s) (\<lambda>s.
     obind (if mClient (mListener s) \<noteq> None
            then ask_gloox (mClient (mListener s)) DeleteObject s else Done s) (\<lambda>s.
       Done (set_listener (\<lambda>l. l\<lparr>mClient := None\<rparr>) s)))"

definition Client_clear_queues :: "xmpp_client \<Rightarrow> xmpp_client" where
  "Client_clear_queues s = s\<lparr>mEventQueue := [], mStateQueue := [], mPresenceQueue := []\<rparr>"

text \<open>The three parts of \<^verbatim>\<open>connect\<close>; the thread that \<^verbatim>\<open>pthread_create\<close> starts runs from the second on.\<close>

definition connect_begin ::
    "bool \<Rightarrow> bytes \<Rightarrow> bytes \<Rightarrow> bytes \<Rightarrow> int32 \<Rightarrow> bool \<Rightarrow> xmpp_client \<Rightarrow> xmpp_client" where
  "connect_begin debug xmppUser xmppPassword xmppServer xmppPort enableLogging s =
     Client_clear_queues (Listener_setup debug xmppUser xmppPassword xmppServer xmppPort enableLogging s)"

definition connect_spawn :: "xmpp_client \<Rightarrow> xmpp_client" where
  "connect_spawn s = s\<lparr>mListenerThread := Some (threads s), threads := threads s + 1\<rparr>"

definition connect_store :: "bytes \<Rightarrow> bytes \<Rightarrow> bytes \<Rightarrow> xmpp_client \<Rightarrow> xmpp_client" where
  "connect_store xmppUser xmppPassword xmppServer s =
     s\<lparr>client_username := xmppUser, client_password := xmppPassword, client_server := xmppServer,
       mInitialConnection := True\<rparr>"

definition Client_connect ::
    "bool \<Rightarrow> bool \<Rightarrow> bytes \<Rightarrow> bytes \<Rightarrow> bytes \<Rightarrow> int32 \<Rightarrow> bool \<Rightarrow> xmpp_client \<Rightarrow> bool \<times> xmpp_client" where
  "Client_connect debug thread_ok xmppUser xmppPassword xmppServer xmppPort enableLogging s =
     (if xmppUser = [] \<or> xmppServer = [] then (False, s)
      else
        let s = connect_begin debug xmppUser xmppPassword xmppServer xmppPort enableLogging s in
        if \<not> thread_ok then (False, s)
        else (True, connect_store xmppUser xmppPassword xmppServer (connect_spawn s)))"

text \<open>
  \<open>meanwhile\<close> is what the listening thread does while \<^verbatim>\<open>pthread_join\<close> waits for it; \<open>join_ok\<close>: it gave 0.
\<close>

definition Client_disconnect ::
    "(xmpp_client \<Rightarrow> xmpp_client outcome) \<Rightarrow> bool \<Rightarrow> xmpp_client \<Rightarrow> (bool \<times> xmpp_client) outcome" where
  "Client_disconnect meanwhile join_ok s =
     (if mIsConnected (mListener s) then
        obind (Listener_closeConnection (s\<lparr>mInitialConnection := False\<rparr>)) (\<lambda>s.
        obind (meanwhile s) (\<lambda>s. Done (join_ok, s)))
      else Done (False, s))"

definition Client_sendMessage :: "bytes \<Rightarrow> bytes \<Rightarrow> bytes \<Rightarrow> xmpp_client \<Rightarrow> (bool \<times> xmpp_client) outcome" where
  "Client_sendMessage recipient message subject s =
     (if recipient = [] then Done (False, s)
      else Listener_sendMessage (AddressText (recipient @ bytes_of ''@'' @ mServer (mListener s))) message subject s)"

definition getStatusForPeer :: "bytes \<Rightarrow> xmpp_client \<Rightarrow> status_t" where
  "getStatusForPeer username s =
     (case map_find username (mRoster s) of Some p \<Rightarrow> peer_status p | None \<Rightarrow> Invalid)"

definition isPeerConnected :: "bytes \<Rightarrow> xmpp_client \<Rightarrow> bool" where
  "isPeerConnected username s =
     (case map_find username (mRoster s) of Some p \<Rightarrow> mConnected p | None \<Rightarrow> False)"

definition delete_Client :: "(xmpp_client \<Rightarrow> xmpp_client outcome) \<Rightarrow> xmpp_client \<Rightarrow> xmpp_client outcome" where
  "delete_Client meanwhile s = delete_Listener meanwhile s"

section \<open>Callbacks\<close>

definition Client_onConnect :: "xmpp_client \<Rightarrow> xmpp_client" where
  "Client_onConnect s = emit SignalConnect CalledConnect (push_state CONNECTED s)"

definition Client_onTLSConnect :: "xmpp_client \<Rightarrow> xmpp_client" where
  "Client_onTLSConnect s = emit SignalTlsConnect CalledTlsConnect (push_state TLS_CONNECTED s)"

definition Client_onRegistration :: "xmpp_client \<Rightarrow> xmpp_client" where
  "Client_onRegistration s = emit SignalRegistration CalledRegistration s"

text \<open>The \<^verbatim>\<open>switch\<close> of \<^verbatim>\<open>onDisconnect\<close>: the error, and whether it is one of authentication.\<close>

fun disconnect_error :: "connection_error \<Rightarrow> error_t" where
  "disconnect_error ConnNoError = NoError"
| "disconnect_error ConnStreamError = StreamError"
| "disconnect_error ConnStreamClosed = StreamError"
| "disconnect_error ConnIoError = StreamError"
| "disconnect_error ConnProxyAuthRequired = AuthenticationError"
| "disconnect_error ConnProxyAuthFailed = AuthenticationError"
| "disconnect_error ConnProxyNoSupportedAuth = AuthenticationError"
| "disconnect_error ConnTlsFailed = AuthenticationError"
| "disconnect_error ConnTlsNotAvailable = AuthenticationError"
| "disconnect_error ConnNoSupportedAuth = AuthenticationError"
| "disconnect_error ConnAuthenticationFailed = AuthenticationError"
| "disconnect_error ConnParseError = ProtocolError"
| "disconnect_error ConnStreamVersionError = ProtocolError"
| "disconnect_error ConnUserDisconnected = ConnectionError"
| "disconnect_error ConnNotConnected = ConnectionError"
| "disconnect_error ConnDnsError = ConnectionError"
| "disconnect_error ConnConnectionRefused = ConnectionError"
| "disconnect_error ConnOutOfMemory = GeneralError"
| "disconnect_error ConnCompressionFailed = GeneralError"

text \<open>
  \<open>net\<close>: how gloox plays the registration of the account; the arguments that \<^verbatim>\<open>init\<close> and \<^verbatim>\<open>connect\<close> are
  not given have their defaults.
\<close>

definition DEFAULT_PORT :: int32 where "DEFAULT_PORT = 5222"

definition Client_onDisconnect ::
    "bool \<Rightarrow> account_callback session \<Rightarrow> bool \<Rightarrow> connection_error \<Rightarrow> xmpp_client \<Rightarrow> xmpp_client outcome" where
  "Client_onDisconnect debug net thread_ok e s =
     (let err = disconnect_error e;
          shouldRegister = (err = AuthenticationError \<and> mInitialConnection s)
      in if shouldRegister then
           obind (AccountRegistration_init debug net (client_username s) (client_password s) (client_server s)
               DEFAULT_PORT False (mAccountCreator s, gloox_state s)) (\<lambda>(_, (r, g)).
             let s = s\<lparr>mAccountCreator := r, gloox_state := g, mInitialConnection := False\<rparr> in
             if mStatus (mAccountCreator s) = SUCCESS
             then Done (snd (Client_connect debug thread_ok (client_username s) (client_password s)
                    (client_server s) DEFAULT_PORT False s))
             else Done s)
         else Done (emit SignalDisconnect (CalledDisconnect err) (push_state DISCONNECTED s)))"

definition Client_handleMessage :: "gloox_message \<Rightarrow> xmpp_client \<Rightarrow> xmpp_client" where
  "Client_handleMessage msg s =
     (let name = jid_username (msg_from msg);
          peer = (case map_find name (mRoster s) of
                    Some p \<Rightarrow> p | None \<Rightarrow> Peer (bytes_of ''unknown'') False Invalid);
          e = \<lparr>event_username = name, event_message = msg_body msg\<rparr>;
          s = push_event e s
      in emit SignalHandleMsg (CalledMsg peer (msg_subject msg) (msg_body msg)) s)"

text \<open>A roster is the user names of its items, in the order of its iterators.\<close>

definition Client_handleRoster :: "bytes list \<Rightarrow> xmpp_client \<Rightarrow> xmpp_client outcome" where
  "Client_handleRoster roster s =
     (let subscribeToGame = (client_username s \<noteq> kDocentUsername);
          s = s\<lparr>mRoster := []\<rparr>;
          (subscribeToGame, s) = fold (\<lambda>username (subscribeToGame, s).
              (if kGameEngineUsername = username then False else subscribeToGame,
               s\<lparr>mRoster := map_insert username (Peer username False Invalid) (mRoster s)\<rparr>))
            roster (subscribeToGame, s)
      in obind (if subscribeToGame
           then obind (Listener_subscribeTo
                  (AddressText (kGameEngineUsername @ bytes_of ''@'' @ mServer (mListener s))) s)
                  (\<lambda>(_, s). Done s)
           else Done s) (\<lambda>s.
         Done (emit SignalRoster (CalledRoster roster) (push_state ROSTER_LOADED s))))"

text \<open>The signal is given the peer that was looked up, also when there is none.\<close>

definition Client_handleRosterPresence ::
    "jid \<Rightarrow> bytes \<Rightarrow> presence_type \<Rightarrow> bytes \<Rightarrow> xmpp_client \<Rightarrow> xmpp_client outcome" where
  "Client_handleRosterPresence item resource presence message s =
     (let name = jid_username item;
          status = presenceToStatus presence;
          s = s\<lparr>mRoster := map_modify name (setStatus status) (mRoster s)\<rparr>;
          e = \<lparr>presence_username = name, presence_status = status\<rparr>;
          s = push_presence e s
      in if SignalRosterPresence \<in> set (mSignals s) then
           case map_find name (mRoster s) of
             None \<Rightarrow> Faulted EndIterator
           | Some p \<Rightarrow> Done (emit SignalRosterPresence (CalledPresence p resource status message) s)
         else Done s)"

section \<open>The listener's callbacks\<close>

definition to_delegate :: "(xmpp_client \<Rightarrow> xmpp_client outcome) \<Rightarrow> xmpp_client \<Rightarrow> xmpp_client outcome" where
  "to_delegate f s = (if mDelegate (mListener s) then f s else Done s)"

definition Listener_onConnect :: "xmpp_client \<Rightarrow> xmpp_client outcome" where
  "Listener_onConnect s =
     (let s = set_listener (\<lambda>l. l\<lparr>mIsConnected := True\<rparr>) s in
      obind (if mRegistration (mListener s) \<noteq> None
             then ask_gloox (mRegistration (mListener s)) FetchRegistrationFields s else Done s) (\<lambda>s.
      to_delegate (\<lambda>s. Done (Client_onConnect s)) s))"

definition Listener_onDisconnect ::
    "bool \<Rightarrow> account_callback session \<Rightarrow> bool \<Rightarrow> connection_error \<Rightarrow> xmpp_client \<Rightarrow> xmpp_client outcome" where
  "Listener_onDisconnect debug net thread_ok e s =
     to_delegate (Client_onDisconnect debug net thread_ok e) (set_listener (\<lambda>l. l\<lparr>mIsConnected := False\<rparr>) s)"

definition Listener_onTLSConnect :: "xmpp_client \<Rightarrow> xmpp_client outcome" where
  "Listener_onTLSConnect s =
     to_delegate (\<lambda>s. Done (Client_onTLSConnect s)) (set_listener (\<lambda>l. l\<lparr>mIsConnected := True\<rparr>) s)"

definition Listener_handleMessage :: "gloox_message \<Rightarrow> xmpp_client \<Rightarrow> xmpp_client outcome" where
  "Listener_handleMessage msg s = to_delegate (\<lambda>s. Done (Client_handleMessage msg s)) s"

text \<open>The filters of an earlier session leak.\<close>

definition Listener_handleMessageSession :: "nat \<Rightarrow> xmpp_client \<Rightarrow> xmpp_client outcome" where
  "Listener_handleMessageSession session s =
     obind (ask_gloox (mClient (mListener s)) (DisposeMessageSession (mSession (mListener s))) s) (\<lambda>s.
       let g = gcall session RegisterMessageHandler (gloox_state s);
           (f, g) = gnew (NewMessageEventFilter session) g;
           g = gcall f RegisterMessageEventHandler g;
           (c, g) = gnew (NewChatStateFilter session) g;
           g = gcall c RegisterChatStateHandler g
       in Done (set_listener (\<lambda>l. l\<lparr>mSession := Some session, mMessageEventFilter := Some f,
            mChatStateFilter := Some c\<rparr>) (s\<lparr>gloox_state := g\<rparr>)))"

definition Listener_handleSubscriptionRequest :: "address \<Rightarrow> xmpp_client \<Rightarrow> (bool \<times> xmpp_client) outcome" where
  "Listener_handleSubscriptionRequest from_jid s =
     obind (ask_gloox (mClient (mListener s)) (SendSubscribe from_jid) s) (\<lambda>s. Done (True, s))"

text \<open>The password is the user name, and \<^verbatim>\<open>setup\<close> stores neither.\<close>

definition Listener_handleRegistrationFields :: "int32 \<Rightarrow> xmpp_client \<Rightarrow> xmpp_client outcome" where
  "Listener_handleRegistrationFields fieldset s =
     ask_gloox (mRegistration (mListener s))
       (CreateAccount fieldset (listener_username (mListener s)) (listener_username (mListener s))) s"

definition Listener_handleRegistrationResult :: "registration_result \<Rightarrow> xmpp_client \<Rightarrow> xmpp_client outcome" where
  "Listener_handleRegistrationResult regResult s =
     (if RegistrationSuccess = regResult then
        obind (ask_gloox (mRegistration (mListener s)) RemoveRegistrationHandler s)
          (to_delegate (\<lambda>s. Done (Client_onRegistration s)))
      else Done s)"

text \<open>What gloox calls on the listener; the handlers that are empty or only print are \<open>OtherCallback\<close>.\<close>

datatype listener_callback =
    OnConnect
  | OnDisconnect connection_error "account_callback session" bool
  | OnTLSConnect
  | OnMessage gloox_message
  | OnMessageSession nat
  | OnRoster "bytes list"
  | OnRosterPresence jid bytes presence_type bytes
  | OnSubscriptionRequest jid
  | OnRegistrationFields int32
  | OnRegistrationResult registration_result
  | OtherCallback

fun Listener_handle :: "bool \<Rightarrow> listener_callback \<Rightarrow> xmpp_client \<Rightarrow> xmpp_client outcome" where
  "Listener_handle debug OnConnect s = Listener_onConnect s"
| "Listener_handle debug (OnDisconnect e net thread_ok) s = Listener_onDisconnect debug net thread_ok e s"
| "Listener_handle debug OnTLSConnect s = Listener_onTLSConnect s"
| "Listener_handle debug (OnMessage msg) s = Listener_handleMessage msg s"
| "Listener_handle debug (OnMessageSession session) s = Listener_handleMessageSession session s"
| "Listener_handle debug (OnRoster roster) s = to_delegate (Client_handleRoster roster) s"
| "Listener_handle debug (OnRosterPresence item resource presence msg) s =
     to_delegate (Client_handleRosterPresence item resource presence msg) s"
| "Listener_handle debug (OnSubscriptionRequest from_jid) s =
     obind (Listener_handleSubscriptionRequest (AddressOf from_jid) s) (\<lambda>(_, s). Done s)"
| "Listener_handle debug (OnRegistrationFields fieldset) s = Listener_handleRegistrationFields fieldset s"
| "Listener_handle debug (OnRegistrationResult regResult) s = Listener_handleRegistrationResult regResult s"
| "Listener_handle debug OtherCallback s = Done s"

section \<open>The listening thread\<close>

definition Listener_recv :: "xmpp_client \<Rightarrow> xmpp_client outcome" where
  "Listener_recv s = ask_gloox (mClient (mListener s)) RecvCall s"

definition Listener_go :: "xmpp_client \<Rightarrow> bool" where
  "Listener_go s = (mClient (mListener s) \<noteq> None)"

definition Listener_openConnection ::
    "bool \<Rightarrow> listener_callback session \<Rightarrow> bool \<Rightarrow> xmpp_client \<Rightarrow> xmpp_client outcome" where
  "Listener_openConnection debug net toggle s =
     (if \<not> mIsConnected (mListener s) \<and> mClient (mListener s) \<noteq> None then
        obind (ask_gloox (mClient (mListener s)) (ConnectCall toggle) s) (\<lambda>s.
        obind (deliver_all (Listener_handle debug) (connect_callbacks net) s) (\<lambda>s.
          if connect_result net
          then recv_loop Listener_recv (Listener_handle debug) Listener_go (\<lambda>_. False) (recvs net) s
          else Done s))
      else Done s)"

definition spawnThread :: "bool \<Rightarrow> listener_callback session \<Rightarrow> xmpp_client \<Rightarrow> xmpp_client outcome" where
  "spawnThread debug net s = Listener_openConnection debug net False s"

section \<open>The echoing listener\<close>

text \<open>\<^verbatim>\<open>class EchoListener\<close> (\<^verbatim>\<open>product/source/XmppEchoListener.{h,cpp}\<close>); \<open>console\<close> is what it prints.\<close>

record echo_listener =
  mEchoedMessages :: int64
  console :: "bytes list"

definition new_EchoListener :: echo_listener where
  "new_EchoListener = \<lparr>mEchoedMessages = 0, console = []\<rparr>"

definition EchoListener_handleMessage ::
    "gloox_message \<Rightarrow> echo_listener \<times> xmpp_client \<Rightarrow> (echo_listener \<times> xmpp_client) outcome" where
  "EchoListener_handleMessage msg es =
     (case es of (e, s) \<Rightarrow>
        obind (Listener_handleMessage msg s) (\<lambda>s.
          let e = e\<lparr>mEchoedMessages := mEchoedMessages e + 1\<rparr>;
              line = bytes_of ''  '' @ show_int64 (mEchoedMessages e) @ bytes_of '' sending '' @ msg_body msg @
                bytes_of '' to '' @ jid_username (msg_from msg) @ bytes_of ''@'' @ jid_server (msg_from msg);
              e = e\<lparr>console := console e @ [line]\<rparr>
          in obind (ask_gloox (mClient (mListener s))
               (SendMessageStanza (msg_subtype msg) (AddressOf (msg_from msg)) (msg_body msg) (msg_subject msg)) s)
             (\<lambda>s. Done (e, s))))"

end
