(* ===== verification/AccountsSpec.thy ===== *)
theory AccountsSpec
  imports Accounts
begin

text \<open>
  What an account operation guarantees: the account it asks for has the name and password it was
  given, its status is the server's verdict, and it returns when the connection ends.
\<close>

section \<open>Verdicts\<close>

fun verdict :: "account_callback \<Rightarrow> operation_status option" where
  "verdict AlreadyRegistered = Some FAILURE"
| "verdict (RegistrationAnswer result) = Some (if result = RegistrationSuccess then SUCCESS else FAILURE)"
| "verdict c = None"

text \<open>The last verdict among some callbacks; \<open>st\<close> where there is none.\<close>

definition last_verdict :: "account_callback list \<Rightarrow> operation_status \<Rightarrow> operation_status" where
  "last_verdict cs st = fold (\<lambda>c st. case verdict c of None \<Rightarrow> st | Some v \<Rightarrow> v) cs st"

text \<open>\<open>None\<close>: the server never decides and the connection does not end.\<close>

fun verdict_of_recvs :: "(account_callback list \<times> connection_error) list \<Rightarrow> operation_status \<Rightarrow> operation_status option" where
  "verdict_of_recvs [] st = None"
| "verdict_of_recvs ((cs, ce) # rest) st =
     (let st = last_verdict cs st in
      if st \<noteq> INCOMPLETE \<or> ce \<noteq> ConnNoError then Some st else verdict_of_recvs rest st)"

definition verdict_of_session :: "account_callback session \<Rightarrow> operation_status option" where
  "verdict_of_session net =
     (let st = last_verdict (connect_callbacks net) INCOMPLETE in
      if connect_result net then verdict_of_recvs (recvs net) st else Some st)"

lemma status_cases: "(st = SUCCESS \<or> st = FAILURE) \<longleftrightarrow> st \<noteq> INCOMPLETE"
  by (cases st) auto

section \<open>The contract of an account operation\<close>

text \<open>
  An object that waits for a verdict: every callback leaves the last verdict in its status, and the
  loop stops as soon as there is one.
\<close>

locale account_client = total_recv_client recv handle go stop inv
  for recv :: "'s \<Rightarrow> 's outcome"
    and handle :: "account_callback \<Rightarrow> 's \<Rightarrow> 's outcome"
    and go :: "'s \<Rightarrow> bool"
    and stop :: "'s \<Rightarrow> bool"
    and inv :: "'s \<Rightarrow> bool" +
  fixes status :: "'s \<Rightarrow> operation_status"
  assumes handle_status: "inv s \<Longrightarrow> handle c s = Done s' \<Longrightarrow> status s' = last_verdict [c] (status s)"
    and recv_status: "inv s \<Longrightarrow> recv s = Done s' \<Longrightarrow> status s' = status s"
    and go_inv: "inv s \<Longrightarrow> go s"
    and stop_status: "stop s \<longleftrightarrow> status s \<noteq> INCOMPLETE"
begin

lemma deliver_status:
  "inv s \<Longrightarrow> deliver_all handle cs s = Done s' \<Longrightarrow> status s' = last_verdict cs (status s)"
proof (induction cs arbitrary: s)
  case (Cons c cs)
  then obtain s1 where s1: "handle c s = Done s1" "deliver_all handle cs s1 = Done s'"
    by (auto simp: obind_eq_Done)
  show ?case
    using Cons.IH [OF handle_inv [OF Cons.prems(1) s1(1)] s1(2)] handle_status [OF Cons.prems(1) s1(1)]
    by (simp add: last_verdict_def)
qed (simp add: last_verdict_def)

text \<open>The loop gives the verdict; it waits for ever exactly when there is none.\<close>

lemma loop_verdict:
  assumes "inv s"
  shows "case verdict_of_recvs script (status s) of
      None \<Rightarrow> recv_loop recv handle go stop script s = Blocked
    | Some st \<Rightarrow> \<exists>s'. recv_loop recv handle go stop script s = Done s' \<and> status s' = st \<and> inv s'"
  using assms
proof (induction script arbitrary: s)
  case Nil
  then show ?case by (simp add: go_inv)
next
  case (Cons b script)
  obtain cs ce where b: "b = (cs, ce)" by force
  obtain s1 where s1: "recv s = Done s1" using recv_total [OF Cons.prems] by blast
  note inv1 = recv_inv [OF Cons.prems s1]
  obtain s2 where s2: "deliver_all handle cs s1 = Done s2" "inv s2" using deliver_all_total [OF inv1] by blast
  have st: "status s2 = last_verdict cs (status s)"
    using deliver_status [OF inv1 s2(1)] recv_status [OF Cons.prems s1] by simp
  show ?case
  proof (cases "last_verdict cs (status s) = INCOMPLETE \<and> ce = ConnNoError")
    case True
    have "recv_loop recv handle go stop (b # script) s = recv_loop recv handle go stop script s2"
      using s1 s2 st go_inv [OF Cons.prems] True by (simp add: b stop_status)
    moreover have "verdict_of_recvs (b # script) (status s) = verdict_of_recvs script (status s2)"
      using True st by (simp add: b)
    ultimately show ?thesis using Cons.IH [OF s2(2)] by (simp only:)
  next
    case False
    then show ?thesis
      unfolding b using s1 s2 st go_inv [OF Cons.prems] by (auto simp: stop_status Let_def)
  qed
qed

lemma session_verdict:
  assumes "inv s" and "status s = INCOMPLETE"
  shows "case verdict_of_session net of
      None \<Rightarrow> obind (deliver_all handle (connect_callbacks net) s) (\<lambda>s.
        if connect_result net then recv_loop recv handle go stop (recvs net) s else Done s) = Blocked
    | Some st \<Rightarrow> \<exists>s'. obind (deliver_all handle (connect_callbacks net) s) (\<lambda>s.
        if connect_result net then recv_loop recv handle go stop (recvs net) s else Done s) = Done s' \<and>
        status s' = st \<and> inv s'"
proof -
  obtain s1 where s1: "deliver_all handle (connect_callbacks net) s = Done s1" "inv s1"
    using deliver_all_total [OF assms(1)] by blast
  show ?thesis
    using loop_verdict [OF s1(2), of "recvs net"] deliver_status [OF assms(1) s1(1)] s1 assms(2)
    by (auto simp: verdict_of_session_def Let_def split: option.splits)
qed

end

lemma obind_assoc: "obind (obind m f) h = obind m (\<lambda>x. obind (f x) h)"
  by (cases m) auto

section \<open>Account registration\<close>

text \<open>
  \<open>reg_inv u p h\<close>: the object has what it needs to answer every callback, keeps its credentials, and
  every account asked for since the log was \<open>h\<close> has them.
\<close>

definition creates_only :: "bytes \<Rightarrow> bytes \<Rightarrow> (nat \<times> gloox_call) list \<Rightarrow> bool" where
  "creates_only u p l \<longleftrightarrow> (\<forall>h fields u' p'. (h, CreateAccount fields u' p') \<in> set l \<longrightarrow> u' = u \<and> p' = p)"

lemma creates_only_append [simp]:
  "creates_only u p (l @ l') \<longleftrightarrow> creates_only u p l \<and> creates_only u p l'"
  by (auto simp: creates_only_def)

lemma creates_only_Nil [simp]: "creates_only u p []"
  by (simp add: creates_only_def)

definition reg_inv :: "bytes \<Rightarrow> bytes \<Rightarrow> (nat \<times> gloox_call) list \<Rightarrow> registration_state \<Rightarrow> bool" where
  "reg_inv u p l s \<longleftrightarrow>
     reg_client (fst s) \<noteq> None \<and> reg_registration (fst s) \<noteq> None \<and>
     reg_username (fst s) = u \<and> reg_password (fst s) = p \<and>
     (\<exists>l'. glog (snd s) = l @ l' \<and> creates_only u p l')"

lemmas reg_defs =
  reg_onConnect_def reg_handleRegistrationFields_def reg_handleAlreadyRegistered_def
  reg_handleRegistrationResult_def reg_recv_def gcall_ptr_def gcall_def

lemma reg_handle_step:
  assumes "reg_inv u p l s"
  shows "\<exists>s'. reg_handle c s = Done s' \<and> reg_inv u p l s' \<and>
    mStatus (fst s') = last_verdict [c] (mStatus (fst s))"
proof -
  obtain r g where s: "s = (r, g)" by force
  obtain l' where l': "glog g = l @ l'" "creates_only u p l'"
    using assms by (auto simp: s reg_inv_def)
  show ?thesis
    using assms l'
    by (cases c) (auto simp: s reg_inv_def reg_defs last_verdict_def Let_def creates_only_def)
qed

lemma reg_recv_step:
  assumes "reg_inv u p l s"
  shows "\<exists>s'. reg_recv s = Done s' \<and> reg_inv u p l s' \<and> mStatus (fst s') = mStatus (fst s)"
  using assms by (cases s) (auto simp: reg_inv_def reg_defs creates_only_def)

interpretation registration_loop:
  account_client reg_recv reg_handle reg_go reg_stop "reg_inv u p l" "\<lambda>s. mStatus (fst s)" for u p l
proof
  show "reg_stop s = (mStatus (fst s) \<noteq> INCOMPLETE)" for s by (simp add: reg_stop_def status_cases)
  fix s s' c
  assume inv: "reg_inv u p l s"
  note recv = reg_recv_step [OF inv] and handle = reg_handle_step [OF inv, of c]
  show "reg_recv s = Done s' \<Longrightarrow> reg_inv u p l s'" "\<exists>s'. reg_recv s = Done s'"
    "reg_recv s = Done s' \<Longrightarrow> mStatus (fst s') = mStatus (fst s)" using recv by auto
  show "reg_handle c s = Done s' \<Longrightarrow> reg_inv u p l s'" "\<exists>s'. reg_handle c s = Done s'"
    "reg_handle c s = Done s' \<Longrightarrow> mStatus (fst s') = last_verdict [c] (mStatus (fst s))" using handle by auto
  show "reg_go s" using inv by (simp add: reg_go_def reg_inv_def)
qed

lemma registration_result:
  assumes "username \<noteq> []" and "password \<noteq> []" and "host \<noteq> []"
  shows "case verdict_of_session net of
      None \<Rightarrow> AccountRegistration_init debug net username password host port logging (r, g) = Blocked
    | Some st \<Rightarrow> \<exists>r' g' l. AccountRegistration_init debug net username password host port logging (r, g) =
          Done (True, (r', g')) \<and> mStatus r' = st \<and>
        glog g' = glog g @ l \<and> creates_only username password l"
proof -
  let ?r = "r\<lparr>reg_username := username, reg_password := password, mHostname := host, mStatus := INCOMPLETE\<rparr>"
  obtain c g1 where c: "gnew (NewClientHost host) g = (c, g1)" by force
  let ?g2 = "gcalls c ([SetPort port, RegisterConnectionListener] @ VERSION_CALLS) g1"
  obtain reg g3 where reg: "gnew (NewRegistration c) ?g2 = (reg, g3)" by force
  let ?g4 = "gcall reg RegisterRegistrationHandler g3"
  let ?g5 = "if debug \<and> logging then gcall c RegisterLogHandler ?g4 else ?g4"
  let ?s = "(?r\<lparr>reg_client := Some c, reg_registration := Some reg\<rparr>, gcall c (ConnectCall False) ?g5)"
  have init: "AccountRegistration_init debug net username password host port logging (r, g) =
      obind (obind (deliver_all reg_handle (connect_callbacks net) ?s) (\<lambda>s.
        if connect_result net then recv_loop reg_recv reg_handle reg_go reg_stop (recvs net) s else Done s))
      (\<lambda>s. Done (True, s))"
    using assms c reg by (simp add: AccountRegistration_init_def Let_def obind_assoc)
  have inv: "reg_inv username password (glog g) ?s"
    using glog_gnew [OF c] glog_gnew [OF reg] by (simp add: reg_inv_def creates_only_def)
  show ?thesis
    using registration_loop.session_verdict [OF inv, of net]
    by (auto simp: init reg_inv_def split: option.splits)
qed

section \<open>Account removal\<close>

definition eraser_inv :: "eraser_state \<Rightarrow> bool" where
  "eraser_inv s \<longleftrightarrow> eraser_client (fst s) \<noteq> None \<and> eraser_registration (fst s) \<noteq> None"

lemmas eraser_defs =
  eraser_onConnect_def eraser_handleAlreadyRegistered_def eraser_handleRegistrationResult_def
  eraser_recv_def gcall_ptr_def gcall_def

lemma eraser_handle_step:
  assumes "eraser_inv s"
  shows "\<exists>s'. eraser_handle c s = Done s' \<and> eraser_inv s' \<and>
    eraser_status (fst s') = last_verdict [c] (eraser_status (fst s))"
  using assms
  by (cases s; cases c) (auto simp: eraser_inv_def eraser_defs last_verdict_def Let_def)

lemma eraser_recv_step:
  assumes "eraser_inv s"
  shows "\<exists>s'. eraser_recv s = Done s' \<and> eraser_inv s' \<and> eraser_status (fst s') = eraser_status (fst s)"
  using assms by (cases s) (auto simp: eraser_inv_def eraser_defs)

interpretation eraser_loop:
  account_client eraser_recv eraser_handle eraser_go eraser_stop eraser_inv "\<lambda>s. eraser_status (fst s)"
proof
  show "eraser_stop s = (eraser_status (fst s) \<noteq> INCOMPLETE)" for s by (simp add: eraser_stop_def status_cases)
  fix s s' c
  assume inv: "eraser_inv s"
  note recv = eraser_recv_step [OF inv] and handle = eraser_handle_step [OF inv, of c]
  show "eraser_recv s = Done s' \<Longrightarrow> eraser_inv s'" "\<exists>s'. eraser_recv s = Done s'"
    "eraser_recv s = Done s' \<Longrightarrow> eraser_status (fst s') = eraser_status (fst s)" using recv by auto
  show "eraser_handle c s = Done s' \<Longrightarrow> eraser_inv s'" "\<exists>s'. eraser_handle c s = Done s'"
    "eraser_handle c s = Done s' \<Longrightarrow> eraser_status (fst s') = last_verdict [c] (eraser_status (fst s))"
    using handle by auto
  show "eraser_go s" using inv by (simp add: eraser_go_def eraser_inv_def)
qed

lemma eraser_result:
  assumes "username \<noteq> []" and "password \<noteq> []" and "host \<noteq> []"
  shows "case verdict_of_session net of
      None \<Rightarrow> AccountEraser_init net username password host port logging (r, g) = Blocked
    | Some st \<Rightarrow> \<exists>s. AccountEraser_init net username password host port logging (r, g) = Done (True, s) \<and>
        eraser_status (fst s) = st"
proof -
  obtain c g1 where c: "gnew (NewClientHost host) g = (c, g1)" by force
  let ?g2 = "gcalls c ([DisableRoster, SetPort port, SetUsername username, SetPassword password,
    RegisterConnectionListener] @ VERSION_CALLS) g1"
  obtain reg g3 where reg: "gnew (NewRegistration c) ?g2 = (reg, g3)" by force
  let ?g4 = "gcall reg RegisterRegistrationHandler g3"
  let ?g5 = "if logging then gcall c RegisterLogHandler ?g4 else ?g4"
  let ?s = "(r\<lparr>eraser_status := INCOMPLETE, eraser_client := Some c, eraser_registration := Some reg\<rparr>,
    gcall c (ConnectCall False) ?g5)"
  have init: "AccountEraser_init net username password host port logging (r, g) =
      obind (obind (deliver_all eraser_handle (connect_callbacks net) ?s) (\<lambda>s.
        if connect_result net
        then recv_loop eraser_recv eraser_handle eraser_go eraser_stop (recvs net) s else Done s))
      (\<lambda>s. Done (True, s))"
    using assms c reg by (simp add: AccountEraser_init_def Let_def obind_assoc)
  show ?thesis
    using eraser_loop.session_verdict [of ?s net]
    by (auto simp: init eraser_inv_def split: option.splits)
qed

end
