(* ===== verification/XmppClientSpec.thy ===== *)
theory XmppClientSpec
  imports XmppClient AccountsSpec
begin

text \<open>
  What \<^verbatim>\<open>xmpp::Client\<close> guarantees: the invariant of its state, kept by every call and every callback;
  its roster as a function of what the server has said; what it does when a connection fails.
\<close>

section \<open>The invariant\<close>

definition peer_ok :: "bytes \<Rightarrow> peer \<Rightarrow> bool" where
  "peer_ok name p \<longleftrightarrow> mUsername p = name \<and> (mConnected p \<longleftrightarrow> peer_status p < Unavailable)"

definition roster_ok :: "peer std_map \<Rightarrow> bool" where
  "roster_ok m \<longleftrightarrow> map_ok m \<and> (\<forall>(k, p) \<in> set m. peer_ok k p)"

definition client_inv :: "xmpp_client \<Rightarrow> bool" where
  "client_inv s \<longleftrightarrow> roster_ok (mRoster s) \<and> (mIsConnected (mListener s) \<longrightarrow> mClient (mListener s) \<noteq> None)"

lemma roster_ok_Nil [simp]: "roster_ok []"
  by (simp add: roster_ok_def std_map.ok_empty)

lemma peer_ok_new: "peer_ok name (Peer name False Invalid)"
  by (simp add: peer_ok_def Peer_def less_status_t_def)

lemma peer_ok_setStatus: "peer_ok name p \<Longrightarrow> peer_ok name (setStatus st p)"
  by (simp add: peer_ok_def setStatus_def)

lemma roster_ok_insert: "roster_ok m \<Longrightarrow> roster_ok (map_insert name (Peer name False Invalid) m)"
  using set_map_insert [of name "Peer name False Invalid" m]
  by (fastforce simp: roster_ok_def std_map.ok_insert peer_ok_new)

lemma roster_ok_setStatus: "roster_ok m \<Longrightarrow> roster_ok (map_modify name (setStatus st) m)"
  by (auto simp: roster_ok_def std_map.ok_modify peer_ok_setStatus dest!: set_map_modify)

lemma roster_ok_fill: "roster_ok m \<Longrightarrow> roster_ok (fold (\<lambda>k. map_insert k (Peer k False Invalid)) ks m)"
  by (induction ks arbitrary: m) (simp_all add: roster_ok_insert)

lemma roster_ok_find: "roster_ok m \<Longrightarrow> map_find k m = Some p \<Longrightarrow> peer_ok k p"
  by (auto simp: roster_ok_def map_find_def dest: map_of_SomeD)

lemma client_simps [simp]:
  "mRoster (emit k c s) = mRoster s" "mListener (emit k c s) = mListener s"
  "mStateQueue (emit k c s) = mStateQueue s" "mEventQueue (emit k c s) = mEventQueue s"
  "gloox_state (emit k c s) = gloox_state s" "mInitialConnection (emit k c s) = mInitialConnection s"
  "mSignals (emit k c s) = mSignals s" "threads (emit k c s) = threads s"
  "mRoster (push_state x s) = mRoster s" "mListener (push_state x s) = mListener s"
  "mStateQueue (push_state x s) = mStateQueue s @ [x]" "mEventQueue (push_state x s) = mEventQueue s"
  "gloox_state (push_state x s) = gloox_state s"
  "mInitialConnection (push_state x s) = mInitialConnection s" "threads (push_state x s) = threads s"
  "mRoster (set_listener f s) = mRoster s" "mListener (set_listener f s) = f (mListener s)"
  "mStateQueue (set_listener f s) = mStateQueue s" "gloox_state (set_listener f s) = gloox_state s"
  "mInitialConnection (set_listener f s) = mInitialConnection s" "threads (set_listener f s) = threads s"
  "mEventQueue (set_listener f s) = mEventQueue s" "mSignals (set_listener f s) = mSignals s"
  "client_username (set_listener f s) = client_username s"
  "client_password (set_listener f s) = client_password s"
  "client_server (set_listener f s) = client_server s"
  "mAccountCreator (set_listener f s) = mAccountCreator s"
  "mRoster (push_event e s) = mRoster s" "mListener (push_event e s) = mListener s"
  "mEventQueue (push_event e s) = mEventQueue s @ [e]" "mSignals (push_event e s) = mSignals s"
  "mRoster (push_presence pe s) = mRoster s" "mListener (push_presence pe s) = mListener s"
  "mPresenceQueue (push_presence pe s) = mPresenceQueue s @ [pe]" "mSignals (push_presence pe s) = mSignals s"
  "mPresenceQueue (emit k c s) = mPresenceQueue s" "mSignals (push_state x s) = mSignals s"
  "mPresenceQueue (push_state x s) = mPresenceQueue s"
  "signal_calls (set_listener f s) = signal_calls s"
  by (simp_all add: emit_def push_state_def push_event_def push_presence_def set_listener_def)

lemma ask_gloox_Done:
  "ask_gloox p c s = Done s' \<Longrightarrow> \<exists>h. p = Some h \<and> s' = s\<lparr>gloox_state := gcall h c (gloox_state s)\<rparr>"
  by (auto simp: ask_gloox_def gcall_ptr_def split: option.splits)

lemma ask_gloox_Some [simp]: "ask_gloox (Some h) c s = Done (s\<lparr>gloox_state := gcall h c (gloox_state s)\<rparr>)"
  by (simp add: ask_gloox_def gcall_ptr_def)

lemma ask_gloox_None [simp]: "ask_gloox None c s = Faulted NullPointer"
  by (simp add: ask_gloox_def gcall_ptr_def)

section \<open>Preservation\<close>

text \<open>The roster after \<^verbatim>\<open>handleRoster\<close> holds each name once, as a peer that is not connected.\<close>

lemma handleRoster_loop:
  "fold (\<lambda>u (sub, s). (if kGameEngineUsername = u then False else sub,
      s\<lparr>mRoster := map_insert u (Peer u False Invalid) (mRoster s)\<rparr>)) roster (sub, s) =
    (sub \<and> kGameEngineUsername \<notin> set roster,
     s\<lparr>mRoster := fold (\<lambda>k. map_insert k (Peer k False Invalid)) roster (mRoster s)\<rparr>)"
  by (induction roster arbitrary: sub s) auto

lemma subscribeTo_log:
  "\<exists>b l. Listener_subscribeTo a s =
     Done (b, s\<lparr>gloox_state := (gloox_state s)\<lparr>glog := glog (gloox_state s) @ l\<rparr>\<rparr>)"
proof (cases "mIsConnected (mListener s) \<and> mClient (mListener s) \<noteq> None")
  case True
  then show ?thesis by (auto simp: Listener_subscribeTo_def gcall_def)
next
  case False
  then have "Listener_subscribeTo a s =
      Done (False, s\<lparr>gloox_state := (gloox_state s)\<lparr>glog := glog (gloox_state s) @ []\<rparr>\<rparr>)"
    by (auto simp: Listener_subscribeTo_def)
  then show ?thesis by blast
qed

lemma handleRoster_result:
  "\<exists>l. Client_handleRoster roster s = Done (emit SignalRoster (CalledRoster roster) (push_state ROSTER_LOADED
     (s\<lparr>mRoster := fold (\<lambda>k. map_insert k (Peer k False Invalid)) roster [],
        gloox_state := (gloox_state s)\<lparr>glog := glog (gloox_state s) @ l\<rparr>\<rparr>)))"
    (is "\<exists>l. _ = Done (?r l)")
proof (cases "client_username s \<noteq> kDocentUsername \<and> kGameEngineUsername \<notin> set roster")
  case True
  let ?s = "s\<lparr>mRoster := fold (\<lambda>k. map_insert k (Peer k False Invalid)) roster []\<rparr>"
  obtain b l where "Listener_subscribeTo
      (AddressText (kGameEngineUsername @ bytes_of ''@'' @ mServer (mListener s))) ?s =
      Done (b, ?s\<lparr>gloox_state := (gloox_state ?s)\<lparr>glog := glog (gloox_state ?s) @ l\<rparr>\<rparr>)"
    using subscribeTo_log by blast
  then have "Client_handleRoster roster s = Done (?r l)"
    using True by (simp add: Client_handleRoster_def handleRoster_loop Let_def)
  then show ?thesis by blast
next
  case False
  then have "Client_handleRoster roster s = Done (?r [])"
    by (auto simp: Client_handleRoster_def handleRoster_loop Let_def)
  then show ?thesis by blast
qed

lemma connect_inv: "client_inv s \<Longrightarrow> client_inv (snd (Client_connect debug ok u p sv port lg s))"
  by (auto simp: client_inv_def Client_connect_def connect_begin_def connect_store_def connect_spawn_def
      Client_clear_queues_def Listener_setup_def Let_def split: prod.split)

text \<open>While gloox calls back, there is a client.\<close>

definition listening_inv :: "xmpp_client \<Rightarrow> bool" where
  "listening_inv s \<longleftrightarrow> roster_ok (mRoster s) \<and> mClient (mListener s) \<noteq> None"

lemma listening_client_inv: "listening_inv s \<Longrightarrow> client_inv s"
  by (simp add: listening_inv_def client_inv_def)

lemma connect_listening:
  "listening_inv s \<Longrightarrow> listening_inv (snd (Client_connect debug ok u p sv port lg s))"
  by (auto simp: listening_inv_def Client_connect_def connect_begin_def connect_store_def connect_spawn_def
      Client_clear_queues_def Listener_setup_def Let_def split: prod.split)

lemma onDisconnect_listening:
  assumes "listening_inv s" and "Client_onDisconnect debug net ok e s = Done s'"
  shows "listening_inv s'"
proof (cases "disconnect_error e = AuthenticationError \<and> mInitialConnection s")
  case True
  then obtain b r g where init: "AccountRegistration_init debug net (client_username s) (client_password s)
      (client_server s) DEFAULT_PORT False (mAccountCreator s, gloox_state s) = Done (b, (r, g))"
    using assms(2) by (auto simp: Client_onDisconnect_def obind_eq_Done)
  have "listening_inv (s\<lparr>mAccountCreator := r, gloox_state := g, mInitialConnection := False\<rparr>)"
    using assms(1) by (simp add: listening_inv_def)
  then show ?thesis
    using assms(2) init True connect_listening by (auto simp: Client_onDisconnect_def Let_def split: if_splits)
next
  case False
  then have "s' = emit SignalDisconnect (CalledDisconnect (disconnect_error e)) (push_state DISCONNECTED s)"
    using assms(2) by (auto simp: Client_onDisconnect_def)
  then show ?thesis using assms(1) by (simp add: listening_inv_def)
qed

lemma messageSession_listening:
  "listening_inv s \<Longrightarrow> Listener_handleMessageSession session s = Done s' \<Longrightarrow> listening_inv s'"
  by (cases "mClient (mListener s)")
    (auto simp: Listener_handleMessageSession_def listening_inv_def gnew_def Let_def)

lemma rosterPresence_listening:
  "listening_inv s \<Longrightarrow> Client_handleRosterPresence item resource presence msg s = Done s' \<Longrightarrow> listening_inv s'"
  by (auto simp: Client_handleRosterPresence_def Let_def listening_inv_def roster_ok_setStatus
      split: if_splits option.splits)

lemma handle_listening:
  assumes "listening_inv s" and "Listener_handle debug c s = Done s'"
  shows "listening_inv s'"
proof (cases c)
  case OnConnect
  then show ?thesis
    using assms by (cases "mRegistration (mListener s)")
      (auto simp: Listener_onConnect_def to_delegate_def Client_onConnect_def listening_inv_def Let_def
        split: if_splits)
next
  case (OnDisconnect e net ok)
  have "listening_inv (set_listener (\<lambda>l. l\<lparr>mIsConnected := False\<rparr>) s)"
    using assms(1) by (simp add: listening_inv_def)
  then show ?thesis
    using assms(2) OnDisconnect onDisconnect_listening
    by (auto simp: Listener_onDisconnect_def to_delegate_def split: if_splits)
next
  case (OnRoster roster)
  have "roster_ok (fold (\<lambda>k. map_insert k (Peer k False Invalid)) roster [])" by (simp add: roster_ok_fill)
  then show ?thesis
    using assms OnRoster handleRoster_result [of roster s]
    by (auto simp: to_delegate_def listening_inv_def split: if_splits)
next
  case (OnSubscriptionRequest from_jid)
  then show ?thesis
    using assms by (cases "mClient (mListener s)")
      (auto simp: Listener_handleSubscriptionRequest_def listening_inv_def)
next
  case (OnRegistrationFields fieldset)
  then show ?thesis
    using assms by (cases "mRegistration (mListener s)")
      (auto simp: Listener_handleRegistrationFields_def listening_inv_def)
next
  case (OnRegistrationResult regResult)
  then show ?thesis
    using assms by (cases "mRegistration (mListener s)")
      (auto simp: Listener_handleRegistrationResult_def Client_onRegistration_def to_delegate_def
        listening_inv_def split: if_splits)
next
  case (OnMessageSession session)
  then show ?thesis using assms messageSession_listening by simp
next
  case (OnRosterPresence item resource presence msg)
  then show ?thesis
    using assms rosterPresence_listening [OF assms(1), of item resource presence msg s']
    by (auto simp: to_delegate_def split: if_splits)
next
  case OnTLSConnect
  then show ?thesis
    using assms by (auto simp: Listener_onTLSConnect_def Client_onTLSConnect_def to_delegate_def
        listening_inv_def split: if_splits)
next
  case (OnMessage msg)
  then show ?thesis
    using assms by (auto simp: Listener_handleMessage_def Client_handleMessage_def to_delegate_def
        listening_inv_def Let_def split: if_splits)
qed (use assms in simp)

interpretation listener_loop:
  recv_client Listener_recv "Listener_handle debug" Listener_go "\<lambda>_. False" listening_inv for debug
proof
  show "listening_inv s'" if "listening_inv s" "Listener_recv s = Done s'" for s s'
    using that by (auto simp: listening_inv_def Listener_recv_def dest!: ask_gloox_Done)
  show "listening_inv s'" if "listening_inv s" "Listener_handle debug c s = Done s'" for s s' c
    using that by (rule handle_listening)
qed

lemma openConnection_inv:
  assumes "client_inv s" and "Listener_openConnection debug net toggle s = Done s'"
  shows "client_inv s'"
proof (cases "\<not> mIsConnected (mListener s) \<and> mClient (mListener s) \<noteq> None")
  case True
  then obtain s1 s2 where s1: "ask_gloox (mClient (mListener s)) (ConnectCall toggle) s = Done s1"
    and s2: "deliver_all (Listener_handle debug) (connect_callbacks net) s1 = Done s2"
    and s': "(if connect_result net
          then recv_loop Listener_recv (Listener_handle debug) Listener_go (\<lambda>_. False) (recvs net) s2
          else Done s2) = Done s'"
    using assms(2) by (auto simp: Listener_openConnection_def obind_eq_Done)
  have "listening_inv s1"
    using ask_gloox_Done [OF s1] assms(1) True by (auto simp: listening_inv_def client_inv_def)
  note inv2 = listener_loop.deliver_all_inv [OF this s2]
  then have "listening_inv s'"
    using s' listener_loop.recv_loop_inv by (auto split: if_splits)
  then show ?thesis by (rule listening_client_inv)
qed (use assms in \<open>auto simp: Listener_openConnection_def split: if_splits\<close>)

section \<open>Reachable states\<close>

text \<open>
  The application and the listening thread in any order: what happens while \<^verbatim>\<open>disconnect\<close> waits, and
  what \<^verbatim>\<open>openConnection\<close> does between its callbacks, are steps of their own.
\<close>

inductive client_step :: "bool \<Rightarrow> xmpp_client \<Rightarrow> xmpp_client \<Rightarrow> bool" for debug :: bool where
  app_connect: "Client_connect debug thread_ok u p sv port lg s = (b, s') \<Longrightarrow> client_step debug s s'"
| app_disconnect: "Client_disconnect Done join_ok s = Done (b, s') \<Longrightarrow> client_step debug s s'"
| app_send: "Client_sendMessage r m sub s = Done (b, s') \<Longrightarrow> client_step debug s s'"
| app_signal: "client_step debug s (setSignal k callable s)"
| app_event: "mEventQueue s \<noteq> [] \<Longrightarrow> client_step debug s (s\<lparr>mEventQueue := tl (mEventQueue s)\<rparr>)"
| app_state: "mStateQueue s \<noteq> [] \<Longrightarrow> client_step debug s (s\<lparr>mStateQueue := tl (mStateQueue s)\<rparr>)"
| app_presence: "mPresenceQueue s \<noteq> [] \<Longrightarrow> client_step debug s (s\<lparr>mPresenceQueue := tl (mPresenceQueue s)\<rparr>)"
| thread_opens: "spawnThread debug net s = Done s' \<Longrightarrow> client_step debug s s'"
| thread_callback: "mClient (mListener s) \<noteq> None \<Longrightarrow> Listener_handle debug c s = Done s' \<Longrightarrow> client_step debug s s'"

lemma sendMessage_result:
  "Client_sendMessage r m sub s =
     (case mClient (mListener s) of
        Some h \<Rightarrow>
          if r \<noteq> [] \<and> m \<noteq> [] \<and> mIsConnected (mListener s)
          then Done (True, s\<lparr>gloox_state := gcall h (SendMessageStanza MessageChat
            (AddressText (r @ bytes_of ''@'' @ mServer (mListener s))) m sub) (gloox_state s)\<rparr>)
          else Done (False, s)
      | None \<Rightarrow> Done (False, s))"
  by (auto simp: Client_sendMessage_def Listener_sendMessage_def split: option.split)

lemma client_inv_step:
  assumes "client_step debug s s'" and "client_inv s"
  shows "client_inv s'"
  using assms
proof cases
  case (app_connect thread_ok u p sv port lg b)
  then show ?thesis using connect_inv [OF assms(2), of debug thread_ok u p sv port lg] by simp
next
  case (app_disconnect join_ok b)
  then show ?thesis
    using assms(2)
    by (auto simp: Client_disconnect_def Listener_closeConnection_def client_inv_def obind_eq_Done
        dest!: ask_gloox_Done split: if_splits)
next
  case (app_send r m sub b)
  then show ?thesis
    using assms(2) by (auto simp: sendMessage_result client_inv_def split: option.splits if_splits)
next
  case (thread_opens net)
  then show ?thesis using assms(2) openConnection_inv by (auto simp: spawnThread_def)
next
  case (thread_callback c)
  then have "listening_inv s" using assms(2) by (simp add: listening_inv_def client_inv_def)
  then show ?thesis using thread_callback handle_listening listening_client_inv by blast
qed (use assms(2) in \<open>simp_all add: client_inv_def setSignal_def\<close>)

lemma client_inv_new: "client_inv new_Client"
  by (simp add: client_inv_def new_Client_def new_Listener_def)

lemma client_inv_reachable: "(client_step debug)\<^sup>*\<^sup>* new_Client s \<Longrightarrow> client_inv s"
  by (induction rule: rtranclp_induct) (use client_inv_new client_inv_step in blast)+

end
