(* ===== verification/XmppBehaviour.thy ===== *)
theory XmppBehaviour
  imports XmppClientSpec
begin

text \<open>
  The behaviour of \<^verbatim>\<open>xmpp::Client\<close> over sequences of callbacks: the roster it keeps is what the server
  said last of each peer; a failed authentication makes it register the account; and what goes wrong
  when it is told to connect twice, or when its thread is faster than \<^verbatim>\<open>connect\<close>.
\<close>

section \<open>Presence\<close>

type_synonym presence_change = "jid \<times> bytes \<times> presence_type \<times> bytes"

fun presence_callback :: "presence_change \<Rightarrow> listener_callback" where
  "presence_callback (item, resource, presence, msg) = OnRosterPresence item resource presence msg"

fun changes_status :: "bytes \<Rightarrow> presence_change \<Rightarrow> presence_type option \<Rightarrow> presence_type option" where
  "changes_status name (item, resource, presence, msg) before =
     (if jid_username item = name then Some presence else before)"

definition last_presence :: "bytes \<Rightarrow> presence_change list \<Rightarrow> presence_type option" where
  "last_presence name ps = fold (changes_status name) ps None"

fun set_presence :: "presence_change \<Rightarrow> peer std_map \<Rightarrow> peer std_map" where
  "set_presence (item, resource, presence, msg) =
     map_modify (jid_username item) (setStatus (presenceToStatus presence))"

fun presence_entry :: "presence_change \<Rightarrow> presence_event" where
  "presence_entry (item, resource, presence, msg) =
     \<lparr>presence_username = jid_username item, presence_status = presenceToStatus presence\<rparr>"

lemma find_set_presences:
  "map_find k (fold set_presence ps m) =
     map_option (\<lambda>p. case last_presence k ps of None \<Rightarrow> p | Some t \<Rightarrow> setStatus (presenceToStatus t) p)
       (map_find k m)"
proof (induction ps rule: rev_induct)
  case Nil
  then show ?case by (simp add: last_presence_def option.map_ident)
next
  case (snoc c ps)
  obtain item resource presence msg where c: "c = (item, resource, presence, msg)" by (cases c) auto
  show ?case
  proof (cases "jid_username item = k")
    case True
    then show ?thesis
      by (cases "map_find k m"; cases "last_presence k ps")
        (simp_all add: c snoc std_map.find_modify last_presence_def setStatus_def)
  next
    case False
    then show ?thesis
      by (cases "map_find k m"; cases "last_presence k ps")
        (simp_all add: c snoc std_map.find_modify last_presence_def)
  qed
qed

lemma presence_step:
  assumes "mDelegate (mListener s)"
  shows "case Listener_handle debug (presence_callback c) s of
      Done s' \<Rightarrow> mRoster s' = set_presence c (mRoster s) \<and> mListener s' = mListener s \<and>
        mSignals s' = mSignals s \<and> mPresenceQueue s' = mPresenceQueue s @ [presence_entry c]
    | Faulted e \<Rightarrow> SignalRosterPresence \<in> set (mSignals s) \<and> map_find (jid_username (fst c)) (mRoster s) = None
    | Blocked \<Rightarrow> False"
proof -
  obtain item resource presence msg where c: "c = (item, resource, presence, msg)" by (cases c) auto
  show ?thesis
    using assms
    by (auto simp: c to_delegate_def Client_handleRosterPresence_def Let_def std_map.find_modify
        split: option.split)
qed

lemma presence_run:
  assumes "mDelegate (mListener s)"
    and "deliver_all (Listener_handle debug) (map presence_callback ps) s = Done s'"
  shows "mRoster s' = fold set_presence ps (mRoster s) \<and>
    mPresenceQueue s' = mPresenceQueue s @ map presence_entry ps"
  using assms
proof (induction ps arbitrary: s)
  case (Cons c ps)
  then obtain s1 where s1: "Listener_handle debug (presence_callback c) s = Done s1"
      "deliver_all (Listener_handle debug) (map presence_callback ps) s1 = Done s'"
    by (auto simp: obind_eq_Done)
  have f: "mRoster s1 = set_presence c (mRoster s)" "mListener s1 = mListener s"
      "mPresenceQueue s1 = mPresenceQueue s @ [presence_entry c]"
    using presence_step [OF Cons.prems(1), of c debug] s1(1) by simp_all
  show ?case using Cons.IH [OF _ s1(2)] Cons.prems(1) f by simp
qed simp

text \<open>The callbacks return unless the application's signal is set and the server names a stranger.\<close>

definition no_stranger :: "presence_change list \<Rightarrow> xmpp_client \<Rightarrow> bool" where
  "no_stranger ps s \<longleftrightarrow> SignalRosterPresence \<notin> set (mSignals s) \<or>
     list_all (\<lambda>c. map_find (jid_username (fst c)) (mRoster s) \<noteq> None) ps"

lemma presence_returns:
  "mDelegate (mListener s) \<Longrightarrow> no_stranger ps s \<Longrightarrow>
   \<exists>s'. deliver_all (Listener_handle debug) (map presence_callback ps) s = Done s'"
proof (induction ps arbitrary: s)
  case (Cons c ps)
  obtain s1 where s1: "Listener_handle debug (presence_callback c) s = Done s1"
    using presence_step [OF Cons.prems(1), of c debug] Cons.prems(2)
    by (cases "Listener_handle debug (presence_callback c) s") (auto simp: no_stranger_def)
  have f: "mRoster s1 = set_presence c (mRoster s)" "mListener s1 = mListener s" "mSignals s1 = mSignals s"
    using presence_step [OF Cons.prems(1), of c debug] s1 by simp_all
  have "map_find k (mRoster s1) \<noteq> None \<longleftrightarrow> map_find k (mRoster s) \<noteq> None" for k
    by (cases c) (auto simp: f std_map.find_modify)
  then have "no_stranger ps s1"
    using Cons.prems(2) by (auto simp: no_stranger_def f list_all_iff)
  then show ?case using Cons.IH [of s1] Cons.prems(1) f s1 by simp
qed simp

lemma roster_presence_returns:
  assumes "mDelegate (mListener s)"
    and "SignalRosterPresence \<notin> set (mSignals s) \<or> list_all (\<lambda>c. jid_username (fst c) \<in> set roster) ps"
  shows "\<exists>s'. deliver_all (Listener_handle debug) (OnRoster roster # map presence_callback ps) s = Done s'"
proof -
  obtain l where l: "Client_handleRoster roster s = Done (emit SignalRoster (CalledRoster roster)
      (push_state ROSTER_LOADED (s\<lparr>mRoster := fold (\<lambda>k. map_insert k (Peer k False Invalid)) roster [],
        gloox_state := (gloox_state s)\<lparr>glog := glog (gloox_state s) @ l\<rparr>\<rparr>)))" (is "_ = Done ?s1")
    using handleRoster_result [of roster s] by blast
  have "no_stranger ps ?s1" using assms(2) by (auto simp: no_stranger_def std_map.find_fill list_all_iff)
  then show ?thesis using presence_returns [of ?s1 ps debug] assms(1) l by (simp add: to_delegate_def)
qed

lemma roster_then_presence:
  assumes "mDelegate (mListener s)"
    and "deliver_all (Listener_handle debug) (OnRoster roster # map presence_callback ps) s = Done s'"
  shows "getStatusForPeer name s' =
      (if name \<in> set roster then case last_presence name ps of None \<Rightarrow> Invalid | Some t \<Rightarrow> presenceToStatus t
       else Invalid)"
    and "isPeerConnected name s' \<longleftrightarrow> getStatusForPeer name s' < Unavailable"
proof -
  obtain l where l: "Client_handleRoster roster s = Done (emit SignalRoster (CalledRoster roster)
      (push_state ROSTER_LOADED (s\<lparr>mRoster := fold (\<lambda>k. map_insert k (Peer k False Invalid)) roster [],
        gloox_state := (gloox_state s)\<lparr>glog := glog (gloox_state s) @ l\<rparr>\<rparr>)))" (is "_ = Done ?s1")
    using handleRoster_result [of roster s] by blast
  have "mRoster s' = fold set_presence ps (fold (\<lambda>k. map_insert k (Peer k False Invalid)) roster [])"
    using presence_run [of ?s1 debug ps s'] assms l by (simp add: to_delegate_def)
  then show "getStatusForPeer name s' =
      (if name \<in> set roster then case last_presence name ps of None \<Rightarrow> Invalid | Some t \<Rightarrow> presenceToStatus t
       else Invalid)"
    and "isPeerConnected name s' \<longleftrightarrow> getStatusForPeer name s' < Unavailable"
    by (auto simp: getStatusForPeer_def isPeerConnected_def find_set_presences std_map.find_fill
        Peer_def setStatus_def less_status_t_def split: option.split)
qed

section \<open>Registration after a failed authentication\<close>

lemma Listener_setup_log:
  assumes "server \<noteq> []"
  shows "\<exists>c l. Listener_setup debug u p server port lg s =
      s\<lparr>mListener := (mListener s)\<lparr>mServer := server, mClient := Some c\<rparr>,
        gloox_state := \<lparr>glog = glog (gloox_state s) @ l, objects = objects (gloox_state s) + 1\<rparr>\<rparr> \<and>
    c = objects (gloox_state s) \<and> creates_only a b l \<and> (\<forall>h t. (h, ConnectCall t) \<notin> set l) \<and>
    (c, NewClientJid (AddressText (u @ bytes_of ''@'' @ server)) p port) \<in> set l"
proof -
  let ?c = "objects (gloox_state s)"
  let ?l = "(?c, NewClientJid (AddressText (u @ bytes_of ''@'' @ server)) p port) #
    map (Pair ?c) ([RegisterPresenceHandler, RegisterConnectionListener, RegisterMessageSessionHandler 0,
      RegisterRosterListener, DiscoSetVersion ''EscMessanger'' ''Darwin'',
      DiscoSetIdentity ''client'' ''bot'', DiscoAddFeature ''XMLNS_CHAT_STATES''] @
      (if debug \<and> lg then [RegisterLogHandler] else []))"
  have "Listener_setup debug u p server port lg s =
      s\<lparr>mListener := (mListener s)\<lparr>mServer := server, mClient := Some ?c\<rparr>,
        gloox_state := \<lparr>glog = glog (gloox_state s) @ ?l, objects = ?c + 1\<rparr>\<rparr>"
    using assms
    by (auto simp: Listener_setup_def Let_def set_listener_def gnew_def gcalls_def gcall_def
        intro!: gloox.equality)
  moreover have "creates_only a b ?l" "\<forall>h t. (h, ConnectCall t) \<notin> set ?l"
    by (auto simp: creates_only_def split: if_splits)
  ultimately show ?thesis by (intro exI [of _ ?c] exI [of _ ?l]) simp
qed

lemma connect_result_ok:
  assumes "user \<noteq> []" and "server \<noteq> []"
  shows "\<exists>c l. Client_connect debug ok user pass server port lg s = (ok,
      (if ok then s\<lparr>client_username := user, client_password := pass, client_server := server,
         mInitialConnection := True, mListenerThread := Some (threads s), threads := threads s + 1\<rparr> else s)
      \<lparr>mListener := (mListener s)\<lparr>mServer := server, mClient := Some c\<rparr>,
       mEventQueue := [], mStateQueue := [], mPresenceQueue := [],
       gloox_state := \<lparr>glog = glog (gloox_state s) @ l, objects = objects (gloox_state s) + 1\<rparr>\<rparr>) \<and>
    c = objects (gloox_state s) \<and> creates_only a b l \<and> (\<forall>h t. (h, ConnectCall t) \<notin> set l) \<and>
    (c, NewClientJid (AddressText (user @ bytes_of ''@'' @ server)) pass port) \<in> set l"
proof -
  obtain c l where l: "Listener_setup debug user pass server port lg s =
      s\<lparr>mListener := (mListener s)\<lparr>mServer := server, mClient := Some c\<rparr>,
        gloox_state := \<lparr>glog = glog (gloox_state s) @ l, objects = objects (gloox_state s) + 1\<rparr>\<rparr>"
      "c = objects (gloox_state s)" "creates_only a b l" "\<forall>h t. (h, ConnectCall t) \<notin> set l"
      "(c, NewClientJid (AddressText (user @ bytes_of ''@'' @ server)) pass port) \<in> set l"
    using Listener_setup_log [OF assms(2), of debug user pass port lg s a b] by blast
  show ?thesis
    using assms l by (intro exI [of _ c] exI [of _ l])
      (auto simp: Client_connect_def connect_begin_def connect_spawn_def connect_store_def Client_clear_queues_def)
qed

text \<open>
  One registration with the account's own credentials.  If the server accepts it, the client connects
  anew, to port 5222; if not, nothing tells the application that the connection has failed.
\<close>

lemma failed_authentication:
  assumes "mDelegate (mListener s)" and "mInitialConnection s" and "disconnect_error e = AuthenticationError"
    and "client_username s \<noteq> []" and "client_password s \<noteq> []" and "client_server s \<noteq> []"
  shows "case verdict_of_session net of
      None \<Rightarrow> Listener_handle debug (OnDisconnect e net ok) s = Blocked
    | Some st \<Rightarrow> \<exists>s' l. Listener_handle debug (OnDisconnect e net ok) s = Done s' \<and>
        glog (gloox_state s') = glog (gloox_state s) @ l \<and>
        creates_only (client_username s) (client_password s) l \<and>
        (if st = SUCCESS
         then mInitialConnection s' = ok \<and> mStateQueue s' = [] \<and> threads s' = threads s + of_bool ok \<and>
           (\<exists>c. mClient (mListener s') = Some c \<and> (c, NewClientJid (AddressText
             (client_username s @ bytes_of ''@'' @ client_server s)) (client_password s) 5222) \<in> set l)
         else \<not> mInitialConnection s' \<and> mStateQueue s' = mStateQueue s \<and> threads s' = threads s \<and>
           signal_calls s' = signal_calls s)"
proof -
  let ?s = "set_listener (\<lambda>l. l\<lparr>mIsConnected := False\<rparr>) s"
  let ?init = "AccountRegistration_init debug net (client_username s) (client_password s)
    (client_server s) DEFAULT_PORT False (mAccountCreator s, gloox_state s)"
  have handle: "Listener_handle debug (OnDisconnect e net ok) s = obind ?init (\<lambda>(_, (r, g)).
      let s = ?s\<lparr>mAccountCreator := r, gloox_state := g, mInitialConnection := False\<rparr> in
      if mStatus r = SUCCESS
      then Done (snd (Client_connect debug ok (client_username s) (client_password s)
        (client_server s) DEFAULT_PORT False s)) else Done s)"
    using assms(1-3) by (simp add: Listener_onDisconnect_def to_delegate_def Client_onDisconnect_def Let_def)
  show ?thesis
  proof (cases "verdict_of_session net")
    case None
    then show ?thesis
      using registration_result [OF assms(4-6), of debug net DEFAULT_PORT False "mAccountCreator s" "gloox_state s"]
        handle by simp
  next
    case (Some st)
    then obtain r g l where init: "?init = Done (True, (r, g))" "mStatus r = st"
        "glog g = glog (gloox_state s) @ l" "creates_only (client_username s) (client_password s) l"
      using registration_result [OF assms(4-6), of debug net DEFAULT_PORT False "mAccountCreator s" "gloox_state s"]
      by auto
    let ?s1 = "?s\<lparr>mAccountCreator := r, gloox_state := g, mInitialConnection := False\<rparr>"
    show ?thesis
    proof (cases "st = SUCCESS")
      case True
      then have run: "Listener_handle debug (OnDisconnect e net ok) s =
          Done (snd (Client_connect debug ok (client_username s) (client_password s) (client_server s)
            DEFAULT_PORT False ?s1))"
        using handle init by simp
      show ?thesis
        using connect_result_ok [OF assms(4,6), of debug ok "client_password s" DEFAULT_PORT False ?s1
            "client_username s" "client_password s"] init Some True
        unfolding run by (auto simp: DEFAULT_PORT_def)
    next
      case False
      then have "Listener_handle debug (OnDisconnect e net ok) s = Done ?s1" using handle init by simp
      then show ?thesis using Some False init by auto
    qed
  qed
qed

section \<open>Other failures\<close>

text \<open>Every other disconnection is told to the application.\<close>

lemma other_disconnect:
  assumes "mDelegate (mListener s)" and "disconnect_error e \<noteq> AuthenticationError \<or> \<not> mInitialConnection s"
  shows "\<exists>s'. Listener_handle debug (OnDisconnect e net ok) s = Done s' \<and>
    mStateQueue s' = mStateQueue s @ [DISCONNECTED] \<and> \<not> mIsConnected (mListener s') \<and>
    gloox_state s' = gloox_state s \<and> mInitialConnection s' = mInitialConnection s"
  using assms
  by (auto simp: Listener_onDisconnect_def to_delegate_def Client_onDisconnect_def Let_def)

text \<open>The thread's connection fails before \<^verbatim>\<open>connect\<close> has stored the credentials.\<close>

lemma fast_thread:
  assumes "mDelegate (mListener s)" and "\<not> mInitialConnection s" and "server \<noteq> []"
  shows "\<exists>s'. Listener_handle debug (OnDisconnect e net ok)
      (connect_spawn (connect_begin debug user pass server port lg s)) = Done s' \<and>
    mStateQueue s' = [DISCONNECTED] \<and> mInitialConnection (connect_store user pass server s') \<and>
    \<not> mIsConnected (mListener (connect_store user pass server s'))"
proof -
  obtain c l where l: "Listener_setup debug user pass server port lg s =
      s\<lparr>mListener := (mListener s)\<lparr>mServer := server, mClient := Some c\<rparr>,
        gloox_state := \<lparr>glog = glog (gloox_state s) @ l, objects = objects (gloox_state s) + 1\<rparr>\<rparr>"
    using Listener_setup_log [OF assms(3), of debug user pass port lg s user pass] by blast
  let ?s = "connect_spawn (connect_begin debug user pass server port lg s)"
  have "mDelegate (mListener ?s)" "\<not> mInitialConnection ?s" "mStateQueue ?s = []"
    using assms by (simp_all add: l connect_spawn_def connect_begin_def Client_clear_queues_def)
  then obtain s' where "Listener_handle debug (OnDisconnect e net ok) ?s = Done s'"
      "mStateQueue s' = [DISCONNECTED]" "\<not> mIsConnected (mListener s')"
    using other_disconnect [of ?s e debug net ok] by auto
  then show ?thesis by (auto simp: connect_store_def)
qed

text \<open>Connecting while connected: the new client is never connected, but messages are given to it.\<close>

lemma connect_twice:
  assumes "mIsConnected (mListener s)" and "user \<noteq> []" and "server \<noteq> []"
  shows "\<exists>s' c l. Client_connect debug True user pass server port lg s = (True, s') \<and>
    spawnThread debug net s' = Done s' \<and> mClient (mListener s') = Some c \<and>
    c = objects (gloox_state s) \<and> glog (gloox_state s') = glog (gloox_state s) @ l \<and>
    (\<forall>h t. (h, ConnectCall t) \<notin> set l) \<and>
    (recipient \<noteq> [] \<and> message \<noteq> [] \<longrightarrow>
      (\<exists>s''. Client_sendMessage recipient message subject s' = Done (True, s'') \<and>
        glog (gloox_state s'') = glog (gloox_state s') @
          [(c, SendMessageStanza MessageChat (AddressText (recipient @ bytes_of ''@'' @ server)) message subject)]))"
proof -
  obtain c l where l: "Client_connect debug True user pass server port lg s = (True,
      (s\<lparr>client_username := user, client_password := pass, client_server := server,
         mInitialConnection := True, mListenerThread := Some (threads s), threads := threads s + 1\<rparr>)
      \<lparr>mListener := (mListener s)\<lparr>mServer := server, mClient := Some c\<rparr>,
       mEventQueue := [], mStateQueue := [], mPresenceQueue := [],
       gloox_state := \<lparr>glog = glog (gloox_state s) @ l, objects = objects (gloox_state s) + 1\<rparr>\<rparr>)"
      (is "_ = (True, ?s)") "c = objects (gloox_state s)" "\<forall>h t. (h, ConnectCall t) \<notin> set l"
    using connect_result_ok [OF assms(2,3), of debug True pass port lg s user pass] by auto
  then show ?thesis
    using assms(1)
    by (intro exI [of _ ?s] exI [of _ c] exI [of _ l])
      (auto simp: spawnThread_def Listener_openConnection_def sendMessage_result)
qed

end
