(* ===== verification/Logger.thy ===== *)
theory Logger
  imports OscTypes
begin

text \<open>
  The log (\<^verbatim>\<open>product/source/Logger.{h,mm}\<close>): two static variables decide which messages reach \<^verbatim>\<open>NSLog\<close>.
  \<^verbatim>\<open>LogLevel\<close> is an unscoped enumeration, so a level is any number of its width.
\<close>

type_synonym log_level = uint32

definition LEVEL_ERROR :: log_level where "LEVEL_ERROR = 1"
definition LEVEL_WARNING :: log_level where "LEVEL_WARNING = 2"
definition LEVEL_INFO :: log_level where "LEVEL_INFO = 4"
definition LEVEL_DEV :: log_level where "LEVEL_DEV = 8"
definition LEVEL_LOG :: log_level where "LEVEL_LOG = 16"

definition LEVEL_FLOOR :: int32 where "LEVEL_FLOOR = LEVEL_ERROR"
definition LEVEL_ALL :: int32 where "LEVEL_ALL = 255"
definition DEFAULT_REPORTING_LEVEL :: int32 where "DEFAULT_REPORTING_LEVEL = 4"

lemmas level_defs = LEVEL_ERROR_def LEVEL_WARNING_def LEVEL_INFO_def LEVEL_DEV_def LEVEL_LOG_def
  LEVEL_FLOOR_def LEVEL_ALL_def DEFAULT_REPORTING_LEVEL_def

text \<open>\<open>nslog\<close>: the calls of \<^verbatim>\<open>NSLog\<close>, its format and its argument.\<close>

record logger =
  sEnabled :: bool
  sActiveLevel :: log_level
  nslog :: "(bytes \<times> bytes) list"

definition initial_logger :: logger where
  "initial_logger = \<lparr>sEnabled = True, sActiveLevel = DEFAULT_REPORTING_LEVEL, nslog = []\<rparr>"

definition canLog :: "log_level \<Rightarrow> logger \<Rightarrow> bool" where
  "canLog compare s =
     (if sActiveLevel s > LEVEL_LOG \<or> compare > LEVEL_LOG then False else sActiveLevel s \<ge> compare)"

definition setLevel :: "log_level \<Rightarrow> logger \<Rightarrow> logger" where
  "setLevel level s = s\<lparr>sActiveLevel := level\<rparr>"

definition getLevel :: "logger \<Rightarrow> log_level" where
  "getLevel s = sActiveLevel s"

definition Logger_enable :: "bool \<Rightarrow> logger \<Rightarrow> logger" where
  "Logger_enable toggle s = s\<lparr>sEnabled := toggle\<rparr>"

definition isEnabled :: "logger \<Rightarrow> bool" where
  "isEnabled s = sEnabled s"

text \<open>\<^verbatim>\<open>NSLog(msg, @"@")\<close>: the message is the format.\<close>

definition Logger_log :: "log_level \<Rightarrow> bytes \<Rightarrow> logger \<Rightarrow> bool \<times> logger" where
  "Logger_log level message s =
     (if isEnabled s \<and> canLog level s
      then (True, s\<lparr>nslog := nslog s @ [(c_str message, [byte_of (CHR ''@'')])]\<rparr>)
      else (False, s))"

definition Logger_info :: "bytes \<Rightarrow> logger \<Rightarrow> bool \<times> logger" where
  "Logger_info message s = Logger_log LEVEL_INFO message s"

definition Logger_dev :: "bytes \<Rightarrow> logger \<Rightarrow> bool \<times> logger" where
  "Logger_dev message s = Logger_log LEVEL_DEV message s"

definition Logger_warning :: "bytes \<Rightarrow> logger \<Rightarrow> bool \<times> logger" where
  "Logger_warning message s = Logger_log LEVEL_WARNING message s"

definition Logger_error :: "bytes \<Rightarrow> logger \<Rightarrow> bool \<times> logger" where
  "Logger_error message s = Logger_log LEVEL_ERROR message s"

text \<open>The result says whether the message was logged, once and after all before it.\<close>

lemma log_result:
  assumes "Logger_log level message s = (logged, s')"
  shows "nslog s' = nslog s @ (if logged then [(c_str message, [byte_of (CHR ''@'')])] else [])"
    and "sEnabled s' = sEnabled s" and "getLevel s' = getLevel s"
    and "logged \<longleftrightarrow> sEnabled s \<and> level \<le> sActiveLevel s \<and> sActiveLevel s \<le> LEVEL_LOG"
  using assms by (auto simp: Logger_log_def canLog_def isEnabled_def getLevel_def not_less split: if_splits)

text \<open>Initially everything but \<^verbatim>\<open>dev\<close> is logged; a logged level implies all the more severe ones.\<close>

lemma default_levels:
  "fst (Logger_error m initial_logger)" "fst (Logger_warning m initial_logger)"
  "fst (Logger_info m initial_logger)" "\<not> fst (Logger_dev m initial_logger)"
  by (simp_all add: Logger_error_def Logger_warning_def Logger_info_def Logger_dev_def Logger_log_def
      isEnabled_def canLog_def initial_logger_def level_defs)

lemma more_severe_logged: "fst (Logger_log level m s) \<Longrightarrow> level' \<le> level \<Longrightarrow> fst (Logger_log level' m' s)"
  by (auto simp: Logger_log_def canLog_def split: if_splits)

text \<open>The level \<^verbatim>\<open>ALL\<close> logs nothing.\<close>

lemma all_logs_nothing: "\<not> fst (Logger_log level m (setLevel LEVEL_ALL s))"
  by (simp add: Logger_log_def canLog_def setLevel_def level_defs)

end
