(* ===== verification/PluginInterface.thy ===== *)
theory PluginInterface
  imports Fifo OscRoundTrip XmppBehaviour Logger
begin

text \<open>
  The functions the game engine calls (\<^verbatim>\<open>product/source/PluginInterface.{h,mm}\<close>): one client behind a
  global pointer, its queues polled into buffers of the caller, game commands sent to every connected
  peer.  Of its two builds the one for phones is modelled.  A pointer argument that may be null is an
  \<open>option\<close>; a buffer is the memory from the pointer on.
\<close>

type_synonym plugin = "xmpp_client option"

section \<open>Starting and stopping\<close>

definition xmppClientCreated :: "plugin \<Rightarrow> bool" where
  "xmppClientCreated clientPtr = (clientPtr \<noteq> None)"

text \<open>\<open>alloc_ok\<close>: \<^verbatim>\<open>new (std::nothrow)\<close> finds memory.\<close>

definition createXmppClient :: "bool \<Rightarrow> plugin \<Rightarrow> bool \<times> plugin" where
  "createXmppClient alloc_ok clientPtr =
     (if xmppClientCreated clientPtr then (True, clientPtr)
      else let clientPtr = (if alloc_ok then Some new_Client else None)
           in (xmppClientCreated clientPtr, clientPtr))"

text \<open>The result of \<^verbatim>\<open>createXmppClient\<close> is not looked at.\<close>

definition startInterface ::
    "bool \<Rightarrow> bool \<Rightarrow> bool \<Rightarrow> bytes option \<Rightarrow> bytes option \<Rightarrow> bytes option \<Rightarrow> plugin \<Rightarrow> (int \<times> plugin) outcome" where
  "startInterface debug alloc_ok thread_ok username password hostname clientPtr =
     (case (username, password, hostname) of
        (Some u, Some p, Some h) \<Rightarrow>
          (case snd (createXmppClient alloc_ok clientPtr) of
             None \<Rightarrow> Faulted NullPointer
           | Some s \<Rightarrow>
               let (success, s) = Client_connect debug thread_ok (c_str u) (c_str p) (c_str h) DEFAULT_PORT False s
               in Done (if success then 0 else 1, Some s))
      | _ \<Rightarrow> Done (- 1, clientPtr))"

definition startServerInterfaceWithHost ::
    "bool \<Rightarrow> bool \<Rightarrow> bool \<Rightarrow> bytes option \<Rightarrow> plugin \<Rightarrow> (int \<times> plugin) outcome" where
  "startServerInterfaceWithHost debug alloc_ok thread_ok hostname clientPtr =
     (if hostname = None then Done (- 1, clientPtr)
      else startInterface debug alloc_ok thread_ok (Some kGameEngineUsername) (Some kGameEngineUsername) hostname clientPtr)"

text \<open>\<open>hostName\<close>: what \<^verbatim>\<open>getHostName\<close> finds.\<close>

definition startLauncherInterface ::
    "bool \<Rightarrow> bool \<Rightarrow> bool \<Rightarrow> bytes \<Rightarrow> plugin \<Rightarrow> (int \<times> plugin) outcome" where
  "startLauncherInterface debug alloc_ok thread_ok hostName clientPtr =
     startInterface debug alloc_ok thread_ok (Some kGameLauncherUsername) (Some kGameLauncherUsername)
       (Some hostName) clientPtr"

definition startDocentInterface ::
    "bool \<Rightarrow> bool \<Rightarrow> bool \<Rightarrow> bytes option \<Rightarrow> plugin \<Rightarrow> (int \<times> plugin) outcome" where
  "startDocentInterface debug alloc_ok thread_ok hostname clientPtr =
     startInterface debug alloc_ok thread_ok (Some kDocentUsername) (Some kDocentUsername) hostname clientPtr"

definition startServerInterface ::
    "bool \<Rightarrow> bool \<Rightarrow> bool \<Rightarrow> bytes \<Rightarrow> plugin \<Rightarrow> (int \<times> plugin) outcome" where
  "startServerInterface debug alloc_ok thread_ok hostName clientPtr =
     startInterface debug alloc_ok thread_ok (Some kGameEngineUsername) (Some kGameEngineUsername)
       (Some hostName) clientPtr"

text \<open>\<open>udid\<close>: what \<^verbatim>\<open>uniqueDeviceIdentifier\<close> finds.\<close>

definition startClientInterface ::
    "bool \<Rightarrow> bool \<Rightarrow> bool \<Rightarrow> bytes \<Rightarrow> bytes option \<Rightarrow> plugin \<Rightarrow> (int \<times> plugin) outcome" where
  "startClientInterface debug alloc_ok thread_ok udid hostname clientPtr =
     (case hostname of
        None \<Rightarrow> Done (- 1, clientPtr)
      | Some h \<Rightarrow>
          (case snd (createXmppClient alloc_ok clientPtr) of
             None \<Rightarrow> Faulted NullPointer
           | Some s \<Rightarrow>
               let (success, s) = Client_connect debug thread_ok udid udid (c_str h) DEFAULT_PORT False s
               in Done (if success then 0 else 1, Some s)))"

text \<open>\<open>meanwhile\<close> and \<open>deleting\<close>: what \<^verbatim>\<open>disconnect\<close> and the destructor of the client wait for.\<close>

definition stopInterface ::
    "(xmpp_client \<Rightarrow> xmpp_client outcome) \<Rightarrow> bool \<Rightarrow> (xmpp_client \<Rightarrow> xmpp_client outcome) \<Rightarrow> plugin \<Rightarrow>
     (int \<times> plugin) outcome" where
  "stopInterface meanwhile join_ok deleting clientPtr =
     (case clientPtr of
        None \<Rightarrow> Done (- 1, None)
      | Some s \<Rightarrow>
          obind (Client_disconnect meanwhile join_ok s) (\<lambda>(ok, s).
            if ok then obind (delete_Client deleting s) (\<lambda>_. Done (0, None)) else Done (1, Some s)))"

definition plugin_isConnected :: "plugin \<Rightarrow> bool" where
  "plugin_isConnected clientPtr = (case clientPtr of None \<Rightarrow> False | Some s \<Rightarrow> mIsConnected (mListener s))"

section \<open>Commands to the peers\<close>

text \<open>The loop over the roster that every command and \<^verbatim>\<open>broadcastEvent\<close> have.\<close>

fun send_to_connected :: "bytes \<Rightarrow> peer std_map \<Rightarrow> xmpp_client \<Rightarrow> xmpp_client outcome" where
  "send_to_connected body [] s = Done s"
| "send_to_connected body ((k, p) # roster) s =
     (if mConnected p
      then obind (Client_sendMessage (mUsername p) body [] s) (\<lambda>(_, s). send_to_connected body roster s)
      else send_to_connected body roster s)"

datatype game_command = StartGame | CancelGame | EndGame | StartRound | CancelRound | EndRound | PauseGame bool

fun command_text :: "game_command \<Rightarrow> bytes" where
  "command_text StartGame = bytes_of ''gameStart''"
| "command_text CancelGame = bytes_of ''gameCancel''"
| "command_text EndGame = bytes_of ''gameEnd''"
| "command_text StartRound = bytes_of ''startRound''"
| "command_text CancelRound = bytes_of ''cancelRound''"
| "command_text EndRound = bytes_of ''endRound''"
| "command_text (PauseGame state) = bytes_of ''pause:'' @ (if state then bytes_of ''true'' else bytes_of ''false'')"

text \<open>\<^verbatim>\<open>startGame\<close> and the six functions like it.\<close>

definition game_function :: "game_command \<Rightarrow> plugin \<Rightarrow> (int \<times> plugin) outcome" where
  "game_function c clientPtr =
     (case clientPtr of
        None \<Rightarrow> Done (- 1, None)
      | Some s \<Rightarrow> obind (send_to_connected (command_text c) (mRoster s) s) (\<lambda>s. Done (0, Some s)))"

text \<open>Without a check that there is a client.\<close>

definition broadcastEvent :: "bytes option \<Rightarrow> plugin \<Rightarrow> plugin outcome" where
  "broadcastEvent body clientPtr =
     (case body of
        None \<Rightarrow> Done clientPtr
      | Some b \<Rightarrow>
          (case clientPtr of
             None \<Rightarrow> Faulted NullPointer
           | Some s \<Rightarrow> obind (send_to_connected (c_str b) (mRoster s) s) (\<lambda>s. Done (Some s))))"

definition dispatchEvent :: "bytes option \<Rightarrow> bytes option \<Rightarrow> plugin \<Rightarrow> (int \<times> plugin) outcome" where
  "dispatchEvent to body clientPtr =
     (case (to, body) of
        (Some t, Some b) \<Rightarrow>
          (case clientPtr of
             None \<Rightarrow> Done (- 1, None)
           | Some s \<Rightarrow> obind (Client_sendMessage (c_str t) (c_str b) [] s)
               (\<lambda>(success, s). Done (if success then 0 else 1, Some s)))
      | _ \<Rightarrow> Done (- 1, clientPtr))"

section \<open>Polling\<close>

text \<open>\<^verbatim>\<open>strncpy\<close>: exactly \<open>n\<close> bytes are written, with no NUL when the text has \<open>n\<close> or more.\<close>

definition strncpy :: "bytes \<Rightarrow> bytes \<Rightarrow> uint32 \<Rightarrow> bytes outcome" where
  "strncpy dst src n =
     (if length dst < unat n then Faulted OutOfBounds
      else Done (blit 0 (take (unat n) (c_str src @ replicate (unat n) 0)) dst))"

definition hasMoreEvents :: "plugin \<Rightarrow> bool" where
  "hasMoreEvents clientPtr = (case clientPtr of None \<Rightarrow> False | Some s \<Rightarrow> mEventQueue s \<noteq> [])"

definition getNextEvent ::
    "bytes option \<Rightarrow> uint32 \<Rightarrow> bytes option \<Rightarrow> uint32 \<Rightarrow> plugin \<Rightarrow>
     (int \<times> bytes option \<times> bytes option \<times> plugin) outcome" where
  "getNextEvent username username_length message message_length clientPtr =
     (case (username, message, clientPtr) of
        (Some u, Some m, Some s) \<Rightarrow>
          (case mEventQueue s of
             [] \<Rightarrow> Done (- 1, username, message, clientPtr)
           | evt # rest \<Rightarrow>
               obind (strncpy u (event_username evt) username_length) (\<lambda>u.
               obind (strncpy m (event_message evt) message_length) (\<lambda>m.
                 Done (0, Some u, Some m, Some (s\<lparr>mEventQueue := rest\<rparr>)))))
      | _ \<Rightarrow> Done (- 1, username, message, clientPtr))"

definition hasMorePresenceEvents :: "plugin \<Rightarrow> bool" where
  "hasMorePresenceEvents clientPtr = (case clientPtr of None \<Rightarrow> False | Some s \<Rightarrow> mPresenceQueue s \<noteq> [])"

text \<open>The reference parameter is the result's third component, unchanged on an error.\<close>

definition getNextPresenceEvent ::
    "bytes option \<Rightarrow> uint32 \<Rightarrow> int \<Rightarrow> plugin \<Rightarrow> (int \<times> bytes option \<times> int \<times> plugin) outcome" where
  "getNextPresenceEvent username username_length presence clientPtr =
     (case (username, clientPtr) of
        (Some u, Some s) \<Rightarrow>
          (case mPresenceQueue s of
             [] \<Rightarrow> Done (- 1, username, presence, clientPtr)
           | evt # rest \<Rightarrow>
               obind (strncpy u (presence_username evt) username_length) (\<lambda>u.
                 Done (0, Some u, status_value (presence_status evt), Some (s\<lparr>mPresenceQueue := rest\<rparr>))))
      | _ \<Rightarrow> Done (- 1, username, presence, clientPtr))"

definition hasMoreStatusChanges :: "plugin \<Rightarrow> bool" where
  "hasMoreStatusChanges clientPtr = (case clientPtr of None \<Rightarrow> False | Some s \<Rightarrow> mStateQueue s \<noteq> [])"

fun state_value :: "state_t \<Rightarrow> int" where
  "state_value CONNECTED = 0"
| "state_value TLS_CONNECTED = 1"
| "state_value DISCONNECTED = 2"
| "state_value ROSTER_LOADED = 3"
| "state_value STATE_ERROR = 4"

definition getNextStatusChange :: "int \<Rightarrow> plugin \<Rightarrow> int \<times> int \<times> plugin" where
  "getNextStatusChange status clientPtr =
     (case clientPtr of
        None \<Rightarrow> (- 1, status, clientPtr)
      | Some s \<Rightarrow>
          (case mStateQueue s of
             [] \<Rightarrow> (- 1, status, clientPtr)
           | x # rest \<Rightarrow> (0, state_value x, Some (s\<lparr>mStateQueue := rest\<rparr>))))"

section \<open>Texts for the engine\<close>

text \<open>
  Functions that copy a text into a buffer of the caller, \<open>buf\<close> for \<^verbatim>\<open>contents\<close>.  What the operating system supplies is an
  argument: \<open>file\<close> the content of the file, if it can be opened, \<open>udid\<close> the identifier of the device,
  \<open>executable\<close> the name in the bundle's dictionary.
\<close>

definition copy_text :: "bytes \<Rightarrow> bytes \<Rightarrow> uint32 \<Rightarrow> (int \<times> bytes option) outcome" where
  "copy_text str buf n = obind (strncpy buf (c_str str) n) (\<lambda>c. Done (0, Some c))"

definition getLauncherInfoPlist ::
    "bytes option \<Rightarrow> bytes option \<Rightarrow> bytes option \<Rightarrow> uint32 \<Rightarrow> (int \<times> bytes option) outcome" where
  "getLauncherInfoPlist file filename buf buf_length =
     (case (filename, buf) of
        (Some f, Some c) \<Rightarrow>
          (case file of None \<Rightarrow> Done (- 1, buf) | Some str \<Rightarrow> copy_text str c buf_length)
      | _ \<Rightarrow> Done (- 1, buf))"

text \<open>
  The identifier on a phone: the one kept in the keychain under \<^verbatim>\<open>esc-platform-udid\<close>, or else that of the
  vendor, which is stored there.  \<open>store_ok\<close>: the keychain accepts it.  The conversion to lower case is
  that of the C locale; \<open>None\<close> as \<open>vendor\<close> is a device that has no identifier.
\<close>

definition to_lower :: "byte \<Rightarrow> byte" where
  "to_lower c = (if 65 \<le> c \<and> c \<le> 90 then c + 32 else c)"

definition uniqueDeviceIdentifier ::
    "bytes option \<Rightarrow> bool \<Rightarrow> bytes option \<Rightarrow> (bytes \<times> bytes option) outcome" where
  "uniqueDeviceIdentifier vendor store_ok keychain =
     (case keychain of
        Some uniqueIdentifier \<Rightarrow>
          if uniqueIdentifier \<noteq> [] then Done (map to_lower (c_str uniqueIdentifier), keychain)
          else (case vendor of
            None \<Rightarrow> Faulted NullPointer
          | Some v \<Rightarrow> Done (map to_lower (c_str v), if store_ok then Some v else keychain))
      | None \<Rightarrow>
          (case vendor of
            None \<Rightarrow> Faulted NullPointer
          | Some v \<Rightarrow> Done (map to_lower (c_str v), if store_ok then Some v else keychain)))"

definition getUniqueDeviceIdenifier :: "bytes \<Rightarrow> bytes option \<Rightarrow> uint32 \<Rightarrow> (int \<times> bytes option) outcome" where
  "getUniqueDeviceIdenifier unique_id udid udid_length =
     (case udid of
        None \<Rightarrow> Done (- 1, udid)
      | Some u \<Rightarrow> if unique_id \<noteq> [] then copy_text unique_id u udid_length else Done (- 1, udid))"

definition getGameIdentifier :: "bytes \<Rightarrow> bytes option \<Rightarrow> uint32 \<Rightarrow> (int \<times> bytes option) outcome" where
  "getGameIdentifier executable buf buf_length =
     (case buf of None \<Rightarrow> Done (- 1, buf) | Some c \<Rightarrow> copy_text executable c buf_length)"

definition getGoogleAnalyticsIdentifier :: "bytes option \<Rightarrow> uint32 \<Rightarrow> (int \<times> bytes option) outcome" where
  "getGoogleAnalyticsIdentifier buf buf_length =
     (case buf of
        None \<Rightarrow> Done (- 1, buf)
      | Some c \<Rightarrow> copy_text (bytes_of ''UA-53071948-1'') c buf_length)"

text \<open>Once it is stored, the identifier stays the same, whatever the vendor's is.\<close>

lemma unique_identifier_stable:
  assumes "uniqueDeviceIdentifier vendor True keychain = Done (unique_id, keychain')" and "vendor \<noteq> Some []"
  shows "uniqueDeviceIdentifier vendor' store_ok keychain' = Done (unique_id, keychain')"
  using assms by (auto simp: uniqueDeviceIdentifier_def split: option.splits if_splits)

lemma to_lower_idem: "to_lower (to_lower c) = to_lower c"
proof -
  have "\<not> (65 \<le> c + 32 \<and> c + 32 \<le> 90)" if "65 \<le> c" "c \<le> 90"
    using that by (simp add: word_le_nat_alt unat_word_ariths)
  then show ?thesis by (auto simp: to_lower_def)
qed

text \<open>
  The functions for windows do nothing on a phone.  The brightness of its screen is the bit pattern of
  a \<^verbatim>\<open>double\<close>; those of 0.01 and of 1 are written out.
\<close>

definition getHostName :: bytes where "getHostName = []"
definition setFullscreen :: int where "setFullscreen = 0"
definition exitFullscreen :: int where "exitFullscreen = 0"
definition setWindowHidden :: int where "setWindowHidden = 0"
definition setFullscreenDeveloperMode :: int where "setFullscreenDeveloperMode = 0"

definition accessWindow :: "bytes option \<Rightarrow> uint32 \<Rightarrow> int \<times> bytes option" where
  "accessWindow win win_length = (0, win)"

definition dimScreen :: "64 word \<Rightarrow> bool \<times> 64 word" where
  "dimScreen brightness =
     (if brightness \<noteq> 0x3F847AE147AE147B then (True, 0x3F847AE147AE147B) else (False, brightness))"

definition brightenScreen :: "64 word \<Rightarrow> bool \<times> 64 word" where
  "brightenScreen brightness =
     (if brightness \<noteq> 0x3FF0000000000000 then (True, 0x3FF0000000000000) else (False, brightness))"

text \<open>Each of the two reports a change once, until the other is called.\<close>

lemma screen_toggles:
  "fst (dimScreen (snd (dimScreen b))) = False" "fst (brightenScreen (snd (dimScreen b))) = True"
  "fst (brightenScreen (snd (brightenScreen b))) = False" "fst (dimScreen (snd (brightenScreen b))) = True"
  by (simp_all add: dimScreen_def brightenScreen_def)

text \<open>The launcher and the server, which take their host from \<^verbatim>\<open>getHostName\<close>, cannot connect on a phone.\<close>

lemma no_host_no_connection:
  assumes "alloc_ok \<or> clientPtr \<noteq> None"
  shows "\<exists>p. startServerInterface debug alloc_ok thread_ok getHostName clientPtr = Done (1, p)"
    and "\<exists>p. startLauncherInterface debug alloc_ok thread_ok getHostName clientPtr = Done (1, p)"
  using assms
  by (auto simp: startServerInterface_def startLauncherInterface_def startInterface_def createXmppClient_def
      xmppClientCreated_def getHostName_def c_str_def Client_connect_def Let_def)

definition isDeviceCharging :: "bool \<Rightarrow> bool" where
  "isDeviceCharging unplugged = (if unplugged then False else True)"

datatype network_status = NotReachable | ReachableViaWiFi | ReachableViaWWAN

definition isDeviceWifiConnected :: "network_status \<Rightarrow> bool" where
  "isDeviceWifiConnected networkStatus =
     (case networkStatus of NotReachable \<Rightarrow> False | ReachableViaWWAN \<Rightarrow> False | ReachableViaWiFi \<Rightarrow> True)"

definition writeLog :: "bytes option \<Rightarrow> logger \<Rightarrow> int \<times> logger" where
  "writeLog message s = (case message of None \<Rightarrow> (- 1, s) | Some m \<Rightarrow> (0, snd (Logger_info (c_str m) s)))"

text \<open>The result of \<^verbatim>\<open>writeLog\<close> does not depend on whether the message was logged.\<close>

lemma writeLog_result:
  "fst (writeLog (Some m) s) = 0 \<and>
   nslog (snd (writeLog (Some m) s)) =
     nslog s @ (if sEnabled s \<and> LEVEL_INFO \<le> sActiveLevel s \<and> sActiveLevel s \<le> LEVEL_LOG
                then [(c_str (c_str m), [byte_of (CHR ''@'')])] else [])"
proof -
  obtain logged s' where l: "Logger_log LEVEL_INFO (c_str m) s = (logged, s')" by force
  show ?thesis using log_result(1,4) [OF l] by (auto simp: writeLog_def Logger_info_def l)
qed

section \<open>Broadcasts\<close>

text \<open>Every connected peer, in the order of the names, gets the message once.\<close>

definition connected_peers :: "xmpp_client \<Rightarrow> bytes list" where
  "connected_peers s = map fst (filter (\<lambda>(k, p). mConnected p) (mRoster s))"

definition message_stanza :: "bytes \<Rightarrow> bytes \<Rightarrow> bytes \<Rightarrow> gloox_call" where
  "message_stanza server body name =
     SendMessageStanza MessageChat (AddressText (name @ bytes_of ''@'' @ server)) body []"

lemma send_to_connected_log:
  assumes "\<forall>(k, p)\<in>set roster. mUsername p = k \<and> k \<noteq> []" and "mClient (mListener s) = Some h"
    and "mIsConnected (mListener s)" and "body \<noteq> []"
  shows "send_to_connected body roster s = Done (s\<lparr>gloox_state := gcalls h
     (map (message_stanza (mServer (mListener s)) body) (map fst (filter (\<lambda>(k, p). mConnected p) roster)))
     (gloox_state s)\<rparr>)"
  using assms
proof (induction roster arbitrary: s)
  case (Cons e roster)
  obtain k p where e: "e = (k, p)" by force
  show ?case
  proof (cases "mConnected p")
    case True
    then show ?thesis
      using Cons by (simp add: e sendMessage_result message_stanza_def gcalls_def gcall_def)
  qed (use Cons in \<open>simp add: e\<close>)
qed (simp add: gcalls_def)

text \<open>Without a connection nothing is sent, and nothing says so.\<close>

lemma send_to_connected_offline:
  "\<not> mIsConnected (mListener s) \<Longrightarrow> send_to_connected body roster s = Done s"
  by (induction roster) (auto simp: sendMessage_result split: option.split)

lemma game_function_broadcasts:
  assumes "client_inv s" and "mIsConnected (mListener s)" and "map_find [] (mRoster s) = None"
  shows "\<exists>h. mClient (mListener s) = Some h \<and>
    game_function c (Some s) = Done (0, Some (s\<lparr>gloox_state := gcalls h
      (map (message_stanza (mServer (mListener s)) (command_text c)) (connected_peers s)) (gloox_state s)\<rparr>)) \<and>
    sorted_wrt (<) (connected_peers s) \<and>
    set (connected_peers s) = {k. isPeerConnected k s}"
proof -
  obtain h where h: "mClient (mListener s) = Some h" using assms by (auto simp: client_inv_def)
  have ok: "sorted_wrt (<) (map fst (mRoster s))" "\<forall>(k, p)\<in>set (mRoster s). peer_ok k p"
    using assms(1) by (auto simp: client_inv_def roster_ok_def map_ok_def)
  have d: "distinct (map fst (mRoster s))" using ok(1) by (simp add: strict_sorted_iff)
  have names: "\<forall>(k, p)\<in>set (mRoster s). mUsername p = k \<and> k \<noteq> []"
    using ok(2) assms(3) by (force simp: peer_ok_def map_find_def map_of_eq_None_iff)
  have body: "command_text c \<noteq> []" by (cases c) simp_all
  have sorted: "sorted_wrt (<) (connected_peers s)"
    using ok(1) unfolding connected_peers_def
    by (simp add: sorted_wrt_map sorted_wrt_filter)
  have "k \<in> set (connected_peers s) \<longleftrightarrow> (\<exists>p. (k, p) \<in> set (mRoster s) \<and> mConnected p)" for k
    by (force simp: connected_peers_def)
  moreover have "isPeerConnected k s \<longleftrightarrow> (\<exists>p. (k, p) \<in> set (mRoster s) \<and> mConnected p)" for k
    unfolding isPeerConnected_def map_find_def map_of_eq_Some_iff [OF d, symmetric]
    by (auto split: option.split)
  ultimately have eq: "set (connected_peers s) = {k. isPeerConnected k s}" by blast
  from names body sorted eq show ?thesis
    using send_to_connected_log [OF _ h assms(2)] h by (simp add: game_function_def connected_peers_def)
qed

section \<open>Queues\<close>

definition pop_event :: "xmpp_client \<Rightarrow> (event \<times> xmpp_client) option" where
  "pop_event s = (case mEventQueue s of [] \<Rightarrow> None | e # rest \<Rightarrow> Some (e, s\<lparr>mEventQueue := rest\<rparr>))"

definition pop_state :: "xmpp_client \<Rightarrow> (state_t \<times> xmpp_client) option" where
  "pop_state s = (case mStateQueue s of [] \<Rightarrow> None | e # rest \<Rightarrow> Some (e, s\<lparr>mStateQueue := rest\<rparr>))"

definition pop_presence :: "xmpp_client \<Rightarrow> (presence_event \<times> xmpp_client) option" where
  "pop_presence s = (case mPresenceQueue s of [] \<Rightarrow> None | e # rest \<Rightarrow> Some (e, s\<lparr>mPresenceQueue := rest\<rparr>))"

interpretation event_queue: fifo push_event pop_event "\<lambda>_. True" mEventQueue
  by unfold_locales (auto simp: push_event_def pop_event_def)

interpretation state_queue: fifo push_state pop_state "\<lambda>_. True" mStateQueue
  by unfold_locales (auto simp: push_state_def pop_state_def)

interpretation presence_queue: fifo push_presence pop_presence "\<lambda>_. True" mPresenceQueue
  by unfold_locales (auto simp: push_presence_def pop_presence_def)

lemma read_strncpy:
  assumes "unat n \<le> length dst" and "length src < unat n" and "0 \<notin> set src"
  shows "\<exists>dst'. strncpy dst src n = Done dst' \<and> length dst' = length dst \<and> read_cstr dst' 0 = Inr src"
proof -
  let ?t = "take (unat n) (c_str src @ replicate (unat n) 0)"
  have c: "c_str src = src" using assms(3) by (auto simp: c_str_def takeWhile_eq_all_conv)
  obtain k where "unat n - length src = Suc k" using assms(2) by (metis Suc_diff_Suc)
  moreover have "?t = src @ replicate (unat n - length src) 0" using assms(2) by (simp add: c)
  ultimately have t: "?t = src @ 0 # replicate k 0" by simp
  have "c_str (src @ 0 # rest) = src" for rest
    using assms(3) by (auto simp: c_str_def takeWhile_append)
  then have "read_cstr (blit 0 ?t dst) 0 = Inr src" unfolding t by (simp add: read_cstr_def blit_def)
  moreover have "length (blit 0 ?t dst) = length dst" using assms(1) by simp
  ultimately show ?thesis using assms(1) by (simp add: strncpy_def)
qed

text \<open>A text that fills the buffer is copied without the NUL that ends it.\<close>

lemma strncpy_unterminated:
  assumes "unat n \<le> length src" and "0 \<notin> set src" and "length dst = unat n"
  shows "\<exists>dst'. strncpy dst src n = Done dst' \<and> dst' = take (unat n) src \<and> read_cstr dst' 0 = Inl Fault"
proof -
  have c: "c_str src = src" using assms(2) by (auto simp: c_str_def takeWhile_eq_all_conv)
  have "0 \<notin> set (take (unat n) src)" using assms(2) by (meson in_set_takeD)
  then show ?thesis using assms by (auto simp: strncpy_def c blit_def read_cstr_def)
qed

end
