(* ===== verification/OscMessage.thy ===== *)
theory OscMessage
  imports CNumbers
begin

text \<open>
  The messages and bundles that clients build and receive: \<^verbatim>\<open>product/source/OscArg.h\<close>,
  \<^verbatim>\<open>OscMessage.{h,cpp}\<close> and \<^verbatim>\<open>OscBundle.{h,cpp}\<close>.  A \<^verbatim>\<open>std::vector<Arg*>\<close> whose elements are
  owned by one message is a list of values; copying allocates new arguments, so values suffice
  except where a message is assigned to itself (\<open>Message_copy_self\<close>).
\<close>

section \<open>Arguments\<close>

datatype arg_type =
    TYPE_NONE | TYPE_INT32 | TYPE_FLOAT | TYPE_STRING | TYPE_BLOB | TYPE_BUNDLE | TYPE_INDEXOUTOFBOUNDS

datatype osc_arg =
    ArgInt32 int32
  | ArgFloat "32 word"
  | ArgString bytes

fun Arg_getType :: "osc_arg \<Rightarrow> arg_type" where
  "Arg_getType (ArgInt32 x) = TYPE_INT32"
| "Arg_getType (ArgFloat x) = TYPE_FLOAT"
| "Arg_getType (ArgString s) = TYPE_STRING"

fun Arg_getTypeName :: "osc_arg \<Rightarrow> string" where
  "Arg_getTypeName (ArgInt32 x) = ''int32''"
| "Arg_getTypeName (ArgFloat x) = ''float''"
| "Arg_getTypeName (ArgString s) = ''string''"

text \<open>\<^verbatim>\<open>Arg\<close> itself, of which the three are derived.\<close>

definition base_getType :: arg_type where "base_getType = TYPE_NONE"

definition base_getTypeName :: string where "base_getTypeName = ''none''"

text \<open>
  The C-style casts \<^verbatim>\<open>((ArgInt32* )args[index])->get()\<close>: undefined on an argument of another
  class.
\<close>

fun as_ArgInt32 :: "osc_arg \<Rightarrow> osc_error + int32" where
  "as_ArgInt32 (ArgInt32 x) = Inr x"
| "as_ArgInt32 a = Inl Fault"

fun as_ArgFloat :: "osc_arg \<Rightarrow> osc_error + 32 word" where
  "as_ArgFloat (ArgFloat x) = Inr x"
| "as_ArgFloat a = Inl Fault"

fun as_ArgString :: "osc_arg \<Rightarrow> osc_error + bytes" where
  "as_ArgString (ArgString s) = Inr s"
| "as_ArgString a = Inl Fault"

fun ArgInt32_set :: "int32 \<Rightarrow> osc_arg \<Rightarrow> osc_error + osc_arg" where
  "ArgInt32_set x (ArgInt32 old) = Inr (ArgInt32 x)"
| "ArgInt32_set x a = Inl Fault"

fun ArgFloat_set :: "32 word \<Rightarrow> osc_arg \<Rightarrow> osc_error + osc_arg" where
  "ArgFloat_set x (ArgFloat old) = Inr (ArgFloat x)"
| "ArgFloat_set x a = Inl Fault"

text \<open>This one takes a \<^verbatim>\<open>const char*\<close>.\<close>

fun ArgString_set :: "bytes \<Rightarrow> osc_arg \<Rightarrow> osc_error + osc_arg" where
  "ArgString_set s (ArgString old) = Inr (ArgString (c_str s))"
| "ArgString_set s a = Inl Fault"

section \<open>Messages\<close>

record osc_message =
  address :: bytes
  args :: "osc_arg list"
  remote_host :: bytes
  remote_port :: int32

text \<open>\<^verbatim>\<open>Message()\<close> leaves \<^verbatim>\<open>remote_port\<close> with the indeterminate value \<open>garbage\<close>.\<close>

definition new_Message :: "int32 \<Rightarrow> osc_message" where
  "new_Message garbage = \<lparr>address = [], args = [], remote_host = [], remote_port = garbage\<rparr>"

definition Message_clear :: "osc_message \<Rightarrow> osc_message" where
  "Message_clear m = m\<lparr>args := [], address := []\<rparr>"

definition setAddress :: "bytes \<Rightarrow> osc_message \<Rightarrow> osc_message" where
  "setAddress a m = m\<lparr>address := a\<rparr>"

definition setRemoteEndpoint :: "bytes \<Rightarrow> int32 \<Rightarrow> osc_message \<Rightarrow> osc_message" where
  "setRemoteEndpoint host port m = m\<lparr>remote_host := host, remote_port := port\<rparr>"

definition getAddress :: "osc_message \<Rightarrow> bytes" where
  "getAddress m = address m"

definition getRemoteIp :: "osc_message \<Rightarrow> bytes" where
  "getRemoteIp m = remote_host m"

definition getRemotePort :: "osc_message \<Rightarrow> int32" where
  "getRemotePort m = remote_port m"

definition getNumArgs :: "osc_message \<Rightarrow> int" where
  "getNumArgs m = int (length (args m))"

text \<open>\<^verbatim>\<open>args[index]\<close>, which checks nothing.\<close>

definition arg_at :: "osc_message \<Rightarrow> int \<Rightarrow> osc_error + osc_arg" where
  "arg_at m index =
     (if 0 \<le> index \<and> index < int (length (args m)) then Inr (args m ! nat index) else Inl Fault)"

definition getArgType :: "osc_message \<Rightarrow> int \<Rightarrow> osc_error + arg_type" where
  "getArgType m index =
     (if index \<ge> int (length (args m)) then Inl OscExcOutOfBounds
      else ebind (arg_at m index) (\<lambda>a. Inr (Arg_getType a)))"

definition getArgTypeName :: "osc_message \<Rightarrow> int \<Rightarrow> osc_error + string" where
  "getArgTypeName m index =
     (if index \<ge> int (length (args m)) then Inl OscExcOutOfBounds
      else ebind (arg_at m index) (\<lambda>a. Inr (Arg_getTypeName a)))"

definition getArgAsInt32 :: "osc_message \<Rightarrow> int \<Rightarrow> bool \<Rightarrow> osc_error + int32" where
  "getArgAsInt32 m index typeConvert =
     ebind (getArgType m index) (\<lambda>t.
       if t \<noteq> TYPE_INT32 then
         if typeConvert \<and> t = TYPE_FLOAT
         then ebind (ebind (arg_at m index) as_ArgFloat) (\<lambda>x.
                case float_to_int x of None \<Rightarrow> Inl Fault | Some i \<Rightarrow> Inr i)
         else Inl OscExcInvalidArgumentType
       else ebind (arg_at m index) as_ArgInt32)"

definition getArgAsFloat :: "osc_message \<Rightarrow> int \<Rightarrow> bool \<Rightarrow> osc_error + 32 word" where
  "getArgAsFloat m index typeConvert =
     ebind (getArgType m index) (\<lambda>t.
       if t \<noteq> TYPE_FLOAT then
         if typeConvert \<and> t = TYPE_INT32
         then ebind (ebind (arg_at m index) as_ArgInt32) (\<lambda>x. Inr (int_to_float x))
         else Inl OscExcInvalidArgumentType
       else ebind (arg_at m index) as_ArgFloat)"

definition getArgAsString :: "osc_message \<Rightarrow> int \<Rightarrow> bool \<Rightarrow> osc_error + bytes" where
  "getArgAsString m index typeConvert =
     ebind (getArgType m index) (\<lambda>t.
       if t \<noteq> TYPE_STRING then
         if typeConvert \<and> t = TYPE_FLOAT
         then ebind (ebind (arg_at m index) as_ArgFloat) (\<lambda>x. Inr (sprintf_f x))
         else if typeConvert \<and> t = TYPE_INT32
         then ebind (ebind (arg_at m index) as_ArgInt32) (\<lambda>x. Inr (sprintf_i x))
         else Inl OscExcInvalidArgumentType
       else ebind (arg_at m index) as_ArgString)"

definition addIntArg :: "int32 \<Rightarrow> osc_message \<Rightarrow> osc_message" where
  "addIntArg x m = m\<lparr>args := args m @ [ArgInt32 x]\<rparr>"

definition addFloatArg :: "32 word \<Rightarrow> osc_message \<Rightarrow> osc_message" where
  "addFloatArg x m = m\<lparr>args := args m @ [ArgFloat x]\<rparr>"

definition addStringArg :: "bytes \<Rightarrow> osc_message \<Rightarrow> osc_message" where
  "addStringArg s m = m\<lparr>args := args m @ [ArgString s]\<rparr>"

section \<open>Copying a message\<close>

text \<open>
  \<^verbatim>\<open>copy\<close>, which is also the assignment operator, for two different objects: the arguments of
  \<open>other\<close> are appended, those the message already has stay.
\<close>

function copy_args :: "osc_message \<Rightarrow> nat \<Rightarrow> osc_message \<Rightarrow> osc_error + osc_message" where
  "copy_args other i m =
     (if i < length (args other) then
        ebind (getArgType other (int i)) (\<lambda>argType.
          if argType = TYPE_INT32
          then ebind (getArgAsInt32 other (int i) False) (\<lambda>x. copy_args other (i + 1) (addIntArg x m))
          else if argType = TYPE_FLOAT
          then ebind (getArgAsFloat other (int i) False) (\<lambda>x. copy_args other (i + 1) (addFloatArg x m))
          else if argType = TYPE_STRING
          then ebind (getArgAsString other (int i) False) (\<lambda>s. copy_args other (i + 1) (addStringArg s m))
          else Inl OscExcInvalidArgumentType)
      else Inr m)"
  by pat_completeness auto
termination by (relation "measure (\<lambda>(other, i, m). length (args other) - i)") auto

declare copy_args.simps [simp del]

definition Message_copy :: "osc_message \<Rightarrow> osc_message \<Rightarrow> osc_error + osc_message" where
  "Message_copy this other =
     copy_args other 0
       (this\<lparr>address := address other, remote_host := remote_host other, remote_port := remote_port other\<rparr>)"

text \<open>The copy constructor, and the assignment from another message.\<close>

definition copy_of_Message :: "int32 \<Rightarrow> osc_message \<Rightarrow> osc_error + osc_message" where
  "copy_of_Message garbage other = Message_copy (new_Message garbage) other"

definition assign_Message :: "osc_message \<Rightarrow> osc_message \<Rightarrow> osc_error + osc_message" where
  "assign_Message this other = Message_copy this other"

text \<open>
  \<^verbatim>\<open>m = m\<close>: the vector the loop runs over is the one it appends to.  Every turn appends a copy
  of argument \<open>i\<close> and the bound is read again, so the loop may have no result.
\<close>

partial_function (option) Message_copy_self :: "nat \<Rightarrow> osc_arg list \<Rightarrow> osc_arg list option" where
  "Message_copy_self i xs =
     (if i < length xs then Message_copy_self (i + 1) (xs @ [xs ! i]) else Some xs)"

section \<open>Bundles\<close>

datatype osc_bundle = OscBundle (messages: "osc_message list") (bundles: "osc_bundle list")

definition new_Bundle :: osc_bundle where
  "new_Bundle = OscBundle [] []"

definition Bundle_clear :: "osc_bundle \<Rightarrow> osc_bundle" where
  "Bundle_clear b = OscBundle [] []"

definition addBundle :: "osc_bundle \<Rightarrow> osc_bundle \<Rightarrow> osc_bundle" where
  "addBundle x b = OscBundle (messages b) (bundles b @ [x])"

definition addMessage :: "osc_message \<Rightarrow> osc_bundle \<Rightarrow> osc_bundle" where
  "addMessage m b = OscBundle (messages b @ [m]) (bundles b)"

text \<open>\<^verbatim>\<open>copy\<close> and assignment for two different objects: the elements are appended.\<close>

definition Bundle_copy :: "osc_bundle \<Rightarrow> osc_bundle \<Rightarrow> osc_bundle" where
  "Bundle_copy this other =
     fold addMessage (messages other) (fold addBundle (bundles other) this)"

definition copy_of_Bundle :: "osc_bundle \<Rightarrow> osc_bundle" where
  "copy_of_Bundle other = Bundle_copy new_Bundle other"

definition assign_Bundle :: "osc_bundle \<Rightarrow> osc_bundle \<Rightarrow> osc_bundle" where
  "assign_Bundle this other = Bundle_copy this other"

definition getBundleCount :: "osc_bundle \<Rightarrow> int" where
  "getBundleCount b = int (length (bundles b))"

definition getMessageCount :: "osc_bundle \<Rightarrow> int" where
  "getMessageCount b = int (length (messages b))"

text \<open>\<^verbatim>\<open>operator[]\<close> checks nothing.\<close>

definition getBundleAt :: "osc_bundle \<Rightarrow> int \<Rightarrow> osc_error + osc_bundle" where
  "getBundleAt b index =
     (if 0 \<le> index \<and> index < getBundleCount b then Inr (bundles b ! nat index) else Inl Fault)"

definition getMessageAt :: "osc_bundle \<Rightarrow> int \<Rightarrow> osc_error + osc_message" where
  "getMessageAt b index =
     (if 0 \<le> index \<and> index < getMessageCount b then Inr (messages b ! nat index) else Inl Fault)"

section \<open>Properties\<close>

lemma arg_at_ok: "i < length (args m) \<Longrightarrow> arg_at m (int i) = Inr (args m ! i)"
  by (simp add: arg_at_def)

lemma getArgType_ok: "i < length (args m) \<Longrightarrow> getArgType m (int i) = Inr (Arg_getType (args m ! i))"
  by (simp add: getArgType_def arg_at_ok)

text \<open>The buffer of 1024 bytes of \<^verbatim>\<open>getArgAsString\<close> is large enough for every number.\<close>

lemma converted_text:
  assumes "getArgAsString m i True = Inr t" and "getArgType m i \<noteq> Inr TYPE_STRING"
  shows "length t < 1024 \<and>
    (\<forall>n. getArgAsInt32 m i False = Inr n \<longrightarrow> t = sprintf_i n) \<and>
    (\<forall>x. getArgAsFloat m i False = Inr x \<longrightarrow> t = sprintf_f x)"
proof -
  obtain a where a: "getArgType m i = Inr (Arg_getType a)" "arg_at m i = Inr a"
    using assms(1) by (auto simp: getArgAsString_def getArgType_def ebind_eq_Inr_iff split: if_splits)
  have "length (sprintf_i n) < 1024" "length (sprintf_f w) < 1024" for n w
    using length_sprintf_i [of n] length_sprintf_f [of w] by simp_all
  then show ?thesis
    using assms a by (cases a) (auto simp: getArgAsString_def getArgAsInt32_def getArgAsFloat_def)
qed

lemma accessors_out_of_range:
  assumes "i < 0 \<or> getNumArgs m \<le> i" and "e = (if i < 0 then Fault else OscExcOutOfBounds)"
  shows "getArgType m i = Inl e" and "getArgAsString m i c = Inl e"
    and "getArgAsInt32 m i c = Inl e" and "getArgAsFloat m i c = Inl e"
proof -
  show t: "getArgType m i = Inl e"
    using assms by (auto simp: getArgType_def arg_at_def getNumArgs_def)
  show "getArgAsString m i c = Inl e" "getArgAsInt32 m i c = Inl e" "getArgAsFloat m i c = Inl e"
    by (simp_all add: getArgAsString_def getArgAsInt32_def getArgAsFloat_def t)
qed

lemma text_of_argument:
  assumes "0 \<le> i" and "i < getNumArgs m"
  shows "\<exists>t. getArgAsString m i True = Inr t \<and>
    (getArgType m i \<noteq> Inr TYPE_STRING \<longrightarrow> length t < 1024) \<and>
    (\<forall>n. getArgAsInt32 m i False = Inr n \<longrightarrow> decimal_value t = sint n)"
proof -
  have a: "getArgType m i = Inr (Arg_getType (args m ! nat i))" "arg_at m i = Inr (args m ! nat i)"
    using assms by (simp_all add: getArgType_def arg_at_def getNumArgs_def)
  then obtain t where t: "getArgAsString m i True = Inr t"
    by (cases "args m ! nat i") (auto simp: getArgAsString_def)
  moreover have "decimal_value t = sint n" if n: "getArgAsInt32 m i False = Inr n" for n
  proof -
    have "getArgType m i \<noteq> Inr TYPE_STRING" using n a by (auto simp: getArgAsInt32_def)
    then show ?thesis using converted_text [OF t] n by (simp add: decimal_value_sprintf_i)
  qed
  ultimately show ?thesis using converted_text [OF t] by blast
qed

lemma copy_args_eq: "i \<le> length (args other) \<Longrightarrow>
  copy_args other i m = Inr (m\<lparr>args := args m @ drop i (args other)\<rparr>)"
proof (induction other i m rule: copy_args.induct)
  case (1 other i m)
  show ?case
  proof (cases "i < length (args other)")
    case False
    with "1.prems" show ?thesis by (subst copy_args.simps) simp
  next
    case True
    note at = arg_at_ok [OF True] getArgType_ok [OF True]
    have d: "drop i (args other) = args other ! i # drop (i + 1) (args other)"
      using True by (simp add: Cons_nth_drop_Suc)
    show ?thesis
    proof (cases "args other ! i")
      case (ArgInt32 x)
      with "1.IH"(1) [OF True] True at d show ?thesis
        by (subst copy_args.simps) (simp add: getArgAsInt32_def addIntArg_def)
    next
      case (ArgFloat x)
      with "1.IH"(2) [OF True] True at d show ?thesis
        by (subst copy_args.simps) (simp add: getArgAsFloat_def addFloatArg_def)
    next
      case (ArgString x)
      with "1.IH"(3) [OF True] True at d show ?thesis
        by (subst copy_args.simps) (simp add: getArgAsString_def addStringArg_def)
    qed
  qed
qed

lemma Message_copy_eq:
  "Message_copy this other =
    Inr \<lparr>address = address other, args = args this @ args other,
         remote_host = remote_host other, remote_port = remote_port other\<rparr>"
  by (simp add: Message_copy_def copy_args_eq)

lemma Message_copy_self_result: "Message_copy_self i xs = Some ys \<Longrightarrow> length xs \<le> i"
proof (rule Message_copy_self.raw_induct [where P = "\<lambda>i xs ys. length xs \<le> i"])
  fix rec i xs ys
  assume IH: "\<And>i xs ys. rec i xs = Some ys \<Longrightarrow> length xs \<le> i"
    and eq: "(if i < length xs then rec (i + 1) (xs @ [xs ! i]) else Some xs) = Some ys"
  show "length xs \<le> i"
    using IH [of "i + 1" "xs @ [xs ! i]" ys] eq by (cases "i < length xs") auto
qed

lemma Message_copy_self_diverges: "i < length xs \<Longrightarrow> Message_copy_self i xs = None"
  using Message_copy_self_result [of i xs] by (cases "Message_copy_self i xs") force+

lemma fold_addBundle: "fold addBundle xs b = OscBundle (messages b) (bundles b @ xs)"
  by (induction xs arbitrary: b) (auto simp: addBundle_def)

lemma fold_addMessage: "fold addMessage xs b = OscBundle (messages b @ xs) (bundles b)"
  by (induction xs arbitrary: b) (auto simp: addMessage_def)

lemma Bundle_copy_eq:
  "Bundle_copy this other = OscBundle (messages this @ messages other) (bundles this @ bundles other)"
  by (simp add: Bundle_copy_def fold_addBundle fold_addMessage)

end
