(* ===== verification/IpEndpoint.thy ===== *)
theory IpEndpoint
  imports CNumbers ByteOrder
begin

text \<open>
  \<^verbatim>\<open>product/source/ip/IpEndpointName.{h,cpp}\<close>, and the conversion to and from \<^verbatim>\<open>sockaddr_in\<close> at
  the top of \<^verbatim>\<open>ip/posix/UdpSocket.cpp\<close>.  \<^verbatim>\<open>address\<close> is an \<^verbatim>\<open>unsigned long\<close> of 64 bits that
  holds an IPv4 address in host order; the name lookup of the system is the parameter \<open>resolve\<close>.
\<close>

section \<open>Endpoints\<close>

record ip_endpoint =
  ep_address :: ulong
  ep_port :: int32

definition ANY_ADDRESS :: ulong where "ANY_ADDRESS = 0xFFFFFFFF"
definition ANY_PORT :: int32 where "ANY_PORT = - 1"

text \<open>The constructors of \<^verbatim>\<open>IpEndpointName\<close>.\<close>

definition endpoint_any :: ip_endpoint where
  "endpoint_any = \<lparr>ep_address = ANY_ADDRESS, ep_port = ANY_PORT\<rparr>"

definition endpoint_port :: "int32 \<Rightarrow> ip_endpoint" where
  "endpoint_port p = \<lparr>ep_address = ANY_ADDRESS, ep_port = p\<rparr>"

definition endpoint_address :: "ulong \<Rightarrow> int32 \<Rightarrow> ip_endpoint" where
  "endpoint_address a p = \<lparr>ep_address = a, ep_port = p\<rparr>"

text \<open>
  \<^verbatim>\<open>GetHostByName\<close> of \<^verbatim>\<open>NetworkingUtils.cpp\<close>: 0 when the lookup of the system fails, else the
  address it gives, already in host order here.
\<close>

definition GetHostByName :: "(bytes \<Rightarrow> 32 word option) \<Rightarrow> bytes \<Rightarrow> ulong" where
  "GetHostByName resolve name = (case resolve name of None \<Rightarrow> 0 | Some a \<Rightarrow> ucast a)"

definition endpoint_name :: "(bytes \<Rightarrow> 32 word option) \<Rightarrow> bytes \<Rightarrow> int32 \<Rightarrow> ip_endpoint" where
  "endpoint_name resolve name p = \<lparr>ep_address = GetHostByName resolve name, ep_port = p\<rparr>"

text \<open>The four octets are combined as \<^verbatim>\<open>int\<close>, whose sign is extended to \<^verbatim>\<open>unsigned long\<close>.\<close>

definition endpoint_octets :: "int32 \<Rightarrow> int32 \<Rightarrow> int32 \<Rightarrow> int32 \<Rightarrow> int32 \<Rightarrow> ip_endpoint" where
  "endpoint_octets a b c d p =
     \<lparr>ep_address = scast (push_bit 24 a OR push_bit 16 b OR push_bit 8 c OR d), ep_port = p\<rparr>"

section \<open>Text\<close>

text \<open>\<^verbatim>\<open>(int)((address >> n) & 0xFF)\<close>\<close>

definition octet :: "nat \<Rightarrow> ip_endpoint \<Rightarrow> nat" where
  "octet n e = unat (drop_bit n (ep_address e) AND 0xFF)"

definition dotted :: "ip_endpoint \<Rightarrow> bytes" where
  "dotted e = show_nat (octet 24 e) @ [46] @ show_nat (octet 16 e) @ [46] @
              show_nat (octet 8 e) @ [46] @ show_nat (octet 0 e)"

definition AddressAsString :: "ip_endpoint \<Rightarrow> bytes" where
  "AddressAsString e = (if ep_address e = ANY_ADDRESS then bytes_of ''<any>'' else dotted e)"

definition AddressAndPortAsString :: "ip_endpoint \<Rightarrow> bytes" where
  "AddressAndPortAsString e =
     (if ep_port e = ANY_PORT
      then if ep_address e = ANY_ADDRESS then bytes_of ''<any>:<any>'' else dotted e @ bytes_of '':<any>''
      else if ep_address e = ANY_ADDRESS then bytes_of ''<any>:'' @ sprintf_i (ep_port e)
      else dotted e @ bytes_of '':'' @ sprintf_i (ep_port e))"

definition ADDRESS_STRING_LENGTH :: nat where "ADDRESS_STRING_LENGTH = 17"
definition ADDRESS_AND_PORT_STRING_LENGTH :: nat where "ADDRESS_AND_PORT_STRING_LENGTH = 23"

section \<open>Socket addresses\<close>

text \<open>The two fields of \<^verbatim>\<open>sockaddr_in\<close>, in network byte order.\<close>

record sockaddr =
  sin_addr :: "32 word"
  sin_port :: "16 word"

definition htonl :: "32 word \<Rightarrow> 32 word" where
  "htonl w = union_int32 (union_byte w 3) (union_byte w 2) (union_byte w 1) (union_byte w 0)"

definition htons :: "16 word \<Rightarrow> 16 word" where
  "htons w = push_bit 8 w OR drop_bit 8 w"

definition SockaddrFromIpEndpointName :: "ip_endpoint \<Rightarrow> sockaddr" where
  "SockaddrFromIpEndpointName e =
     \<lparr>sin_addr = (if ep_address e = ANY_ADDRESS then 0 else htonl (ucast (ep_address e))),
      sin_port = (if ep_port e = ANY_PORT then 0 else htons (ucast (ep_port e)))\<rparr>"

definition IpEndpointNameFromSockaddr :: "sockaddr \<Rightarrow> ip_endpoint" where
  "IpEndpointNameFromSockaddr s =
     \<lparr>ep_address = (if sin_addr s = 0 then ANY_ADDRESS else ucast (htonl (sin_addr s))),
      ep_port = (if sin_port s = 0 then ANY_PORT else ucast (htons (sin_port s)))\<rparr>"

section \<open>Lengths\<close>

lemma octet_less: "octet n e < 256"
proof -
  have "drop_bit n (ep_address e) AND 0xFF = take_bit 8 (drop_bit n (ep_address e))"
    by (simp add: take_bit_eq_mask mask_eq_exp_minus_1)
  also have "\<dots> = drop_bit n (ep_address e) mod 256" by (simp add: take_bit_eq_mod)
  finally show ?thesis by (simp add: octet_def unat_mod)
qed

lemma length_dotted: "length (dotted e) \<le> 15"
proof -
  have "length (show_nat (octet n e)) \<le> 3" for n
    using octet_less [of n e] by (intro length_show_nat_le) auto
  from this [of 24] this [of 16] this [of 8] this [of 0] show ?thesis
    by (simp add: dotted_def)
qed

lemma length_sprintf_i_port: "0 \<le> sint p \<Longrightarrow> sint p < 65536 \<Longrightarrow> length (sprintf_i p) \<le> 5"
  unfolding sprintf_i_def using length_show_nat_le [of "nat (sint p)" 5] by simp

section \<open>The text determines the address\<close>

lemma split_at_separator:
  assumes "x \<notin> set us" and "x \<notin> set vs" and "us @ x # ps = vs @ x # qs"
  shows "us = vs \<and> ps = qs"
  using assms
proof (induction us arbitrary: vs)
  case Nil
  then show ?case by (cases vs) auto
next
  case (Cons u us)
  then show ?case by (cases vs) auto
qed

lemma dot_not_digit: "46 \<notin> set (show_nat n)" "60 \<notin> set (show_nat n)"
  using show_nat_digits [of n] by (auto simp: subset_iff word_le_nat_alt)

lemma show_nat_inject: "show_nat m = show_nat n \<longleftrightarrow> m = n"
  by (metis digits_value_show_nat)

lemma dotted_inject:
  assumes "dotted e = dotted f"
  shows "octet 24 e = octet 24 f \<and> octet 16 e = octet 16 f \<and> octet 8 e = octet 8 f \<and> octet 0 e = octet 0 f"
proof -
  let ?t = "\<lambda>n e. show_nat (octet n e)"
  have "?t 24 e @ 46 # (?t 16 e @ 46 # (?t 8 e @ 46 # ?t 0 e)) =
      ?t 24 f @ 46 # (?t 16 f @ 46 # (?t 8 f @ 46 # ?t 0 f))"
    using assms by (simp add: dotted_def)
  note 1 = split_at_separator [OF dot_not_digit(1) dot_not_digit(1) this]
  note 2 = split_at_separator [OF dot_not_digit(1) dot_not_digit(1) conjunct2 [OF 1]]
  note 3 = split_at_separator [OF dot_not_digit(1) dot_not_digit(1) conjunct2 [OF 2]]
  show ?thesis using 1 2 3 by (simp add: show_nat_inject)
qed

lemma octet_bits: "octet (8 * k) e = unat (union_byte (ep_address e) k)"
proof -
  have "drop_bit (8 * k) (ep_address e) AND 0xFF = take_bit 8 (drop_bit (8 * k) (ep_address e))"
    by (simp add: take_bit_eq_mask mask_eq_exp_minus_1)
  then show ?thesis
    by (simp add: octet_def union_byte_def unsigned_ucast_eq unsigned_take_bit_eq)
qed

lemma low_address_eq:
  assumes "octet 24 e = octet 24 f" "octet 16 e = octet 16 f" "octet 8 e = octet 8 f" "octet 0 e = octet 0 f"
  shows "(ucast (ep_address e) :: 32 word) = ucast (ep_address f)"
proof -
  have b: "union_byte (ucast w :: 32 word) k = union_byte (w :: 64 word) k" if "k < 4" for w k
    by (rule bit_word_eqI) (use that in \<open>auto simp: bit_union_byte bit_simps\<close>)
  have "union_byte (ep_address e) k = union_byte (ep_address f) k" if "k \<in> {0, 1, 2, 3}" for k
    using that assms octet_bits [of k e] octet_bits [of k f] by (auto simp: word_unat_eq_iff)
  then show ?thesis
    using union_int32_bytes [of "ucast (ep_address e)"] union_int32_bytes [of "ucast (ep_address f)"]
    by (simp add: b)
qed

section \<open>Round trips of socket addresses\<close>

lemma htonl_htonl: "htonl (htonl w) = w"
  by (simp add: htonl_def union_byte_int32 [simplified] union_int32_bytes [simplified])

lemma htonl_eq_0: "htonl w = 0 \<longleftrightarrow> w = 0"
proof -
  have "htonl 0 = 0" by (simp add: htonl_def union_byte_def union_int32_def)
  then show ?thesis by (metis htonl_htonl)
qed

lemma htons_htons: "htons (htons w) = w"
  unfolding htons_def by (rule bit_word_eqI) (auto simp: bit_simps)

lemma htons_eq_0: "htons w = 0 \<longleftrightarrow> w = 0"
proof -
  have "htons 0 = 0" by (simp add: htons_def)
  then show ?thesis by (metis htons_htons)
qed

text \<open>An endpoint the system can express: an IPv4 address other than 0, a port other than 0.\<close>

definition valid_endpoint :: "ip_endpoint \<Rightarrow> bool" where
  "valid_endpoint e \<longleftrightarrow>
     unat (ep_address e) < 2 ^ 32 \<and> ep_address e \<noteq> 0 \<and>
     (ep_port e = ANY_PORT \<or> (0 < unat (ep_port e) \<and> unat (ep_port e) < 2 ^ 16))"

lemma ucast_small: "unat (w :: 'a::len word) < 2 ^ LENGTH('b::len) \<Longrightarrow> LENGTH('b) \<le> LENGTH('a) \<Longrightarrow>
   ucast (ucast w :: 'b word) = w"
  by (rule word_unat_eq_iff [THEN iffD2]) (simp add: unat_ucast_mod)


lemma sockaddr_roundtrip_any: "ANY_ADDRESS \<noteq> 0" "ANY_PORT \<noteq> 0"
  by (simp_all add: ANY_ADDRESS_def ANY_PORT_def)

lemma sockaddr_roundtrip:
  assumes "valid_endpoint e"
  shows "IpEndpointNameFromSockaddr (SockaddrFromIpEndpointName e) = e"
proof -
  have a: "ucast (ucast (ep_address e) :: 32 word) = ep_address e"
    using assms by (intro ucast_small) (auto simp: valid_endpoint_def)
  moreover have "ep_address e \<noteq> 0" using assms by (simp add: valid_endpoint_def)
  ultimately have a0: "(ucast (ep_address e) :: 32 word) \<noteq> 0" by auto
  have p: "ucast (ucast (ep_port e) :: 16 word) = ep_port e \<and> (ucast (ep_port e) :: 16 word) \<noteq> 0"
    if "ep_port e \<noteq> ANY_PORT"
  proof -
    have "ucast (ucast (ep_port e) :: 16 word) = ep_port e" "ep_port e \<noteq> 0"
      using assms that by (auto simp: valid_endpoint_def intro: ucast_small)
    then show ?thesis by auto
  qed
  show ?thesis
    using a a0 p
    by (cases e) (auto simp: IpEndpointNameFromSockaddr_def SockaddrFromIpEndpointName_def
        htonl_htonl htons_htons htonl_eq_0 htons_eq_0)
qed

end
