(* ===== verification/UdpSocket.thy ===== *)
theory UdpSocket
  imports IpEndpoint
begin

text \<open>
  \<^verbatim>\<open>class UdpSocket\<close> with its \<^verbatim>\<open>Implementation\<close> (\<^verbatim>\<open>product/source/ip/UdpSocket.h\<close>,
  \<^verbatim>\<open>ip/posix/UdpSocket.cpp\<close>), the convenience classes over it, and the part of
  \<^verbatim>\<open>SocketReceiveMultiplexer\<close> that keeps the listeners and dispatches packets.  The operating
  system is outside of the model: what a system call answers is an argument of the operation that
  makes the call, and the state records what the calls made the kernel remember (\<open>peer\<close>,
  \<open>bound_to\<close>, \<open>broadcast\<close>).
\<close>

section \<open>The socket\<close>

record udp_socket =
  isBound :: bool
  isConnected :: bool
  connectedAddr :: sockaddr
  sendToAddr :: sockaddr
  peer :: "sockaddr option"
  bound_to :: "sockaddr option"
  broadcast :: bool

text \<open>
  An operation may throw after it has changed the socket, so it returns the new state together
  with its result.
\<close>

definition new_UdpSocket :: "bool \<Rightarrow> sockaddr \<Rightarrow> osc_error + udp_socket" where
  "new_UdpSocket socket_ok garbage =
     (if \<not> socket_ok then Inl (RuntimeError ''unable to create udp socket'')
      else Inr \<lparr>isBound = False, isConnected = False, connectedAddr = garbage,
                sendToAddr = \<lparr>sin_addr = 0, sin_port = 0\<rparr>, peer = None, bound_to = None,
                broadcast = False\<rparr>)"

text \<open>
  The answers of the system to the calls of \<^verbatim>\<open>LocalEndpointFor\<close>: \<^verbatim>\<open>connect\<close>,
  \<^verbatim>\<open>getsockname\<close>, and the \<^verbatim>\<open>connect\<close> that restores the socket (failing with
  \<^verbatim>\<open>EAFNOSUPPORT\<close> counts as success when it unconnects).
\<close>

definition LocalEndpointFor ::
    "ip_endpoint \<Rightarrow> bool \<Rightarrow> sockaddr option \<Rightarrow> bool \<Rightarrow> udp_socket \<Rightarrow> (osc_error + ip_endpoint) \<times> udp_socket" where
  "LocalEndpointFor remote connect_ok sockname restore_ok s =
     (if \<not> isBound s then (Inl AssertFailed, s)
      else if \<not> connect_ok then (Inl (RuntimeError ''unable to connect udp socket''), s)
      else
        let s = s\<lparr>peer := Some (SockaddrFromIpEndpointName remote)\<rparr> in
        case sockname of
          None \<Rightarrow> (Inl (RuntimeError ''unable to getsockname''), s)
        | Some local \<Rightarrow>
            if isConnected s
            then if \<not> restore_ok then (Inl (RuntimeError ''unable to connect udp socket''), s)
                 else (Inr (IpEndpointNameFromSockaddr local), s\<lparr>peer := Some (connectedAddr s)\<rparr>)
            else if \<not> restore_ok then (Inl (RuntimeError ''unable to un-connect udp socket''), s)
                 else (Inr (IpEndpointNameFromSockaddr local), s\<lparr>peer := None\<rparr>))"

definition Connect :: "ip_endpoint \<Rightarrow> bool \<Rightarrow> bool \<Rightarrow> udp_socket \<Rightarrow> (osc_error + unit) \<times> udp_socket" where
  "Connect remote multicast connect_ok s =
     (let s = s\<lparr>connectedAddr := SockaddrFromIpEndpointName remote\<rparr> in
      if \<not> connect_ok then (Inl (RuntimeError ''unable to connect udp socket''), s)
      else (Inr (), s\<lparr>peer := Some (connectedAddr s),
                      broadcast := (multicast \<or> broadcast s), isConnected := True\<rparr>))"

text \<open>\<^verbatim>\<open>send( socket_, data, size, 0 )\<close>: the datagram handed to the system.\<close>

definition Send :: "bytes \<Rightarrow> udp_socket \<Rightarrow> osc_error + (sockaddr option \<times> bytes)" where
  "Send data s = (if \<not> isConnected s then Inl AssertFailed else Inr (peer s, data))"

definition SendTo :: "ip_endpoint \<Rightarrow> bytes \<Rightarrow> udp_socket \<Rightarrow> (sockaddr \<times> bytes) \<times> udp_socket" where
  "SendTo remote data s =
     (let s = s\<lparr>sendToAddr := \<lparr>sin_addr = htonl (ucast (ep_address remote)),
                              sin_port = htons (ucast (ep_port remote))\<rparr>\<rparr>
      in ((sendToAddr s, data), s))"

definition Bind :: "ip_endpoint \<Rightarrow> bool \<Rightarrow> udp_socket \<Rightarrow> (osc_error + unit) \<times> udp_socket" where
  "Bind endpoint bind_ok s =
     (if \<not> bind_ok then (Inl (RuntimeError ''unable to bind udp socket''), s)
      else (Inr (), s\<lparr>bound_to := Some (SockaddrFromIpEndpointName endpoint), isBound := True\<rparr>))"

text \<open>
  \<^verbatim>\<open>recvfrom\<close> delivers at most \<open>n\<close> bytes of the datagram and drops the rest; \<open>None\<close> is a negative
  result.
\<close>

definition ReceiveFrom ::
    "nat \<Rightarrow> (sockaddr \<times> bytes) option \<Rightarrow> udp_socket \<Rightarrow> osc_error + (ip_endpoint option \<times> bytes)" where
  "ReceiveFrom n datagram s =
     (if \<not> isBound s then Inl AssertFailed
      else case datagram of
        None \<Rightarrow> Inr (None, [])
      | Some (from, data) \<Rightarrow>
          Inr (Some \<lparr>ep_address = ucast (htonl (sin_addr from)), ep_port = ucast (htons (sin_port from))\<rparr>,
               take n data))"

text \<open>\<^verbatim>\<open>UdpTransmitSocket\<close>, \<^verbatim>\<open>UdpReceiveSocket\<close>: their constructors connect or bind.\<close>

definition UdpTransmitSocket ::
    "ip_endpoint \<Rightarrow> bool \<Rightarrow> bool \<Rightarrow> bool \<Rightarrow> sockaddr \<Rightarrow> osc_error + udp_socket" where
  "UdpTransmitSocket remote multicast socket_ok connect_ok garbage =
     ebind (new_UdpSocket socket_ok garbage) (\<lambda>s.
       let (r, s) = Connect remote multicast connect_ok s in ebind r (\<lambda>_. Inr s))"

definition UdpReceiveSocket :: "ip_endpoint \<Rightarrow> bool \<Rightarrow> bool \<Rightarrow> sockaddr \<Rightarrow> osc_error + udp_socket" where
  "UdpReceiveSocket endpoint socket_ok bind_ok garbage =
     ebind (new_UdpSocket socket_ok garbage) (\<lambda>s.
       let (r, s) = Bind endpoint bind_ok s in ebind r (\<lambda>_. Inr s))"

section \<open>The connected address\<close>

text \<open>A connected socket sends to the address it was connected to.\<close>

definition socket_inv :: "udp_socket \<Rightarrow> bool" where
  "socket_inv s \<longleftrightarrow> (isConnected s \<longrightarrow> peer s = Some (connectedAddr s))"

lemma socket_inv_new: "new_UdpSocket ok garbage = Inr s \<Longrightarrow> socket_inv s"
  by (auto simp: new_UdpSocket_def socket_inv_def split: if_splits)

lemma socket_inv_Connect:
  "Connect remote multicast True s = (r, s') \<Longrightarrow> socket_inv s' \<and> isConnected s'"
  by (auto simp: Connect_def Let_def socket_inv_def)

lemma socket_inv_LocalEndpointFor:
  "socket_inv s \<Longrightarrow> LocalEndpointFor remote c n ok s = (Inr local, s') \<Longrightarrow> socket_inv s'"
  by (auto simp: LocalEndpointFor_def Let_def socket_inv_def split: if_splits option.splits)

lemma UdpTransmitSocket_ok:
  "UdpTransmitSocket remote multicast socket_ok connect_ok garbage = Inr s \<Longrightarrow>
   socket_inv s \<and> isConnected s \<and> connectedAddr s = SockaddrFromIpEndpointName remote"
  by (auto simp: UdpTransmitSocket_def new_UdpSocket_def Connect_def socket_inv_def Let_def
      split: if_splits)

text \<open>
  A transmit socket sends to the endpoint it was built for, and asking for a local endpoint in between,
  which reconnects the socket, does not change that.
\<close>

lemma transmit_socket_sends:
  assumes "UdpTransmitSocket remote multicast socket_ok connect_ok garbage = Inr s"
    and "LocalEndpointFor other c name restore_ok (snd (Bind endpoint bind_ok s)) = (Inr local, s')"
  shows "Send data s = Inr (Some (SockaddrFromIpEndpointName remote), data) \<and>
    Send data s' = Inr (Some (SockaddrFromIpEndpointName remote), data)"
proof -
  have s: "peer s = Some (connectedAddr s)" "isConnected s" "connectedAddr s = SockaddrFromIpEndpointName remote"
    using UdpTransmitSocket_ok [OF assms(1)] by (auto simp: socket_inv_def)
  have "isConnected s'" "peer s' = Some (connectedAddr s)"
    using assms(2) s by (auto simp: LocalEndpointFor_def Let_def Bind_def split: if_splits option.splits)
  with s show ?thesis by (simp add: Send_def)
qed

end
