(* ===== verification/OscSender.thy ===== *)
theory OscSender
  imports OscOutbound OscMessage UdpSocket
begin

text \<open>
  \<^verbatim>\<open>class OscSender\<close> and its front \<^verbatim>\<open>class Sender\<close> (\<^verbatim>\<open>product/source/OscSender.{h,cpp}\<close>): a message
  or a bundle is written into a buffer on the stack through an \<^verbatim>\<open>OutboundPacketStream\<close> and the
  finished packet is sent through the connected socket.  \<^verbatim>\<open>Sender\<close> forwards its calls to the
  \<^verbatim>\<open>OscSender\<close> it shares with its copies (\<open>Handles\<close>).  The bytes a fresh stack buffer
  holds are the parameter \<open>buffer\<close>.
\<close>

section \<open>Writing messages and bundles\<close>

text \<open>
  The body of the loop over the arguments: \<^verbatim>\<open>std::string::c_str()\<close> passes the characters before
  the first NUL.
\<close>

function append_args :: "osc_message \<Rightarrow> int \<Rightarrow> ostream \<Rightarrow> osc_error + ostream" where
  "append_args m i p =
     (if i < getNumArgs m then
        ebind (getArgType m i) (\<lambda>t.
          if t = TYPE_INT32
          then ebind (getArgAsInt32 m i False) (\<lambda>x. ebind (put_int32 x p) (append_args m (i + 1)))
          else if t = TYPE_FLOAT
          then ebind (getArgAsFloat m i False) (\<lambda>x. ebind (put_float x p) (append_args m (i + 1)))
          else if t = TYPE_STRING
          then ebind (getArgAsString m i False) (\<lambda>s.
                 ebind (put_string (c_str s) p) (append_args m (i + 1)))
          else Inl OscExcInvalidArgumentType)
      else Inr p)"
  by pat_completeness auto
termination by (relation "measure (\<lambda>(m, i, p). nat (getNumArgs m - i))") auto

declare append_args.simps [simp del]

definition appendMessage :: "osc_message \<Rightarrow> ostream \<Rightarrow> osc_error + ostream" where
  "appendMessage m p =
     ebind (begin_message (c_str (address m)) p) (\<lambda>p.
     ebind (append_args m 0 p) (\<lambda>p. end_message p))"

fun appendMessages :: "osc_message list \<Rightarrow> ostream \<Rightarrow> osc_error + ostream" where
  "appendMessages [] p = Inr p"
| "appendMessages (m # ms) p = ebind (appendMessage m p) (appendMessages ms)"

text \<open>Nested bundles come first, then the messages.\<close>

fun appendBundle :: "osc_bundle \<Rightarrow> ostream \<Rightarrow> osc_error + ostream"
  and appendBundles :: "osc_bundle list \<Rightarrow> ostream \<Rightarrow> osc_error + ostream" where
  "appendBundle (OscBundle ms bs) p =
     ebind (begin_bundle BeginBundleImmediate p) (\<lambda>p.
     ebind (appendBundles bs p) (\<lambda>p.
     ebind (appendMessages ms p) (\<lambda>p. end_bundle p)))"
| "appendBundles [] p = Inr p"
| "appendBundles (b # bs) p = ebind (appendBundle b p) (\<lambda>p. appendBundles bs p)"

section \<open>The sender\<close>

record osc_sender =
  socket :: "udp_socket option"

definition new_OscSender :: osc_sender where
  "new_OscSender = \<lparr>socket = None\<rparr>"

definition Sender_shutdown :: "osc_sender \<Rightarrow> osc_sender" where
  "Sender_shutdown s = s\<lparr>socket := None\<rparr>"

definition delete_OscSender :: "osc_sender \<Rightarrow> osc_sender" where
  "delete_OscSender s = (if socket s \<noteq> None then Sender_shutdown s else s)"

text \<open>
  The answers of the system: the name lookup, whether \<^verbatim>\<open>socket\<close> and \<^verbatim>\<open>connect\<close> succeed, the bytes
  of the uninitialised address.
\<close>

definition Sender_setup ::
    "(bytes \<Rightarrow> 32 word option) \<Rightarrow> bool \<Rightarrow> bool \<Rightarrow> sockaddr \<Rightarrow> bytes \<Rightarrow> int32 \<Rightarrow> bool \<Rightarrow> osc_sender \<Rightarrow>
     (osc_error + unit) \<times> osc_sender" where
  "Sender_setup resolve socket_ok connect_ok garbage hostname port multicast s =
     (let s = (if socket s \<noteq> None then Sender_shutdown s else s) in
      case UdpTransmitSocket (endpoint_name resolve (c_str hostname) port) multicast
             socket_ok connect_ok garbage of
        Inl err \<Rightarrow> (Inl err, s)
      | Inr u \<Rightarrow> (Inr (), s\<lparr>socket := Some u\<rparr>))"

definition MESSAGE_BUFFER_SIZE :: nat where "MESSAGE_BUFFER_SIZE = 16384"
definition BUNDLE_BUFFER_SIZE :: nat where "BUNDLE_BUFFER_SIZE = 32768"

text \<open>\<^verbatim>\<open>socket->Send(p.Data(), p.Size())\<close>; the socket is not checked for null.\<close>

definition send_packet :: "osc_sender \<Rightarrow> ostream \<Rightarrow> osc_error + (sockaddr option \<times> bytes)" where
  "send_packet s p = (case socket s of None \<Rightarrow> Inl Fault | Some u \<Rightarrow> Send (packet p) u)"

definition sendMessage :: "bytes \<Rightarrow> osc_message \<Rightarrow> osc_sender \<Rightarrow> osc_error + (sockaddr option \<times> bytes)" where
  "sendMessage buffer m s =
     ebind (begin_bundle BeginBundleImmediate (OutboundPacketStream buffer)) (\<lambda>p.
     ebind (appendMessage m p) (\<lambda>p.
     ebind (end_bundle p) (\<lambda>p. send_packet s p)))"

definition sendBundle :: "bytes \<Rightarrow> osc_bundle \<Rightarrow> osc_sender \<Rightarrow> osc_error + (sockaddr option \<times> bytes)" where
  "sendBundle buffer b s =
     ebind (appendBundle b (OutboundPacketStream buffer)) (\<lambda>p. send_packet s p)"

end
