(* ===== verification/OscSenderSpec.thy ===== *)
theory OscSenderSpec
  imports OscSender OscWalkSpec
begin

text \<open>
  What the sender guarantees: the packet it sends is the encoding of a tree whose nodes are the
  bundle and the messages given to it, or it throws \<open>OutOfBufferMemoryException\<close>, exactly when that
  encoding is longer than the buffer.
\<close>

section \<open>Trees as sequences of stream operations\<close>

fun tree_ops :: "packet_tree \<Rightarrow> stream_op list" where
  "tree_ops (TMessage addr vs) = BeginMessageOp addr # map PutOp vs @ [EndMessageOp]"
| "tree_ops (TBundle t ks) = BeginBundleOp t # concat (map tree_ops ks) @ [EndBundleOp]"

fun sendable_tree :: "packet_tree \<Rightarrow> bool" where
  "sendable_tree (TMessage addr vs) \<longleftrightarrow> length addr < 2 ^ 62 \<and> list_all sendable vs"
| "sendable_tree (TBundle t ks) \<longleftrightarrow> list_all sendable_tree ks"

definition spec_append :: "bytes \<Rightarrow> packet_spec \<Rightarrow> packet_spec" where
  "spec_append e a =
     (case open_elems a of
        [] \<Rightarrow> a\<lparr>closed := closed a @ e\<rparr>
      | f # fs \<Rightarrow> a\<lparr>open_elems := (f @ enc_element e) # fs\<rparr>)"

lemma spec_size_idle: "cur_args a = None \<Longrightarrow> spec_size a = length (layout (closed a) (open_elems a))"
  by (simp add: spec_size_def)

lemma length_layout_push:
  "length (layout c (f # fs)) = length (layout c fs) + (if fs = [] then 0 else 4) + length f"
  by (simp add: layout_push)

lemma spec_append_size:
  "cur_args a = None \<Longrightarrow> spec_size (spec_append e a) = spec_size a + spec_slot a + length e"
  by (cases "open_elems a") (auto simp: spec_append_def spec_size_def spec_slot_def layout_append)

lemma spec_append_idle [simp]: "cur_args (spec_append e a) = cur_args a"
  by (auto simp: spec_append_def split: list.splits)

lemma spec_append_slot [simp]: "spec_slot (spec_append e a) = spec_slot a"
  by (auto simp: spec_append_def spec_slot_def split: list.splits)

lemma legal_run_append:
  "legal_run cap (xs @ ys) a \<longleftrightarrow>
   legal_run cap xs a \<and> (\<forall>a'. exec_ops (spec_step cap) xs a = Inr a' \<longrightarrow> legal_run cap ys a')"
proof (induction xs arbitrary: a)
  case (Cons x xs)
  then show ?case by (cases "spec_step cap x a") auto
qed simp

section \<open>A message\<close>

lemma enc_args_mono: "length (enc_args us) \<le> length (enc_args (us @ vs))"
  using roundup4_mono [of "length us + 2" "length (us @ vs) + 2"] by (simp add: length_enc_args)

lemma exec_puts:
  "cur_args a = Some us \<Longrightarrow> spec_size a \<le> cap \<Longrightarrow>
   exec_ops (spec_step cap) (map PutOp vs) a =
     (if spec_size (a\<lparr>cur_args := Some (us @ vs)\<rparr>) \<le> cap
      then Inr (a\<lparr>cur_args := Some (us @ vs)\<rparr>) else Inl OutOfBufferMemoryException)"
proof (induction vs arbitrary: a us)
  case Nil
  then show ?case by (simp add: spec_size_def)
next
  case (Cons v vs)
  let ?a = "a\<lparr>cur_args := Some (us @ [v])\<rparr>"
  have put: "spec_put v a = ?a" using Cons.prems by (simp add: spec_put_def)
  have mono: "spec_size ?a \<le> spec_size (a\<lparr>cur_args := Some (us @ v # vs)\<rparr>)"
    using enc_args_mono [of "us @ [v]" vs] by (simp add: spec_size_def)
  show ?case
  proof (cases "spec_size ?a \<le> cap")
    case True
    then show ?thesis using Cons.IH [of ?a "us @ [v]"] by (simp add: put)
  next
    case False
    then show ?thesis using mono by (simp add: put)
  qed
qed

lemma legal_puts:
  "cur_args a \<noteq> None \<Longrightarrow> list_all sendable vs \<Longrightarrow> legal_run cap (map PutOp vs) a"
proof (induction vs arbitrary: a)
  case (Cons v vs)
  then show ?case by (auto simp: spec_put_def)
qed simp

lemma exec_message:
  assumes idle: "cur_args a = None"
  shows "exec_ops (spec_step cap) (tree_ops (TMessage addr vs)) a =
    (if spec_size a + spec_slot a + length (enc_message addr vs) \<le> cap
     then Inr (spec_append (enc_message addr vs) a) else Inl OutOfBufferMemoryException)"
proof -
  let ?n = "roundup4 (length addr + 1)"
  have size: "spec_size (spec_begin_message addr a\<lparr>cur_args := Some us\<rparr>) =
      spec_size a + spec_slot a + ?n + length (enc_args us)" for us
    using idle by (simp add: spec_size_def spec_begin_message_def length_layout_push spec_slot_def)
  have nil: "length (enc_args []) = 4" by (simp add: length_enc_args)
  have mono: "4 \<le> length (enc_args vs)" by (rule length_enc_args_ge)
  have close: "spec_end_message (spec_begin_message addr a\<lparr>cur_args := Some vs\<rparr>) =
      spec_append (enc_message addr vs) a"
    using idle by (cases "open_elems a")
      (auto simp: spec_end_message_def spec_begin_message_def spec_close_def spec_append_def enc_message_def)
  show ?thesis
  proof (cases "cap < spec_size a + spec_slot a + ?n + 4")
    case True
    then show ?thesis using idle mono by (simp add: length_enc_message)
  next
    case False
    let ?b = "spec_begin_message addr a"
    have b: "cur_args ?b = Some []" "spec_size ?b \<le> cap"
      using size [of "[]"] nil False by (simp_all add: spec_begin_message_def)
    show ?thesis
      using False idle exec_puts [OF b, of vs] size [of vs] close
      by (auto simp: exec_ops_append length_enc_message)
  qed
qed

lemma legal_message:
  assumes "sendable_tree (TMessage addr vs)"
  shows "legal_run cap (tree_ops (TMessage addr vs)) a"
  using assms legal_puts [of "spec_begin_message addr a" vs cap]
  by (auto simp: legal_run_append spec_begin_message_def split: if_splits)

section \<open>A bundle\<close>

definition push_elements :: "bytes list \<Rightarrow> packet_spec \<Rightarrow> packet_spec" where
  "push_elements es a = fold spec_append es a"

lemma push_elements_simps [simp]:
  "push_elements [] a = a"
  "push_elements (e # es) a = push_elements es (spec_append e a)"
  by (simp_all add: push_elements_def)

lemma push_elements_open:
  "open_elems a = f # fs \<Longrightarrow>
   push_elements es a = a\<lparr>open_elems := (f @ concat (map enc_element es)) # fs\<rparr>"
proof (induction es arbitrary: a f)
  case (Cons e es)
  then have "spec_append e a = a\<lparr>open_elems := (f @ enc_element e) # fs\<rparr>" by (simp add: spec_append_def)
  with Cons.IH [of "spec_append e a" "f @ enc_element e"] show ?case by simp
qed simp

lemma push_elements_size:
  "cur_args a = None \<Longrightarrow> open_elems a \<noteq> [] \<Longrightarrow>
   spec_size (push_elements es a) = spec_size a + length (concat (map enc_element es))"
  by (cases "open_elems a")
    (auto simp: push_elements_open spec_size_def layout_append simp del: length_concat)

lemma exec_trees:
  assumes one: "\<And>k a. k \<in> set ks \<Longrightarrow> cur_args a = None \<Longrightarrow>
      exec_ops (spec_step cap) (tree_ops k) a =
        (if spec_size a + spec_slot a + length (enc_tree k) \<le> cap
         then Inr (spec_append (enc_tree k) a) else Inl OutOfBufferMemoryException)"
    and "cur_args a = None" and "open_elems a \<noteq> []" and "spec_size a \<le> cap"
  shows "exec_ops (spec_step cap) (concat (map tree_ops ks)) a =
    (if spec_size (push_elements (map enc_tree ks) a) \<le> cap
     then Inr (push_elements (map enc_tree ks) a) else Inl OutOfBufferMemoryException)"
  using assms
proof (induction ks arbitrary: a)
  case (Cons k ks)
  let ?a = "spec_append (enc_tree k) a"
  have slot: "spec_slot a = 4" using Cons.prems by (simp add: spec_slot_def)
  have open': "open_elems ?a \<noteq> []" using Cons.prems by (auto simp: spec_append_def split: list.splits)
  have size: "spec_size ?a = spec_size a + spec_slot a + length (enc_tree k)"
    using Cons.prems by (intro spec_append_size) auto
  have k: "exec_ops (spec_step cap) (tree_ops k) a =
      (if spec_size ?a \<le> cap then Inr ?a else Inl OutOfBufferMemoryException)"
    using Cons.prems size by simp
  show ?case
  proof (cases "spec_size ?a \<le> cap")
    case True
    then show ?thesis using Cons open' by (simp add: exec_ops_append k)
  next
    case False
    moreover have "spec_size ?a \<le> spec_size (push_elements (map enc_tree ks) ?a)"
      using push_elements_size [of ?a "map enc_tree ks"] open' Cons.prems by simp
    ultimately show ?thesis by (simp add: exec_ops_append k)
  qed
qed simp

lemma exec_tree:
  "cur_args a = None \<Longrightarrow>
   exec_ops (spec_step cap) (tree_ops k) a =
     (if spec_size a + spec_slot a + length (enc_tree k) \<le> cap
      then Inr (spec_append (enc_tree k) a) else Inl OutOfBufferMemoryException)"
proof (induction k arbitrary: a)
  case (TMessage addr vs)
  then show ?case using exec_message [of a cap addr vs] by simp
next
  case (TBundle t ks)
  let ?es = "map enc_tree ks" and ?b = "spec_begin_bundle t a"
  have b: "cur_args ?b = None" "open_elems ?b = bundle_header t # open_elems a"
    using TBundle.prems by (simp_all add: spec_begin_bundle_def)
  have size: "spec_size ?b = spec_size a + spec_slot a + 16"
    using TBundle.prems b
    by (simp add: spec_size_def spec_begin_bundle_def length_layout_push spec_slot_def)
  have full: "spec_size (push_elements ?es ?b) = spec_size a + spec_slot a + length (enc_bundle t ?es)"
    using push_elements_size [of ?b ?es] b size by (simp add: length_enc_bundle)
  have close: "spec_close (push_elements ?es ?b) = spec_append (enc_bundle t ?es) a"
    unfolding push_elements_open [OF b(2)] using TBundle.prems
    by (cases "open_elems a")
      (auto simp: spec_close_def spec_append_def spec_begin_bundle_def enc_bundle_def)
  have pushed: "cur_args (push_elements ?es ?b) = None" "open_elems (push_elements ?es ?b) \<noteq> []"
    unfolding push_elements_open [OF b(2)] using b by simp_all
  show ?case
  proof (cases "spec_size ?b \<le> cap")
    case False
    then show ?thesis using TBundle.prems size by (simp add: length_enc_bundle)
  next
    case True
    have "exec_ops (spec_step cap) (concat (map tree_ops ks)) ?b =
      (if spec_size (push_elements ?es ?b) \<le> cap
       then Inr (push_elements ?es ?b) else Inl OutOfBufferMemoryException)"
      using TBundle.IH b True by (intro exec_trees) auto
    then show ?thesis
      using True size full close pushed TBundle.prems by (simp add: exec_ops_append)
  qed
qed

lemma spec_step_idle:
  "cur_args a = None \<Longrightarrow> spec_step cap (BeginBundleOp t) a = Inr a' \<Longrightarrow> cur_args a' = None"
  by (auto simp: spec_begin_bundle_def split: if_splits)

lemma legal_trees:
  assumes "\<And>k a. k \<in> set ks \<Longrightarrow> cur_args a = None \<Longrightarrow> legal_run cap (tree_ops k) a"
    and "cur_args a = None"
  shows "legal_run cap (concat (map tree_ops ks)) a"
  using assms
proof (induction ks arbitrary: a)
  case (Cons k ks)
  then show ?case by (auto simp: legal_run_append exec_tree split: if_splits)
qed simp

lemma legal_tree: "sendable_tree k \<Longrightarrow> cur_args a = None \<Longrightarrow> legal_run cap (tree_ops k) a"
proof (induction k arbitrary: a)
  case (TMessage addr vs)
  then show ?case by (intro legal_message)
next
  case (TBundle t ks)
  have "legal_run cap (concat (map tree_ops ks)) (spec_begin_bundle t a)"
    using TBundle by (intro legal_trees) (auto simp: list_all_iff spec_begin_bundle_def)
  then show ?case by (auto simp: legal_run_append split: if_splits)
qed

section \<open>What the sender writes\<close>

fun arg_value :: "osc_arg \<Rightarrow> osc_value" where
  "arg_value (ArgInt32 x) = OInt32 x"
| "arg_value (ArgFloat x) = OFloat x"
| "arg_value (ArgString s) = OString (c_str s)"

definition message_tree :: "osc_message \<Rightarrow> packet_tree" where
  "message_tree m = TMessage (c_str (address m)) (map arg_value (args m))"

fun bundle_tree :: "osc_bundle \<Rightarrow> packet_tree" where
  "bundle_tree (OscBundle ms bs) =
     TBundle BeginBundleImmediate (map bundle_tree bs @ map message_tree ms)"

lemma append_args_ops:
  "i \<le> length (args m) \<Longrightarrow>
   append_args m (int i) p = exec_ops apply_op (map PutOp (map arg_value (drop i (args m)))) p"
proof (induction "length (args m) - i" arbitrary: i p)
  case 0
  then show ?case by (subst append_args.simps) (simp add: getNumArgs_def)
next
  case (Suc n)
  then have i: "i < length (args m)" by simp
  note at = arg_at_ok [OF i] getArgType_ok [OF i]
  have d: "drop i (args m) = args m ! i # drop (i + 1) (args m)" using i by (simp add: Cons_nth_drop_Suc)
  have ih: "append_args m (int i + 1) p' =
      exec_ops apply_op (map PutOp (map arg_value (drop (i + 1) (args m)))) p'" for p'
    using Suc.hyps(1) [of "i + 1" p'] Suc.hyps(2) i by (simp add: add.commute)
  show ?case
    unfolding d using i at ih
    by (cases "args m ! i"; subst append_args.simps)
      (simp_all add: getNumArgs_def getArgAsInt32_def getArgAsFloat_def getArgAsString_def cong: ebind_cong)
qed

lemma ebind_exec: "ebind m (\<lambda>s. ebind (f s) g) = ebind (ebind m f) g"
  by (simp add: ebind_assoc)

lemma appendMessage_ops: "appendMessage m p = exec_ops apply_op (tree_ops (message_tree m)) p"
proof -
  have 0: "append_args m 0 = exec_ops apply_op (map PutOp (map arg_value (args m)))"
    by (rule ext) (use append_args_ops [of 0 m] in simp)
  have 1: "exec_ops apply_op (us @ [EndMessageOp]) p = ebind (exec_ops apply_op us p) end_message" for us p
    by (simp only: exec_ops_append exec_ops_single [abs_def] apply_op.simps [abs_def])
  show ?thesis
    unfolding appendMessage_def message_tree_def tree_ops.simps exec_ops.simps apply_op.simps 0
    by (simp only: 1 [abs_def])
qed

lemma appendMessages_ops:
  "appendMessages ms p = exec_ops apply_op (concat (map tree_ops (map message_tree ms))) p"
proof (induction ms arbitrary: p)
  case (Cons m ms)
  then have "appendMessages ms = exec_ops apply_op (concat (map tree_ops (map message_tree ms)))"
    by (rule ext)
  then show ?case by (simp add: appendMessage_ops exec_ops_append)
qed simp

lemma end_bundle_ops: "exec_ops apply_op (us @ [EndBundleOp]) p = ebind (exec_ops apply_op us p) end_bundle"
  by (simp only: exec_ops_append exec_ops_single [abs_def] apply_op.simps [abs_def])

lemma appendBundle_ops:
  "appendBundle b p = exec_ops apply_op (tree_ops (bundle_tree b)) p"
  "appendBundles bs p = exec_ops apply_op (concat (map tree_ops (map bundle_tree bs))) p"
proof (induction b p and bs p rule: appendBundle_appendBundles.induct)
  case (1 ms bs p)
  have m: "appendMessages ms = exec_ops apply_op (concat (map tree_ops (map message_tree ms)))"
    by (rule ext) (rule appendMessages_ops)
  have b: "ebind (begin_bundle BeginBundleImmediate p) (\<lambda>p. ebind (appendBundles bs p) f) =
    ebind (begin_bundle BeginBundleImmediate p)
      (\<lambda>p. ebind (exec_ops apply_op (concat (map tree_ops (map bundle_tree bs))) p) f)" for f
    using "1.IH" by (cases "begin_bundle BeginBundleImmediate p") auto
  have app: "exec_ops apply_op (us @ vs) = (\<lambda>s. ebind (exec_ops apply_op us s) (exec_ops apply_op vs))" for us vs
    by (rule ext) (rule exec_ops_append)
  have e: "exec_ops apply_op [EndBundleOp] = end_bundle"
    by (rule ext) (simp only: exec_ops_single apply_op.simps)
  show ?case
    by (simp add: b m app e del: map_map exec_ops.simps(2) cong: if_cong)
      (simp only: exec_ops.simps apply_op.simps app e)
next
  case (3 b bs p)
  have "exec_ops apply_op (concat (map tree_ops (map bundle_tree (b # bs)))) p =
      ebind (exec_ops apply_op (tree_ops (bundle_tree b)) p)
        (exec_ops apply_op (concat (map tree_ops (map bundle_tree bs))))"
    by (simp add: exec_ops_append)
  also have "\<dots> = ebind (appendBundle b p) (appendBundles bs)"
    unfolding "3.IH"(1) [symmetric] by (rule ebind_cong) (use "3.IH"(2) in auto)
  finally show ?case by simp
qed simp

section \<open>What the sender sends\<close>

lemma sendable_arg_value: "length s < 2 ^ 61 \<Longrightarrow> sendable (OString (c_str s))"
  using length_c_str [of s] roundup4_less [of "length (c_str s) + 1"] by (simp add: sendable_def)

lemma write_tree_size:
  assumes "length buffer < 2 ^ 31" and "sendable_tree k"
  shows "if length (enc_tree k) \<le> length buffer
    then \<exists>p. exec_ops apply_op (tree_ops k) (OutboundPacketStream buffer) = Inr p \<and>
             packet p = enc_tree k \<and> unat (Size p) = length (enc_tree k)
    else exec_ops apply_op (tree_ops k) (OutboundPacketStream buffer) = Inl OutOfBufferMemoryException"
proof -
  let ?cap = "length buffer"
  have idle: "cur_args empty_spec = None" "spec_size empty_spec = 0" "spec_slot empty_spec = 0"
    by (simp_all add: empty_spec_def spec_size_def spec_slot_def)
  have exec: "exec_ops (spec_step ?cap) (tree_ops k) empty_spec =
      (if length (enc_tree k) \<le> ?cap then Inr (spec_append (enc_tree k) empty_spec)
       else Inl OutOfBufferMemoryException)"
    using exec_tree [OF idle(1), of ?cap k] idle by simp
  have legal: "legal_run ?cap (tree_ops k) empty_spec" using assms(2) idle by (intro legal_tree)
  have a: "open_elems (spec_append (enc_tree k) empty_spec) = []"
    "closed (spec_append (enc_tree k) empty_spec) = enc_tree k"
    by (simp_all add: spec_append_def empty_spec_def)
  show ?thesis
  proof (cases "length (enc_tree k) \<le> ?cap")
    case True
    then show ?thesis using exec_packet [OF assms(1) legal _ a(1)] exec a by auto
  next
    case False
    then show ?thesis
      using osc_stream.exec_error [OF sim_rel_new [OF refl assms(1)] legal] exec by simp
  qed
qed

definition send_tree :: "bytes \<Rightarrow> packet_tree \<Rightarrow> udp_socket \<Rightarrow> osc_error + (sockaddr option \<times> bytes)" where
  "send_tree buffer k u =
     (if length (enc_tree k) \<le> length buffer then Send (enc_tree k) u else Inl OutOfBufferMemoryException)"

lemma sendBundle_eq:
  assumes "length buffer < 2 ^ 31" and "sendable_tree (bundle_tree b)" and "socket s = Some u"
  shows "sendBundle buffer b s = send_tree buffer (bundle_tree b) u"
  using write_tree_size [OF assms(1,2)] assms(3)
  by (auto simp: sendBundle_def send_tree_def appendBundle_ops send_packet_def split: if_splits)

lemma sendMessage_eq:
  assumes "length buffer < 2 ^ 31" and "sendable_tree (message_tree m)" and "socket s = Some u"
  shows "sendMessage buffer m s = send_tree buffer (TBundle BeginBundleImmediate [message_tree m]) u"
proof -
  have "sendMessage buffer m s =
    ebind (exec_ops apply_op (tree_ops (TBundle BeginBundleImmediate [message_tree m]))
      (OutboundPacketStream buffer)) (send_packet s)"
    by (simp add: sendMessage_def appendMessage_ops [abs_def] end_bundle_ops ebind_assoc)
  then show ?thesis
    using write_tree_size [OF assms(1), of "TBundle BeginBundleImmediate [message_tree m]"] assms(2,3)
    by (auto simp: send_tree_def send_packet_def split: if_splits)
qed

end
