(* ===== verification/OscListener.thy ===== *)
theory OscListener
  imports OscSenderSpec
begin

text \<open>
  \<^verbatim>\<open>class OscListener\<close> and its front \<^verbatim>\<open>class Listener\<close> (\<^verbatim>\<open>product/source/OscListener.{h,cpp}\<close>): it
  turns received messages into \<^verbatim>\<open>Message\<close> objects and either queues them or hands them to a
  callback.  Each of \<^verbatim>\<open>ProcessMessage\<close> (its part after the lock), \<^verbatim>\<open>hasWaitingMessages\<close> and
  \<^verbatim>\<open>getNextMessage\<close> holds the mutex while it runs, so each is one step on the shared state.  The
  callback acts on the client's world, the type parameter \<open>'w\<close>.
\<close>

section \<open>State\<close>

record 'w osc_listener =
  mMessages :: "osc_message list"
  mListen_socket :: "udp_socket option"
  mCallbackFn :: "(osc_message \<Rightarrow> 'w \<Rightarrow> 'w) option"
  world :: 'w

definition new_OscListener :: "'w \<Rightarrow> 'w osc_listener" where
  "new_OscListener w = \<lparr>mMessages = [], mListen_socket = None, mCallbackFn = None, world = w\<rparr>"

text \<open>\<open>None\<close> is the empty \<^verbatim>\<open>std::function\<close>.\<close>

definition setMessageReceivedCb ::
    "(osc_message \<Rightarrow> 'w \<Rightarrow> 'w) option \<Rightarrow> 'w osc_listener \<Rightarrow> 'w osc_listener" where
  "setMessageReceivedCb f st = st\<lparr>mCallbackFn := f\<rparr>"

section \<open>Receiving a message\<close>

text \<open>The loop over the arguments; anything but an int, a float or a string fails the assertion.\<close>

lemma Advance_moves:
  assumes "has_tag t mem a = Inr True" and "t \<in> {INT32_TYPE_TAG, FLOAT_TYPE_TAG, STRING_TYPE_TAG}"
    and "Advance mem a = Inr a'"
  shows "\<exists>p. typeTag a = Some p \<and> typeTag a' = Some (p + 1) \<and> p < length mem"
  using assms
  by (auto simp: has_tag_def TypeTag_def deref_def Advance_def skip_bytes_def ebind_eq_Inr_iff
      load_byte_Inr split: option.splits)

function collect_args ::
    "bytes \<Rightarrow> received_argument \<Rightarrow> received_argument \<Rightarrow> osc_message \<Rightarrow> osc_error + osc_message" where
  "collect_args mem a e message =
     (if same_position a e then Inr message
      else
        ebind (IsInt32 mem a) (\<lambda>b. if b then
          ebind (AsInt32Unchecked mem a) (\<lambda>x. ebind (Advance mem a) (\<lambda>a'.
            collect_args mem a' e (addIntArg x message)))
        else ebind (IsFloat mem a) (\<lambda>b. if b then
          ebind (AsFloatUnchecked mem a) (\<lambda>x. ebind (Advance mem a) (\<lambda>a'.
            collect_args mem a' e (addFloatArg x message)))
        else ebind (IsString mem a) (\<lambda>b. if b then
          ebind (deref (argument a) (read_cstr mem)) (\<lambda>s. ebind (Advance mem a) (\<lambda>a'.
            collect_args mem a' e (addStringArg s message)))
        else Inl AssertFailed))))"
  by pat_completeness auto
termination
proof (relation "measure (\<lambda>(mem, a, e, message). case typeTag a of None \<Rightarrow> 0 | Some t \<Rightarrow> length mem - t)")
qed (auto simp: IsInt32_def IsFloat_def IsString_def dest!: Advance_moves)

declare collect_args.simps [simp del]

text \<open>The part of \<^verbatim>\<open>ProcessMessage\<close> that runs with the mutex held.\<close>

definition deliver_message :: "osc_message \<Rightarrow> 'w osc_listener \<Rightarrow> 'w osc_listener" where
  "deliver_message message st =
     (case mCallbackFn st of
        None \<Rightarrow> st\<lparr>mMessages := mMessages st @ [message]\<rparr>
      | Some f \<Rightarrow> st\<lparr>world := f message (world st)\<rparr>)"

definition ProcessMessage :: "bytes \<Rightarrow> ip_endpoint \<Rightarrow> int32 \<Rightarrow> 'w osc_listener handler" where
  "ProcessMessage mem remoteEndpoint garbage m st =
     (case
        ebind (read_cstr mem (addressPattern m)) (\<lambda>addr.
          let message = setAddress addr (new_Message garbage);
              message = setRemoteEndpoint (AddressAsString remoteEndpoint) (ep_port remoteEndpoint) message
          in collect_args mem (ArgumentsBegin m) (ArgumentsEnd m) message) of
        Inl err \<Rightarrow> (st, Some err)
      | Inr message \<Rightarrow> (deliver_message message st, None))"

section \<open>The client's side\<close>

definition hasWaitingMessages :: "'w osc_listener \<Rightarrow> bool" where
  "hasWaitingMessages st = (mMessages st \<noteq> [])"

text \<open>The message the client passes keeps its arguments: \<^verbatim>\<open>copy\<close> appends.\<close>

definition getNextMessage ::
    "osc_message \<Rightarrow> 'w osc_listener \<Rightarrow> osc_error + (bool \<times> osc_message \<times> 'w osc_listener)" where
  "getNextMessage message st =
     (case mMessages st of
        [] \<Rightarrow> Inr (False, message, st)
      | src # rest \<Rightarrow>
          ebind (Message_copy message src) (\<lambda>message.
            Inr (True, message, st\<lparr>mMessages := rest\<rparr>)))"

section \<open>Arguments a message can carry\<close>

fun value_arg :: "osc_value \<Rightarrow> osc_arg option" where
  "value_arg (OInt32 x) = Some (ArgInt32 x)"
| "value_arg (OFloat x) = Some (ArgFloat x)"
| "value_arg (OString s) = Some (ArgString s)"
| "value_arg v = None"

definition accepts_args :: "bytes \<Rightarrow> osc_value list \<Rightarrow> bool" where
  "accepts_args addr vs \<longleftrightarrow> list_all (\<lambda>v. value_arg v \<noteq> None) vs"

definition received :: "ip_endpoint \<Rightarrow> bytes \<Rightarrow> osc_value list \<Rightarrow> osc_message" where
  "received ep addr vs =
     \<lparr>address = addr, args = map (\<lambda>v. the (value_arg v)) vs,
      remote_host = AddressAsString ep, remote_port = ep_port ep\<rparr>"

lemma collect_args_at:
  "mem_at mem tag (map arg_tag vs @ [0]) \<Longrightarrow> mem_at mem arg (concat (map arg_bytes vs)) \<Longrightarrow>
   list_all wire_value vs \<Longrightarrow> accepts_args addr vs \<Longrightarrow> typeTag e = Some (tag + length vs) \<Longrightarrow>
   collect_args mem \<lparr>typeTag = Some tag, argument = Some arg\<rparr> e message =
     Inr (message\<lparr>args := args message @ map (\<lambda>v. the (value_arg v)) vs\<rparr>)"
proof (induction vs arbitrary: tag arg message)
  case Nil
  then show ?case by (subst collect_args.simps) (simp add: same_position_def)
next
  case (Cons v vs)
  let ?a = "\<lparr>typeTag = Some tag, argument = Some arg\<rparr>"
  have t: "load_byte mem tag = Inr (arg_tag v)" using load_byte_at [OF Cons.prems(1), of 0] by simp
  have at: "mem_at mem arg (arg_bytes v)" using Cons.prems by (simp add: mem_at_append)
  have v: "wire_value v" "value_arg v \<noteq> None" using Cons.prems by (auto simp: accepts_args_def)
  have c: "check_arg mem (arg + length (arg_bytes v)) (arg_tag v) arg = Inr (arg + length (arg_bytes v))"
    using at v by (intro check_arg_at) auto
  note adv = check_arg_Advance [OF c t]
  note rd = read_value_at [OF at v(1) t]
  have ih: "collect_args mem \<lparr>typeTag = Some (tag + 1), argument = Some (arg + length (arg_bytes v))\<rparr> e m =
      Inr (m\<lparr>args := args m @ map (\<lambda>v. the (value_arg v)) vs\<rparr>)" for m
    using Cons.prems by (intro Cons.IH) (auto simp: mem_at_append mem_at_Cons accepts_args_def)
  have ne: "\<not> same_position ?a e" using Cons.prems(5) by (simp add: same_position_def)
  note defs = IsInt32_def IsFloat_def IsString_def has_tag_def TypeTag_def deref_def
  show ?case
  proof (cases v)
    case (OInt32 x)
    then have "AsInt32Unchecked mem ?a = Inr x"
      using rd t by (simp add: accessor_defs ebind_eq_Inr_iff)
    then show ?thesis using OInt32 ne t adv ih by (subst collect_args.simps) (simp add: defs addIntArg_def)
  next
    case (OFloat x)
    then have "AsFloatUnchecked mem ?a = Inr x"
      using rd t by (simp add: accessor_defs ebind_eq_Inr_iff)
    then show ?thesis using OFloat ne t adv ih by (subst collect_args.simps) (simp add: defs addFloatArg_def)
  next
    case (OString s)
    then have "read_cstr mem arg = Inr s"
      using rd t by (simp add: accessor_defs ebind_eq_Inr_iff)
    then show ?thesis using OString ne t adv ih by (subst collect_args.simps) (simp add: defs addStringArg_def)
  qed (use v in simp_all)
qed

end
