(* ===== verification/Doubles.thy ===== *)
theory Doubles
  imports Complex_Main "HOL-Library.Log_Nat"
begin

text \<open>
  The \<^verbatim>\<open>double\<close> arithmetic of the timer queue in \<^verbatim>\<open>product/source/ip/posix/UdpSocket.cpp\<close>.  A
  finite \<^verbatim>\<open>double\<close> is the rational number it stands for, and every operation is the exact one
  followed by \<open>fl\<close>, rounding to 53 significant bits, to nearest, ties to even.  The times are far from
  overflow and from the subnormal numbers, which \<open>fl\<close> does not treat.
\<close>

section \<open>Rounding\<close>

definition round_half_even :: "rat \<Rightarrow> int" where
  "round_half_even x =
     (let f = \<lfloor>x\<rfloor>; r = x - of_int f in if r < 1 / 2 \<or> (r = 1 / 2 \<and> even f) then f else f + 1)"

text \<open>\<open>powi2 k\<close> is 2 to the power \<open>k\<close>; \<open>log2_floor x\<close> is the integer part of the logarithm of \<open>\<bar>x\<bar>\<close>.\<close>

definition powi2 :: "int \<Rightarrow> rat" where
  "powi2 k = (if 0 \<le> k then 2 ^ nat k else 1 / 2 ^ nat (- k))"

definition log2_floor :: "rat \<Rightarrow> int" where
  "log2_floor x =
     (let (n, d) = quotient_of \<bar>x\<bar>; k = int (floorlog 2 (nat n)) - int (floorlog 2 (nat d))
      in if powi2 k \<le> \<bar>x\<bar> then k else k - 1)"

definition fl :: "rat \<Rightarrow> rat" where
  "fl x = (if x = 0 then 0
           else let e = log2_floor x - 52 in of_int (round_half_even (x / powi2 e)) * powi2 e)"

text \<open>\<^verbatim>\<open>(long) x\<close>: truncation toward zero.\<close>

definition trunc :: "rat \<Rightarrow> int" where
  "trunc x = (if x < 0 then - \<lfloor>- x\<rfloor> else \<lfloor>x\<rfloor>)"

lemma round_half_even_int [simp]: "round_half_even (of_int n) = n"
  by (simp add: round_half_even_def)

lemma round_half_even_mono: "x \<le> y \<Longrightarrow> round_half_even x \<le> round_half_even y"
proof -
  assume xy: "x \<le> y"
  then have f: "\<lfloor>x\<rfloor> \<le> \<lfloor>y\<rfloor>" by (rule floor_mono)
  show ?thesis
  proof (cases "\<lfloor>x\<rfloor> = \<lfloor>y\<rfloor>")
    case True
    then show ?thesis using xy by (auto simp: round_half_even_def Let_def)
  next
    case False
    then have "\<lfloor>x\<rfloor> + 1 \<le> \<lfloor>y\<rfloor>" using f by simp
    then show ?thesis by (auto simp: round_half_even_def Let_def)
  qed
qed

lemma powi2_pos [simp]: "0 < powi2 k"
  by (simp add: powi2_def)

lemma fl_0 [simp]: "fl 0 = 0"
  by (simp add: fl_def)

lemma fl_nonneg: "0 \<le> x \<Longrightarrow> 0 \<le> fl x"
proof -
  assume x: "0 \<le> x"
  have "round_half_even (of_int 0) \<le> round_half_even (x / powi2 e)" for e
    using x by (intro round_half_even_mono) (simp add: less_imp_le)
  then have "0 \<le> round_half_even (x / powi2 e)" for e unfolding round_half_even_int by simp
  then show ?thesis by (simp add: fl_def Let_def less_imp_le)
qed

end
