(* ===== verification/Multiplexer.thy ===== *)
theory Multiplexer
  imports Doubles UdpSocket
begin

text \<open>
  \<^verbatim>\<open>class SocketReceiveMultiplexer\<close> with its \<^verbatim>\<open>Implementation\<close> (\<^verbatim>\<open>product/source/ip/UdpSocket.h\<close>,
  \<^verbatim>\<open>ip/posix/UdpSocket.cpp\<close>).  Listeners, timers and sockets are numbers; what a listener does when
  it is called is the parameter \<open>behaviour\<close>.  \<^verbatim>\<open>Run\<close> reads \<^verbatim>\<open>break_\<close> while other threads write it, so
  it is a step function over a program counter, whose steps other threads' steps may separate.  The
  answers of the system to one step are a record \<open>answer\<close>; a step that blocks gives \<open>None\<close>.
\<close>

section \<open>Listeners and timers\<close>

record attached_timer =
  initialDelayMs :: int32
  periodMs :: int32
  timer_listener :: nat

text \<open>\<open>break_pipe\<close> is the number of bytes in the pipe that wakes up \<^verbatim>\<open>select\<close>.\<close>

record multiplexer =
  socketListeners :: "(nat \<times> nat) list"
  timerListeners :: "attached_timer list"
  break_flag :: bool
  break_pipe :: nat

text \<open>The constructor leaves \<^verbatim>\<open>break_\<close> with an indeterminate value.\<close>

definition new_Multiplexer :: "bool \<Rightarrow> bool \<Rightarrow> osc_error + multiplexer" where
  "new_Multiplexer pipe_ok garbage =
     (if \<not> pipe_ok then Inl (RuntimeError ''creation of asynchronous break pipes failed'')
      else Inr \<lparr>socketListeners = [], timerListeners = [], break_flag = garbage, break_pipe = 0\<rparr>)"

definition AttachSocketListener :: "nat \<Rightarrow> nat \<Rightarrow> multiplexer \<Rightarrow> osc_error + multiplexer" where
  "AttachSocketListener sock listener m =
     (if (listener, sock) \<in> set (socketListeners m) then Inl AssertFailed
      else Inr (m\<lparr>socketListeners := socketListeners m @ [(listener, sock)]\<rparr>))"

definition DetachSocketListener :: "nat \<Rightarrow> nat \<Rightarrow> multiplexer \<Rightarrow> osc_error + multiplexer" where
  "DetachSocketListener sock listener m =
     (if (listener, sock) \<notin> set (socketListeners m) then Inl AssertFailed
      else Inr (m\<lparr>socketListeners := remove1 (listener, sock) (socketListeners m)\<rparr>))"

definition AttachDelayedTimerListener :: "int32 \<Rightarrow> int32 \<Rightarrow> nat \<Rightarrow> multiplexer \<Rightarrow> multiplexer" where
  "AttachDelayedTimerListener delay period listener m =
     m\<lparr>timerListeners := timerListeners m @
         [\<lparr>initialDelayMs = delay, periodMs = period, timer_listener = listener\<rparr>]\<rparr>"

definition AttachPeriodicTimerListener :: "int32 \<Rightarrow> nat \<Rightarrow> multiplexer \<Rightarrow> multiplexer" where
  "AttachPeriodicTimerListener period listener m =
     m\<lparr>timerListeners := timerListeners m @
         [\<lparr>initialDelayMs = period, periodMs = period, timer_listener = listener\<rparr>]\<rparr>"

fun erase_timer :: "nat \<Rightarrow> attached_timer list \<Rightarrow> attached_timer list option" where
  "erase_timer listener [] = None"
| "erase_timer listener (t # ts) =
     (if timer_listener t = listener then Some ts else map_option ((#) t) (erase_timer listener ts))"

definition DetachPeriodicTimerListener :: "nat \<Rightarrow> multiplexer \<Rightarrow> osc_error + multiplexer" where
  "DetachPeriodicTimerListener listener m =
     (case erase_timer listener (timerListeners m) of
        None \<Rightarrow> Inl AssertFailed
      | Some ts \<Rightarrow> Inr (m\<lparr>timerListeners := ts\<rparr>))"

definition Break :: "multiplexer \<Rightarrow> multiplexer" where
  "Break m = m\<lparr>break_flag := True\<rparr>"

text \<open>The two statements of \<^verbatim>\<open>AsynchronousBreak\<close>: the flag, then a byte into the pipe.\<close>

definition write_break_pipe :: "multiplexer \<Rightarrow> multiplexer" where
  "write_break_pipe m = m\<lparr>break_pipe := break_pipe m + 1\<rparr>"

definition AsynchronousBreak :: "multiplexer \<Rightarrow> multiplexer" where
  "AsynchronousBreak m = write_break_pipe (m\<lparr>break_flag := True\<rparr>)"

section \<open>Time\<close>

text \<open>Seconds and microseconds, as \<^verbatim>\<open>gettimeofday\<close> gives them.\<close>

definition GetCurrentTimeMs :: "nat \<times> nat \<Rightarrow> rat" where
  "GetCurrentTimeMs t = fl (fl (of_nat (fst t) * 1000) + fl (of_nat (snd t) / 1000))"

type_synonym timer_queue = "(rat \<times> attached_timer) list"

text \<open>\<^verbatim>\<open>std::sort\<close> with \<^verbatim>\<open>CompareScheduledTimerCalls\<close>; here calls of the same time keep their order.\<close>

definition sort_calls :: "timer_queue \<Rightarrow> timer_queue" where
  "sort_calls q = sort_key fst q"

definition schedule_timers :: "rat \<Rightarrow> attached_timer list \<Rightarrow> timer_queue" where
  "schedule_timers currentTimeMs ts =
     sort_calls (map (\<lambda>t. (fl (currentTimeMs + of_int (sint (initialDelayMs t))), t)) ts)"

text \<open>The \<^verbatim>\<open>timeval\<close> for \<^verbatim>\<open>select\<close>; \<open>None\<close> is the null pointer.\<close>

definition select_timeout :: "rat \<Rightarrow> timer_queue \<Rightarrow> (int \<times> int) option" where
  "select_timeout currentTimeMs q =
     (case q of
        [] \<Rightarrow> None
      | (t, _) # _ \<Rightarrow>
          let d = fl (t - currentTimeMs);
              timeoutMs = (if d < 0 then 0 else d);
              sec = trunc (fl (timeoutMs * fl (1 / 1000)));
              usec = trunc (fl (fl (timeoutMs - fl (of_int (sec * 1000))) * 1000))
          in Some (sec, usec))"

section \<open>The loop\<close>

definition MAX_BUFFER_SIZE :: nat where "MAX_BUFFER_SIZE = 4098"

text \<open>
  What the objects do when they are called: the new state of the world, whether they called
  \<^verbatim>\<open>Break()\<close>, and what they threw; \<open>on_packet\<close> may not return.
\<close>

record 'w behaviour =
  on_packet :: "nat \<Rightarrow> bytes \<Rightarrow> ip_endpoint \<Rightarrow> 'w \<Rightarrow> ('w \<times> bool \<times> osc_error option) option"
  on_timer :: "nat \<Rightarrow> 'w \<Rightarrow> 'w \<times> bool \<times> osc_error option"
  sockets :: "nat \<Rightarrow> udp_socket"

text \<open>
  \<open>SelectInterrupted\<close>: the call failed with \<^verbatim>\<open>EINTR\<close>, which leaves the descriptor set as it was, all
  of it set.
\<close>

datatype select_result = SelectReady "nat list" | SelectInterrupted | SelectFailed

record answer =
  now :: "nat \<times> nat"
  selected :: select_result
  datagram :: "(sockaddr \<times> bytes) option"

datatype run_pc =
    RunEntry
  | LoopHead
  | InSelect "(int \<times> int) option"
  | AfterSelect "nat list" bool
  | SocketLoop "nat list" "(nat \<times> nat) list"
  | TimerEntry
  | TimerLoop rat nat bool
  | TimersDone bool
  | RunReturned
  | RunThrew osc_error
  | RunStuck

record 'w mux_run =
  mux :: multiplexer
  pc :: run_pc
  timerQueue :: timer_queue
  listeners_world :: 'w

definition goto :: "run_pc \<Rightarrow> 'w mux_run \<Rightarrow> 'w mux_run" where
  "goto l s = s\<lparr>pc := l\<rparr>"

text \<open>After a listener was called: what it changed, and where its call goes on.\<close>

definition called :: "'w \<times> bool \<times> osc_error option \<Rightarrow> ('w mux_run \<Rightarrow> 'w mux_run) \<Rightarrow> 'w mux_run \<Rightarrow> 'w mux_run" where
  "called r continue s =
     (case r of (w, breaks, thrown) \<Rightarrow>
        let s = s\<lparr>listeners_world := w, mux := (if breaks then Break (mux s) else mux s)\<rparr> in
        case thrown of Some err \<Rightarrow> goto (RunThrew err) s | None \<Rightarrow> continue s)"

text \<open>One socket: receive a datagram and hand it to the listener.\<close>

definition socket_step ::
    "'w behaviour \<Rightarrow> answer \<Rightarrow> nat list \<Rightarrow> nat \<times> nat \<Rightarrow> (nat \<times> nat) list \<Rightarrow> 'w mux_run \<Rightarrow> 'w mux_run" where
  "socket_step b a ready i rest s =
     (if snd i \<notin> set ready then goto (SocketLoop ready rest) s
      else case ReceiveFrom MAX_BUFFER_SIZE (datagram a) (sockets b (snd i)) of
        Inl err \<Rightarrow> goto (RunThrew err) s
      | Inr (None, data) \<Rightarrow> goto (SocketLoop ready rest) s
      | Inr (Some remoteEndpoint, data) \<Rightarrow>
          if 0 < length data then
            case on_packet b (fst i) data remoteEndpoint (listeners_world s) of
              None \<Rightarrow> goto RunStuck s
            | Some r \<Rightarrow>
                called r (\<lambda>s. if break_flag (mux s) then goto TimerEntry s else goto (SocketLoop ready rest) s) s
          else goto (SocketLoop ready rest) s)"

text \<open>One timer that has expired: call it and schedule its next call.\<close>

definition timer_step :: "'w behaviour \<Rightarrow> rat \<Rightarrow> nat \<Rightarrow> bool \<Rightarrow> 'w mux_run \<Rightarrow> 'w mux_run" where
  "timer_step b currentTimeMs i resort s =
     (let (t, l) = timerQueue s ! i in
      called (on_timer b (timer_listener l) (listeners_world s))
        (\<lambda>s. if break_flag (mux s) then goto (TimersDone resort) s
             else goto (TimerLoop currentTimeMs (i + 1) True)
               (s\<lparr>timerQueue := (timerQueue s)[i := (fl (t + of_int (sint (periodMs l))), l)]\<rparr>)) s)"

definition run_step :: "'w behaviour \<Rightarrow> answer \<Rightarrow> 'w mux_run \<Rightarrow> 'w mux_run option" where
  "run_step b a s =
     (case pc s of
        RunEntry \<Rightarrow>
          Some (goto LoopHead (s\<lparr>mux := (mux s)\<lparr>break_flag := False\<rparr>,
            timerQueue := schedule_timers (GetCurrentTimeMs (now a)) (timerListeners (mux s))\<rparr>))
      | LoopHead \<Rightarrow>
          Some (if break_flag (mux s) then goto RunReturned s
                else goto (InSelect (select_timeout (GetCurrentTimeMs (now a)) (timerQueue s))) s)
      | InSelect timeout \<Rightarrow>
          (case selected a of
             SelectFailed \<Rightarrow> Some (goto (RunThrew (RuntimeError ''select failed'')) s)
           | SelectInterrupted \<Rightarrow> Some (goto (AfterSelect (map snd (socketListeners (mux s))) True) s)
           | SelectReady ready \<Rightarrow>
               if ready = [] \<and> break_pipe (mux s) = 0 \<and> timeout = None then None
               else Some (goto (AfterSelect ready (0 < break_pipe (mux s))) s))
      | AfterSelect ready pipe_ready \<Rightarrow>
          if pipe_ready \<and> break_pipe (mux s) = 0 then None
          else
            let s = (if pipe_ready then s\<lparr>mux := (mux s)\<lparr>break_pipe := break_pipe (mux s) - 1\<rparr>\<rparr> else s) in
            Some (if break_flag (mux s) then goto RunReturned s
                  else goto (SocketLoop ready (socketListeners (mux s))) s)
      | SocketLoop ready [] \<Rightarrow> Some (goto TimerEntry s)
      | SocketLoop ready (i # rest) \<Rightarrow> Some (socket_step b a ready i rest s)
      | TimerEntry \<Rightarrow> Some (goto (TimerLoop (GetCurrentTimeMs (now a)) 0 False) s)
      | TimerLoop currentTimeMs i resort \<Rightarrow>
          Some (if i < length (timerQueue s) \<and> fst (timerQueue s ! i) \<le> currentTimeMs
                then timer_step b currentTimeMs i resort s
                else goto (TimersDone resort) s)
      | TimersDone resort \<Rightarrow>
          Some (goto LoopHead (if resort then s\<lparr>timerQueue := sort_calls (timerQueue s)\<rparr> else s))
      | _ \<Rightarrow> None)"

end
