(* ===== verification/OscListenerSpec.thy ===== *)
theory OscListenerSpec
  imports Fifo OscListener Multiplexer
begin

text \<open>
  The listener keeps the contract of a message handler (\<open>message_sink\<close>) and of a first-in first-out
  queue (\<open>fifo\<close>); together with the sender this gives delivery end to end.
\<close>

section \<open>The listener as the handler of the walk\<close>

lemma ProcessMessage_delivers:
  assumes mem: "mem_at mem p (enc_message addr vs)" and addr: "0 \<notin> set addr"
    and vs: "list_all wire_value vs" and ok: "accepts_args addr vs"
  shows "ProcessMessage mem ep g (parsed_message p addr vs) st = (deliver_message (received ep addr vs) st, None)"
proof -
  let ?m = "parsed_message p addr vs"
  let ?base = "setRemoteEndpoint (AddressAsString ep) (ep_port ep) (setAddress addr (new_Message g))"
  have "collect_args mem (ArgumentsBegin ?m) (ArgumentsEnd ?m) ?base =
      Inr (?base\<lparr>args := args ?base @ map (\<lambda>v. the (value_arg v)) vs\<rparr>)"
  proof (cases "vs = []")
    case True
    then show ?thesis
      by (subst collect_args.simps)
        (simp add: parsed_message_def ArgumentsBegin_def ArgumentsEnd_def same_position_def Let_def
          setRemoteEndpoint_def setAddress_def new_Message_def)
  next
    case False
    then show ?thesis
      using collect_args_at [OF tags_of_parsed [OF mem] vs ok, of "ArgumentsEnd ?m" ?base]
      by (simp add: parsed_message_def ArgumentsBegin_def ArgumentsEnd_def Let_def)
  qed
  moreover have "?base\<lparr>args := args ?base @ map (\<lambda>v. the (value_arg v)) vs\<rparr> = received ep addr vs"
    by (simp add: received_def setRemoteEndpoint_def setAddress_def new_Message_def)
  ultimately show ?thesis
    using parsed_message_reads(1) [OF mem addr vs] by (simp add: ProcessMessage_def Let_def)
qed

interpretation listener_sink:
  message_sink mem "ProcessMessage mem ep g" "\<lambda>addr vs. deliver_message (received ep addr vs)" accepts_args
  for mem ep g
  by unfold_locales (rule ProcessMessage_delivers)

section \<open>Faults only through blobs\<close>

lemma collect_args_safe:
  "read_values mem n a = Inr vs \<Longrightarrow> typeTag a = Some t \<Longrightarrow> typeTag e = Some (t + n) \<Longrightarrow>
   collect_args mem a e message \<noteq> Inl Fault"
proof (induction n arbitrary: a vs t message)
  case 0
  then show ?case by (subst collect_args.simps) (simp add: same_position_def)
next
  case (Suc n)
  from Suc.prems(1) obtain v a' vs' where v: "read_value mem a = Inr v" and adv: "Advance mem a = Inr a'"
    and vs: "read_values mem n a' = Inr vs'" by (auto simp: ebind_eq_Inr_iff)
  obtain b where b: "TypeTag mem a = Inr b" using v by (auto simp: read_value_def ebind_eq_Inr_iff)
  have further: "collect_args mem a' e m \<noteq> Inl Fault"
    if "has_tag k mem a = Inr True" "k \<in> {INT32_TYPE_TAG, FLOAT_TYPE_TAG, STRING_TYPE_TAG}" for k m
    using Advance_moves [OF that adv] Suc.prems vs by (intro Suc.IH [OF vs]) auto
  note defs = IsInt32_def IsFloat_def IsString_def has_tag_def b
  consider "b = 105" | "b = 102" | "b = 115" | "b \<notin> {105, 102, 115}" by blast
  then show ?case
  proof cases
    case 1
    then obtain x where "AsInt32Unchecked mem a = Inr x"
      using v b by (auto simp: read_value_def AsInt32_def checked_def TypeTag_def deref_def ebind_eq_Inr_iff
          split: option.splits)
    with 1 further [of INT32_TYPE_TAG] adv show ?thesis
      by (subst collect_args.simps) (simp add: defs)
  next
    case 2
    then obtain x where "AsFloatUnchecked mem a = Inr x"
      using v b by (auto simp: read_value_def AsFloat_def checked_def TypeTag_def deref_def ebind_eq_Inr_iff
          split: option.splits)
    with 2 further [of FLOAT_TYPE_TAG] adv show ?thesis
      by (subst collect_args.simps) (simp add: defs)
  next
    case 3
    then obtain s where "deref (argument a) (read_cstr mem) = Inr s"
      using v b by (auto simp: read_value_def AsString_def checked_def TypeTag_def deref_def ebind_eq_Inr_iff
          split: option.splits)
    with 3 further [of STRING_TYPE_TAG] adv show ?thesis
      by (subst collect_args.simps) (simp add: defs)
  next
    case 4
    then show ?thesis by (subst collect_args.simps) (simp add: defs)
  qed
qed

lemma ProcessMessage_handler_ok: "handler_ok mem (ProcessMessage mem ep g)"
proof -
  have "blob_message mem"
    if p: "p + unat sz \<le> length mem" and m: "Message_Init mem p sz = Inr m"
      and f: "snd (ProcessMessage mem ep g m st) = Some Fault" for p sz m st
  proof (rule ccontr)
    assume "\<not> blob_message mem"
    with p have "BLOB_TYPE_TAG \<notin> set (type_tag_string mem p sz)" by (auto simp: blob_message_def)
    from Message_Init_safe [OF p this] m obtain s vs
      where s: "read_cstr mem (addressPattern m) = Inr s"
        and vs: "read_values mem (ArgumentCount m) (ArgumentsBegin m) = Inr vs"
        and tags: "typeTagsBegin m = None \<and> typeTagsEnd m = None \<or>
           (\<exists>b. typeTagsBegin m = Some b \<and> typeTagsEnd m = Some (b + ArgumentCount m))"
      by (auto simp: init_ok_def)
    have "collect_args mem (ArgumentsBegin m) (ArgumentsEnd m) msg \<noteq> Inl Fault" for msg
      using tags
    proof
      assume "typeTagsBegin m = None \<and> typeTagsEnd m = None"
      then show ?thesis
        by (subst collect_args.simps) (simp add: ArgumentsBegin_def ArgumentsEnd_def same_position_def)
    next
      assume "\<exists>b. typeTagsBegin m = Some b \<and> typeTagsEnd m = Some (b + ArgumentCount m)"
      then obtain b where "typeTagsBegin m = Some b" "typeTagsEnd m = Some (b + ArgumentCount m)" by blast
      then show ?thesis
        by (intro collect_args_safe [OF vs, of b]) (simp_all add: ArgumentsBegin_def ArgumentsEnd_def)
    qed
    with f s show False by (auto simp: ProcessMessage_def Let_def split: sum.splits)
  qed
  then show ?thesis by (auto simp: handler_ok_def)
qed

section \<open>The queue\<close>

text \<open>A client that polls with a fresh message.\<close>

definition take_message :: "int32 \<Rightarrow> 'w osc_listener \<Rightarrow> (osc_message \<times> 'w osc_listener) option" where
  "take_message garbage st =
     (case getNextMessage (new_Message garbage) st of
        Inr (True, m, st') \<Rightarrow> Some (m, st') | _ \<Rightarrow> None)"

interpretation listener_queue:
  fifo deliver_message "take_message g" "\<lambda>st. mCallbackFn st = None" mMessages for g
proof
  fix st :: "'w osc_listener" and x xs
  assume "mMessages st = x # xs"
  then show "\<exists>st'. take_message g st = Some (x, st') \<and> mMessages st' = xs \<and>
      (mCallbackFn st = None \<longrightarrow> mCallbackFn st' = None)"
    by (cases x) (simp add: take_message_def getNextMessage_def Message_copy_eq new_Message_def)
qed (auto simp: deliver_message_def take_message_def getNextMessage_def)

fun poll :: "int32 \<Rightarrow> nat \<Rightarrow> 'w osc_listener \<Rightarrow> osc_message list" where
  "poll g 0 st = []"
| "poll g (Suc n) st =
     (case take_message g st of None \<Rightarrow> [] | Some (m, st') \<Rightarrow> m # poll g n st')"

lemma poll_deq_all: "poll g n st = listener_queue.deq_all g n st"
  by (induction n arbitrary: st) (auto split: option.splits)

lemma deliver_callback:
  "mCallbackFn st = Some f \<Longrightarrow> fold deliver_message ms st = st\<lparr>world := fold f ms (world st)\<rparr>"
  by (induction ms arbitrary: st) (auto simp: deliver_message_def)

section \<open>From the sender to the listener\<close>

text \<open>The order in which a bundle's messages are written: nested bundles first.\<close>

fun bundle_messages :: "osc_bundle \<Rightarrow> osc_message list" where
  "bundle_messages (OscBundle ms bs) = concat (map bundle_messages bs) @ ms"

text \<open>What arrives of a message: C strings end at a NUL, the endpoint is the sender's.\<close>

fun arrived_arg :: "osc_arg \<Rightarrow> osc_arg" where
  "arrived_arg (ArgString s) = ArgString (c_str s)"
| "arrived_arg a = a"

definition arrived :: "ip_endpoint \<Rightarrow> osc_message \<Rightarrow> osc_message" where
  "arrived ep m =
     \<lparr>address = c_str (address m), args = map arrived_arg (args m),
      remote_host = AddressAsString ep, remote_port = ep_port ep\<rparr>"

text \<open>An address that a receiver does not take for a bundle.\<close>

definition plain_address :: "osc_message \<Rightarrow> bool" where
  "plain_address m \<longleftrightarrow> c_str (address m) = [] \<or> hd (c_str (address m)) \<noteq> byte_of (CHR ''#'')"

lemma arg_value_ok: "wire_value (arg_value a)" "value_arg (arg_value a) = Some (arrived_arg a)"
  by (cases a; simp)+

lemma sound_message_tree: "plain_address m \<Longrightarrow> listener_sink.sound_tree (message_tree m)"
  by (auto simp: listener_sink.sound_tree_def message_tree_def plain_address_def list_all_iff
      accepts_args_def arg_value_ok)

lemma sound_bundle_tree:
  "\<forall>m\<in>set (bundle_messages b). plain_address m \<Longrightarrow> listener_sink.sound_tree (bundle_tree b)"
proof (induction b)
  case (OscBundle ms bs)
  then show ?case
    by (auto simp: listener_sink.sound_TBundle intro: sound_message_tree)
qed

lemma received_arg_values: "received ep (c_str (address m)) (map arg_value (args m)) = arrived ep m"
  by (simp add: received_def arrived_def arg_value_ok)

lemma leaves_bundle_tree:
  "leaves (bundle_tree b) =
   map (\<lambda>m. (c_str (address m), map arg_value (args m))) (bundle_messages b)"
proof (induction b)
  case (OscBundle ms bs)
  have "concat (map leaves (map bundle_tree bs)) =
      map (\<lambda>m. (c_str (address m), map arg_value (args m))) (concat (map bundle_messages bs))"
    using OscBundle by (induction bs) auto
  moreover have "concat (map leaves (map message_tree ms)) =
      map (\<lambda>m. (c_str (address m), map arg_value (args m))) ms"
    by (induction ms) (auto simp: message_tree_def)
  ultimately show ?case by simp
qed

lemma deliver_all_messages:
  "listener_sink.deliver_all ep (map (\<lambda>m. (c_str (address m), map arg_value (args m))) ms) st =
   fold deliver_message (map (arrived ep) ms) st"
  by (induction ms arbitrary: st) (auto simp: received_arg_values)

lemma small_tree_sendable: "length (enc_tree k) < 2 ^ 31 \<Longrightarrow> sendable_tree k"
proof (induction k)
  case (TMessage addr vs)
  have "length addr \<le> length (enc_message addr vs)"
    using roundup4_ge [of "length addr + 1"] by (simp add: length_enc_message)
  moreover have "length (arg_bytes v) \<le> length (enc_message addr vs)" if "v \<in> set vs" for v
  proof -
    from that have "length (arg_bytes v) \<le> length (concat (map arg_bytes vs))"
      by (induction vs) auto
    then show ?thesis by (simp add: length_enc_message length_enc_args)
  qed
  ultimately show ?case using TMessage by (force simp: sendable_def list_all_iff)
next
  case (TBundle t ks)
  have "length (enc_tree k) < 2 ^ 31" if "k \<in> set ks" for k
  proof -
    from that have "length (enc_tree k) \<le> length (concat (map enc_element (map enc_tree ks)))"
      by (induction ks) auto
    then show ?thesis using TBundle.prems by (simp add: length_enc_bundle)
  qed
  then show ?case using TBundle.IH by (simp add: list_all_iff)
qed

text \<open>The listener's buffer is the bytes of one datagram, at most \<open>MAX_BUFFER_SIZE\<close> of them.\<close>

definition receive_datagram ::
    "sockaddr \<times> bytes \<Rightarrow> udp_socket \<Rightarrow> int32 \<Rightarrow> 'w osc_listener \<Rightarrow> ('w osc_listener \<times> osc_error option) option" where
  "receive_datagram d u g st =
     (case ReceiveFrom MAX_BUFFER_SIZE (Some d) u of
        Inr (Some ep, data) \<Rightarrow>
          if 0 < length data
          then ProcessPacket data (of_nat (length data)) (ProcessMessage data ep g) st
          else Some (st, None)
      | Inr (None, data) \<Rightarrow> Some (st, None)
      | Inl err \<Rightarrow> Some (st, Some err))"

definition from_endpoint :: "sockaddr \<Rightarrow> ip_endpoint" where
  "from_endpoint a = \<lparr>ep_address = ucast (htonl (sin_addr a)), ep_port = ucast (htons (sin_port a))\<rparr>"

lemma receive_tree:
  assumes "isBound u" and "length (enc_tree k) \<le> MAX_BUFFER_SIZE"
    and "listener_sink.sound_tree k"
  shows "receive_datagram (from, enc_tree k) u g st =
    Some (listener_sink.deliver_all (from_endpoint from) (leaves k) st, None)"
proof -
  have "length (enc_tree k) < 2 ^ 31" using assms(2) by (simp add: MAX_BUFFER_SIZE_def)
  note p = listener_sink.process_tree [OF refl assms(3) this refl]
  show ?thesis
    using assms(1,2) enc_tree_pos [of k] p [of "from_endpoint from" g st]
    by (simp add: receive_datagram_def ReceiveFrom_def flip: from_endpoint_def)
qed

text \<open>A packet longer than the buffer arrives cut, and its size gives it away.\<close>

lemma receive_oversized_bundle:
  assumes "isBound u" and "MAX_BUFFER_SIZE < length data" and "data ! 0 = byte_of (CHR ''#'')"
  shows "receive_datagram (from, data) u g st =
    Some (st, Some (MalformedBundleException ''bundle size must be multiple of four''))"
proof -
  let ?d = "take MAX_BUFFER_SIZE data"
  have d: "length ?d = 4098" "?d ! 0 = byte_of (CHR ''#'')"
    using assms(2,3) by (simp_all add: MAX_BUFFER_SIZE_def)
  have "ReceivedPacket_IsBundle ?d \<lparr>contents = 0, packet_size = 4098\<rparr> = Inr True"
    using d by (simp add: ReceivedPacket_IsBundle_def load_byte_def)
  moreover have "ReceivedBundle_packet ?d \<lparr>contents = 0, packet_size = 4098\<rparr> =
      Some (Inl (MalformedBundleException ''bundle size must be multiple of four''))"
    by (simp add: ReceivedBundle_packet_def Bundle_Init_def)
  ultimately have "ProcessPacket ?d 4098 (ProcessMessage ?d (from_endpoint from) g) st =
      Some (st, Some (MalformedBundleException ''bundle size must be multiple of four''))"
    by (simp add: ProcessPacket_def)
  then show ?thesis
    using assms(1,2) d(1)
    by (cases data) (simp_all add: receive_datagram_def ReceiveFrom_def MAX_BUFFER_SIZE_def flip: from_endpoint_def)
qed

lemma enc_bundle_hash: "enc_tree (bundle_tree b) ! 0 = byte_of (CHR ''#'')"
  by (cases b) (simp add: enc_bundle_def bundle_header_def nth_append)

lemma bundle_end_to_end:
  assumes "length buffer = BUNDLE_BUFFER_SIZE" and "socket s = Some u" and "isConnected u"
    and "length (enc_tree (bundle_tree b)) \<le> MAX_BUFFER_SIZE"
    and "\<forall>m\<in>set (bundle_messages b). plain_address m" and "isBound r"
  shows "\<exists>data. sendBundle buffer b s = Inr (peer u, data) \<and>
    receive_datagram (from, data) r g st =
      Some (fold deliver_message (map (arrived (from_endpoint from)) (bundle_messages b)) st, None)"
proof -
  have small: "length (enc_tree (bundle_tree b)) < 2 ^ 31"
    using assms(4) by (simp add: MAX_BUFFER_SIZE_def)
  have "sendBundle buffer b s = Inr (peer u, enc_tree (bundle_tree b))"
    using sendBundle_eq [OF _ small_tree_sendable [OF small] assms(2), of buffer] assms
    by (simp add: send_tree_def Send_def MAX_BUFFER_SIZE_def BUNDLE_BUFFER_SIZE_def)
  moreover have "receive_datagram (from, enc_tree (bundle_tree b)) r g st =
      Some (fold deliver_message (map (arrived (from_endpoint from)) (bundle_messages b)) st, None)"
    using receive_tree [OF assms(6,4) sound_bundle_tree [OF assms(5)]]
    by (simp add: leaves_bundle_tree deliver_all_messages)
  ultimately show ?thesis by blast
qed

lemma message_end_to_end:
  assumes "length buffer = MESSAGE_BUFFER_SIZE" and "socket s = Some u" and "isConnected u"
    and "length (enc_tree (TBundle BeginBundleImmediate [message_tree m])) \<le> MAX_BUFFER_SIZE"
    and "plain_address m" and "isBound r"
  shows "\<exists>data. sendMessage buffer m s = Inr (peer u, data) \<and>
    receive_datagram (from, data) r g st = Some (deliver_message (arrived (from_endpoint from) m) st, None)"
proof -
  let ?k = "TBundle BeginBundleImmediate [message_tree m]"
  have small: "length (enc_tree ?k) < 2 ^ 31" using assms(4) by (simp add: MAX_BUFFER_SIZE_def)
  have "sendMessage buffer m s = Inr (peer u, enc_tree ?k)"
    using sendMessage_eq [OF _ _ assms(2), of buffer m] small_tree_sendable [OF small] assms
    by (simp add: send_tree_def Send_def MAX_BUFFER_SIZE_def MESSAGE_BUFFER_SIZE_def)
  moreover have "receive_datagram (from, enc_tree ?k) r g st =
      Some (deliver_message (arrived (from_endpoint from) m) st, None)"
    using receive_tree [OF assms(6,4)] sound_message_tree [OF assms(5)]
    by (simp add: listener_sink.sound_TBundle message_tree_def received_arg_values)
  ultimately show ?thesis by blast
qed

text \<open>Datagrams of one sender that arrive one after the other; an exception ends the loop.\<close>

fun receive_datagrams ::
    "sockaddr \<Rightarrow> bytes list \<Rightarrow> udp_socket \<Rightarrow> int32 \<Rightarrow> 'w osc_listener \<Rightarrow>
     ('w osc_listener \<times> osc_error option) option" where
  "receive_datagrams from [] r g st = Some (st, None)"
| "receive_datagrams from (d # ds) r g st =
     (case receive_datagram (from, d) r g st of
        None \<Rightarrow> None
      | Some (st, Some err) \<Rightarrow> Some (st, Some err)
      | Some (st, None) \<Rightarrow> receive_datagrams from ds r g st)"

lemma messages_end_to_end:
  assumes "socket s = Some u" and "isConnected u" and "isBound r"
    and "\<forall>(buffer, m)\<in>set ms. length buffer = MESSAGE_BUFFER_SIZE \<and> plain_address m \<and>
      length (enc_tree (TBundle BeginBundleImmediate [message_tree m])) \<le> MAX_BUFFER_SIZE"
  shows "\<exists>ds. map (\<lambda>(buffer, m). sendMessage buffer m s) ms = map (\<lambda>d. Inr (peer u, d)) ds \<and>
    receive_datagrams from ds r g st =
      Some (fold deliver_message (map (arrived (from_endpoint from)) (map snd ms)) st, None)"
  using assms(4)
proof (induction ms arbitrary: st)
  case (Cons x ms)
  obtain buffer m where x: "x = (buffer, m)" by force
  obtain d where d: "sendMessage buffer m s = Inr (peer u, d)"
      "receive_datagram (from, d) r g st = Some (deliver_message (arrived (from_endpoint from) m) st, None)"
    using message_end_to_end [OF _ assms(1,2) _ _ assms(3), of buffer m "from" g st] Cons.prems x by auto
  obtain ds where "map (\<lambda>(buffer, m). sendMessage buffer m s) ms = map (\<lambda>d. Inr (peer u, d)) ds"
      "receive_datagrams from ds r g (deliver_message (arrived (from_endpoint from) m) st) =
        Some (fold deliver_message (map (arrived (from_endpoint from)) (map snd ms))
          (deliver_message (arrived (from_endpoint from) m) st), None)"
    using Cons.IH [of "deliver_message (arrived (from_endpoint from) m) st"] Cons.prems by auto
  then show ?case using d by (intro exI [of _ "d # ds"]) (simp add: x)
qed simp

end
