(* ===== verification/IosClientMock.thy ===== *)
theory IosClientMock
  imports XmppBehaviour OscListenerSpec OscSenderSpec "HOL-Library.Signed_Division"
begin

text \<open>
  \<^verbatim>\<open>class IosClientMock\<close> (\<^verbatim>\<open>product/source/IosClientMock.{h,cpp}\<close>): a number of XMPP clients and one OSC
  sender that produce load.  The clients are kept in a vector by value; a copy shares the listener of
  its original and both delete it, so the vector is modelled with the listeners' addresses.
\<close>

section \<open>A vector of clients\<close>

record configuration =
  config_server :: bytes
  oscPort :: int32
  totalClients :: int32
  oscFrequency :: int32
  xmppFrequency :: int32
  oscPayloadSize :: int32
  xmppPayloadSize :: int32

text \<open>
  \<open>live\<close>: the listeners allocated and not yet deleted; \<open>fresh\<close>: the next address; \<open>mOscThread\<close> and
  \<open>mXmppThread\<close>: the pointer holds a thread that was not joined.
\<close>

record mock =
  mRunning :: bool
  mTotalClients :: int32
  mConfig :: configuration
  mOscSender :: osc_sender
  mClients :: "(xmpp_client \<times> nat) list"
  mOscThread :: bool
  mXmppThread :: bool
  capacity :: nat
  live :: "nat list"
  fresh :: nat

text \<open>The constructor leaves \<^verbatim>\<open>mTotalClients\<close> and \<^verbatim>\<open>mConfig\<close> as they are; nothing ever sets the first.\<close>

definition new_IosClientMock :: "int32 \<Rightarrow> configuration \<Rightarrow> mock" where
  "new_IosClientMock garbage config =
     \<lparr>mRunning = False, mTotalClients = garbage, mConfig = config, mOscSender = new_OscSender,
      mClients = [], mOscThread = False, mXmppThread = False, capacity = 0, live = [], fresh = 0\<rparr>"

text \<open>\<^verbatim>\<open>~Client\<close>: \<^verbatim>\<open>delete mListener\<close>.\<close>

definition destroy_client :: "nat \<Rightarrow> mock \<Rightarrow> mock outcome" where
  "destroy_client a m = (if a \<in> set (live m) then Done (m\<lparr>live := remove1 a (live m)\<rparr>) else Faulted DoubleFree)"

fun destroy_clients :: "(xmpp_client \<times> nat) list \<Rightarrow> mock \<Rightarrow> mock outcome" where
  "destroy_clients [] m = Done m"
| "destroy_clients ((c, a) # cs) m = obind (destroy_client a m) (destroy_clients cs)"

definition clear_clients :: "mock \<Rightarrow> mock outcome" where
  "clear_clients m = obind (destroy_clients (mClients m) m) (\<lambda>m. Done (m\<lparr>mClients := []\<rparr>))"

text \<open>
  \<^verbatim>\<open>push_back\<close> copies; a full vector copies its elements into one of twice the size and destroys them.
\<close>

definition push_back_client :: "xmpp_client \<times> nat \<Rightarrow> mock \<Rightarrow> mock outcome" where
  "push_back_client c m =
     (if length (mClients m) < capacity m then Done (m\<lparr>mClients := mClients m @ [c]\<rparr>)
      else obind (destroy_clients (mClients m) m) (\<lambda>m.
        Done (m\<lparr>mClients := mClients m @ [c], capacity := max (2 * capacity m) (length (mClients m) + 1)\<rparr>)))"

definition account_name :: "nat \<Rightarrow> bytes" where
  "account_name n = bytes_of ''mock-client-test-account-'' @ show_nat n"

definition mock_client :: "bool \<Rightarrow> bool \<Rightarrow> bytes \<Rightarrow> nat \<Rightarrow> xmpp_client" where
  "mock_client debug thread_ok server n =
     snd (Client_connect debug thread_ok (account_name n) (account_name n) server DEFAULT_PORT False
       (fold (\<lambda>k. setSignal k True)
         [SignalConnect, SignalTlsConnect, SignalDisconnect, SignalHandleMsg, SignalRoster, SignalRosterPresence]
         new_Client))"

text \<open>One turn of the loop: a local client is connected, copied into the vector and destroyed.\<close>

definition start_turn :: "bool \<Rightarrow> bool \<Rightarrow> mock \<Rightarrow> mock outcome" where
  "start_turn debug thread_ok m =
     (let a = fresh m;
          c = mock_client debug thread_ok (config_server (mConfig m)) (length (mClients m));
          m = m\<lparr>live := a # live m, fresh := a + 1\<rparr>
      in obind (push_back_client (c, a) m) (destroy_client a))"

text \<open>
  \<^verbatim>\<open>mClients.size() < mConfig.totalClients\<close> compares as \<^verbatim>\<open>size_t\<close>; \<open>fuel\<close> is the number of turns, which the
  comparison bounds.
\<close>

definition more_clients :: "mock \<Rightarrow> bool" where
  "more_clients m = (length (mClients m) < unat (scast (totalClients (mConfig m)) :: ulong))"

fun start_clients :: "bool \<Rightarrow> bool \<Rightarrow> nat \<Rightarrow> mock \<Rightarrow> mock outcome" where
  "start_clients debug thread_ok 0 m = (if more_clients m then Blocked else Done m)"
| "start_clients debug thread_ok (Suc fuel) m =
     (if more_clients m then obind (start_turn debug thread_ok m) (start_clients debug thread_ok fuel) else Done m)"

text \<open>
  \<^verbatim>\<open>make_shared<std::thread>\<close> starts a thread; the one the pointer held before is destroyed, which a
  thread that was not joined does not survive.
\<close>

definition start_threads :: "mock \<Rightarrow> mock outcome" where
  "start_threads m =
     (if mOscThread m then Faulted Terminated
      else let m = m\<lparr>mOscThread := True\<rparr> in
        if mXmppThread m then Faulted Terminated else Done (m\<lparr>mXmppThread := True\<rparr>))"

text \<open>The last component: what \<^verbatim>\<open>setup\<close> of the OSC sender throws; then the threads are not started.\<close>

definition IosClientMock_start ::
    "bool \<Rightarrow> bool \<Rightarrow> (bytes \<Rightarrow> 32 word option) \<Rightarrow> bool \<Rightarrow> bool \<Rightarrow> sockaddr \<Rightarrow> configuration \<Rightarrow> mock \<Rightarrow>
     (mock \<times> (osc_error + unit)) outcome" where
  "IosClientMock_start debug thread_ok resolve socket_ok connect_ok garbage config m =
     obind (clear_clients (m\<lparr>mConfig := config\<rparr>)) (\<lambda>m.
     obind (start_clients debug thread_ok (unat (scast (totalClients config) :: ulong)) m) (\<lambda>m.
       let (r, s) = Sender_setup resolve socket_ok connect_ok garbage (config_server config) (oscPort config)
             False (mOscSender m);
           m = m\<lparr>mOscSender := s\<rparr>
       in case r of
            Inl err \<Rightarrow> Done (m, Inl err)
          | Inr _ \<Rightarrow> obind (start_threads (m\<lparr>mRunning := True\<rparr>)) (\<lambda>m. Done (m, Inr ()))))"

text \<open>
  \<open>meanwhile\<close> is what the two threads do while the destructor waits for them.  Then the members are
  destroyed, the clients among them.
\<close>

definition delete_IosClientMock :: "(mock \<Rightarrow> mock outcome) \<Rightarrow> mock \<Rightarrow> mock outcome" where
  "delete_IosClientMock meanwhile m =
     (let m = m\<lparr>mRunning := False\<rparr> in
      obind (if mOscThread m \<or> mXmppThread m then meanwhile m else Done m) (\<lambda>m.
        let m = m\<lparr>mOscThread := False, mXmppThread := False\<rparr>
        in obind (clear_clients m) (\<lambda>m. Done (m\<lparr>mOscSender := delete_OscSender (mOscSender m)\<rparr>))))"

section \<open>The threads\<close>

definition MINIMUM_MESSAGE_DELAY :: int where "MINIMUM_MESSAGE_DELAY = 5"

text \<open>\<^verbatim>\<open>1000 / frequency / totalClients\<close>, in milliseconds.\<close>

definition message_delay :: "int32 \<Rightarrow> int32 \<Rightarrow> int outcome" where
  "message_delay frequency clients =
     (if sint frequency = 0 \<or> sint clients = 0 then Faulted DivisionByZero
      else let delay = (1000 sdiv sint frequency) sdiv sint clients
           in Done (if 0 \<ge> delay then MINIMUM_MESSAGE_DELAY else delay))"

definition next_client :: "int32 \<Rightarrow> int32 \<Rightarrow> int32" where
  "next_client clients client_index =
     (let client_index = client_index + 1 in if clients \<le>s client_index then 0 else client_index)"

text \<open>One message of \<^verbatim>\<open>spawnOscThread\<close>; \<open>draws\<close> are the six random numbers, as floats.\<close>

definition mock_message :: "int32 \<Rightarrow> int32 \<Rightarrow> int32 \<Rightarrow> 32 word list \<Rightarrow> osc_message" where
  "mock_message garbage clients client_index draws =
     (let msg = setAddress (bytes_of ''/x-accel/y-accel/z-accel/x-gyro/y-gyro/z-gyro/something/else'')
            (new_Message garbage);
          msg = addIntArg client_index msg;
          client_index = next_client clients client_index;
          msg = fold addFloatArg draws msg;
          msg = addStringArg (bytes_of ''test'') msg
      in addIntArg (client_index OR clients) msg)"

text \<open>
  \<^verbatim>\<open>spawnOscThread\<close>.  A turn of its loop is given what it reads of \<^verbatim>\<open>mRunning\<close>, the bytes on its stack
  and the six random numbers; the result is what it has sent, and what it throws, which ends the
  program.  The loop ends with the turn that finds \<^verbatim>\<open>mRunning\<close> false, or is at its next turn after the
  last one given.
\<close>

record osc_turn =
  osc_running :: bool
  turn_stack :: bytes
  turn_port :: int32
  turn_draws :: "32 word list"

fun osc_loop ::
    "osc_turn list \<Rightarrow> int32 \<Rightarrow> mock \<Rightarrow> (sockaddr option \<times> bytes) list \<times> osc_error option" where
  "osc_loop [] client_index m = ([], None)"
| "osc_loop (t # turns) client_index m =
     (if \<not> osc_running t then ([], None)
      else case sendMessage (turn_stack t) (mock_message (turn_port t) (mTotalClients m) client_index (turn_draws t))
             (mOscSender m) of
        Inl err \<Rightarrow> ([], Some err)
      | Inr d \<Rightarrow>
          let (ds, thrown) = osc_loop turns (next_client (mTotalClients m) client_index) m in (d # ds, thrown))"

definition spawnOscThread ::
    "osc_turn list \<Rightarrow> mock \<Rightarrow> ((sockaddr option \<times> bytes) list \<times> osc_error option) outcome" where
  "spawnOscThread turns m =
     obind (message_delay (oscFrequency (mConfig m)) (totalClients (mConfig m))) (\<lambda>delay.
       Done (osc_loop turns 0 m))"

text \<open>One message of \<^verbatim>\<open>spawnXmppThread\<close>; \<^verbatim>\<open>at\<close> throws outside of the vector.\<close>

definition xmpp_turn :: "int32 \<Rightarrow> mock \<Rightarrow> (mock \<times> int32) outcome" where
  "xmpp_turn client_index m =
     (let i = unat (scast client_index :: ulong) in
      if length (mClients m) \<le> i then Faulted OutOfBounds
      else case mClients m ! i of (c, a) \<Rightarrow>
        if a \<notin> set (live m) then Faulted UseAfterFree
        else obind (Client_sendMessage (config_server (mConfig m))
            (bytes_of ''testMessage:key0=valueA,key1=valueB,key2=valueC,key3=valueD,key4=valueE,key5=valueF'') [] c)
          (\<lambda>(_, c). Done (m\<lparr>mClients := (mClients m)[i := (c, a)]\<rparr>, next_client (mTotalClients m) client_index)))"

text \<open>\<^verbatim>\<open>spawnXmppThread\<close>, for what its turns read of \<^verbatim>\<open>mRunning\<close>.\<close>

fun xmpp_loop :: "bool list \<Rightarrow> int32 \<Rightarrow> mock \<Rightarrow> mock outcome" where
  "xmpp_loop [] client_index m = Done m"
| "xmpp_loop (running # turns) client_index m =
     (if \<not> running then Done m
      else obind (xmpp_turn client_index m) (\<lambda>(m, client_index). xmpp_loop turns client_index m))"

definition spawnXmppThread :: "bool list \<Rightarrow> mock \<Rightarrow> mock outcome" where
  "spawnXmppThread turns m =
     obind (message_delay (xmppFrequency (mConfig m)) (totalClients (mConfig m))) (\<lambda>delay.
       xmpp_loop turns 0 m)"

section \<open>What goes wrong\<close>

lemma start_turn_first:
  assumes "mClients m = []" and "capacity m = 0"
  shows "start_turn debug ok m = Done (m\<lparr>fresh := fresh m + 1, capacity := 1,
    mClients := [(mock_client debug ok (config_server (mConfig m)) 0, fresh m)]\<rparr>)"
  using assms by (simp add: start_turn_def push_back_client_def destroy_client_def Let_def)

text \<open>The second \<^verbatim>\<open>push_back\<close> destroys the first client again.\<close>

lemma start_turn_second:
  assumes "mClients m = [(c, a)]" and "capacity m = 1" and "a \<notin> set (live m)" and "fresh m \<noteq> a"
  shows "start_turn debug ok m = Faulted DoubleFree"
  using assms by (simp add: start_turn_def push_back_client_def destroy_client_def Let_def)

lemma start_one_client:
  assumes "mClients m = []" and "capacity m = 0" and "totalClients (mConfig m) = 1" and "fresh m \<notin> set (live m)"
  shows "\<exists>m'. start_clients debug ok (unat (scast (totalClients (mConfig m)) :: ulong)) m = Done m' \<and>
    (\<exists>c a. mClients m' = [(c, a)] \<and> a \<notin> set (live m')) \<and> xmpp_turn 0 m' = Faulted UseAfterFree"
proof -
  have one: "unat (scast (1 :: int32) :: ulong) = Suc 0" by simp
  show ?thesis
    using assms by (simp add: one more_clients_def start_turn_first [OF assms(1,2)] xmpp_turn_def)
qed

lemma scast_uint: "0 \<le> sint (x :: int32) \<Longrightarrow> uint (scast x :: ulong) = sint x"
  using sint_lt [of x] unfolding scast_eq uint_word_of_int by (simp add: mod_pos_pos_trivial)

lemma start_many_clients:
  assumes "mClients m = []" and "capacity m = 0" and "1 <s totalClients (mConfig m)" and "fresh m \<notin> set (live m)"
  shows "start_clients debug ok (unat (scast (totalClients (mConfig m)) :: ulong)) m = Faulted DoubleFree"
proof -
  let ?n = "unat (scast (totalClients (mConfig m)) :: ulong)"
  have n: "sint (totalClients (mConfig m)) = int ?n"
    using assms(3) scast_uint [of "totalClients (mConfig m)"] by (simp add: word_sless_alt)
  then obtain k where k: "?n = Suc (Suc k)"
    using assms(3) by (cases ?n rule: nat.exhaust) (auto simp: word_sless_alt gr0_conv_Suc)
  show ?thesis
    unfolding k using k assms
    by (simp add: more_clients_def start_turn_first [OF assms(1,2)] start_turn_second)
qed

section \<open>What holds\<close>

lemma message_delay_bounds:
  assumes "message_delay f t = Done d"
  shows "1 \<le> d \<and> d \<le> 1000"
proof -
  have sdiv_le: "\<bar>a sdiv b\<bar> \<le> \<bar>a\<bar>" if "b \<noteq> 0" for a b :: int
    using sdiv_int_range [of a b] by (simp add: abs_le_iff)
  let ?d = "(1000 sdiv sint f) sdiv sint t"
  have nz: "sint f \<noteq> 0" "sint t \<noteq> 0" and d: "d = (if 0 \<ge> ?d then MINIMUM_MESSAGE_DELAY else ?d)"
    using assms by (auto simp: message_delay_def Let_def split: if_splits)
  have "\<bar>?d\<bar> \<le> 1000" using sdiv_le [OF nz(1), of 1000] sdiv_le [OF nz(2), of "1000 sdiv sint f"] by simp
  then show ?thesis using d by (auto simp: MINIMUM_MESSAGE_DELAY_def)
qed

lemma message_delay_fails: "message_delay f t = Faulted e \<longleftrightarrow> e = DivisionByZero \<and> (f = 0 \<or> t = 0)"
  by (auto simp: message_delay_def Let_def signed_eq_0_iff)

text \<open>The index stays below the number of clients, if that number is what \<^verbatim>\<open>mTotalClients\<close> holds.\<close>

lemma next_client_bounds:
  assumes "0 <s clients" and "0 \<le>s i" and "i <s clients"
  shows "0 \<le>s next_client clients i \<and> next_client clients i <s clients"
proof -
  have i: "0 \<le> sint i" "sint i < sint clients" using assms by (simp_all add: word_sless_alt word_sle_eq)
  then have "sint (i + 1) = sint i + 1"
    using sint_lt [of clients] by (simp add: sint_word_add signed_take_bit_int_eq_self)
  then show ?thesis using assms(1) i by (auto simp: next_client_def Let_def word_sless_alt word_sle_eq)
qed

text \<open>Every message of the OSC thread fits into the receiver's buffer.\<close>

lemma mock_message_fits:
  assumes "length draws = 6"
  shows "length (enc_tree (TBundle BeginBundleImmediate [message_tree (mock_message g clients i draws)])) \<le>
      MAX_BUFFER_SIZE"
    and "plain_address (mock_message g clients i draws)"
proof -
  obtain a b c d e f where "draws = [a, b, c, d, e, f]"
    using assms by (auto simp: numeral_eq_Suc length_Suc_conv)
  then show "length (enc_tree (TBundle BeginBundleImmediate [message_tree (mock_message g clients i draws)])) \<le>
      MAX_BUFFER_SIZE"
    and "plain_address (mock_message g clients i draws)"
    by (simp_all add: mock_message_def Let_def setAddress_def new_Message_def addIntArg_def addFloatArg_def
        addStringArg_def message_tree_def length_enc_bundle length_enc_message length_enc_args roundup4_def
        MAX_BUFFER_SIZE_def plain_address_def c_str_def byte_of_values)
qed

text \<open>The messages of the OSC thread, turn by turn.\<close>

fun mock_messages :: "int32 \<Rightarrow> int32 \<Rightarrow> osc_turn list \<Rightarrow> osc_message list" where
  "mock_messages clients i [] = []"
| "mock_messages clients i (t # turns) =
     mock_message (turn_port t) clients i (turn_draws t) # mock_messages clients (next_client clients i) turns"

lemma length_mock_messages [simp]: "length (mock_messages clients i turns) = length turns"
  by (induction turns arbitrary: i) auto

lemma osc_loop_sends:
  assumes "list_all osc_running turns"
    and "map (\<lambda>(b, x). sendMessage b x (mOscSender m))
        (zip (map turn_stack turns) (mock_messages (mTotalClients m) i turns)) = map (\<lambda>d. Inr (p, d)) ds"
  shows "osc_loop turns i m = (map (Pair p) ds, None)"
  using assms
proof (induction turns arbitrary: i ds)
  case (Cons t turns)
  then obtain d ds' where "ds = d # ds'" by (cases ds) auto
  then show ?case using Cons by (auto split: sum.splits)
qed simp

definition good_turn :: "osc_turn \<Rightarrow> bool" where
  "good_turn t \<longleftrightarrow> osc_running t \<and> length (turn_stack t) = MESSAGE_BUFFER_SIZE \<and> length (turn_draws t) = 6"

lemma mock_messages_fit:
  assumes "list_all good_turn turns" and "(b, x) \<in> set (zip (map turn_stack turns) (mock_messages clients i turns))"
  shows "length b = MESSAGE_BUFFER_SIZE \<and> plain_address x \<and>
    length (enc_tree (TBundle BeginBundleImmediate [message_tree x])) \<le> MAX_BUFFER_SIZE"
  using assms
proof (induction turns arbitrary: i)
  case (Cons t turns)
  then show ?case
    using mock_message_fits [of "turn_draws t" "turn_port t" clients i]
    by (auto simp: good_turn_def simp del: enc_tree.simps)
qed simp

lemma osc_thread_delivered:
  assumes "socket (mOscSender m) = Some u" and "isConnected u" and "isBound r" and "list_all good_turn turns"
  shows "\<exists>ds. osc_loop turns i m = (map (Pair (peer u)) ds, None) \<and>
    receive_datagrams sender ds r g st = Some (fold deliver_message
      (map (arrived (from_endpoint sender)) (mock_messages (mTotalClients m) i turns)) st, None)"
proof -
  let ?ms = "zip (map turn_stack turns) (mock_messages (mTotalClients m) i turns)"
  have "\<forall>(b, x)\<in>set ?ms. length b = MESSAGE_BUFFER_SIZE \<and> plain_address x \<and>
      length (enc_tree (TBundle BeginBundleImmediate [message_tree x])) \<le> MAX_BUFFER_SIZE"
    using mock_messages_fit [OF assms(4)] by blast
  from messages_end_to_end [OF assms(1-3) this] obtain ds where
    ds: "map (\<lambda>(b, x). sendMessage b x (mOscSender m)) ?ms = map (\<lambda>d. Inr (peer u, d)) ds"
      "receive_datagrams sender ds r g st =
        Some (fold deliver_message (map (arrived (from_endpoint sender)) (map snd ?ms)) st, None)" by blast
  have "list_all osc_running turns" using assms(4) by (auto simp: list_all_iff good_turn_def)
  from osc_loop_sends [OF this ds(1)] ds(2) show ?thesis by auto
qed

text \<open>The life of the mock: \<^verbatim>\<open>start\<close>, what the threads find, and the destructor.\<close>

lemma Sender_setup_connects:
  assumes "socket s = None"
  shows "\<exists>u. Sender_setup resolve True True g host port multicast s = (Inr (), s\<lparr>socket := Some u\<rparr>) \<and>
    isConnected u \<and> peer u = Some (SockaddrFromIpEndpointName (endpoint_name resolve (c_str host) port))"
  using assms
  by (simp add: Sender_setup_def UdpTransmitSocket_def new_UdpSocket_def Connect_def)
    (intro exI conjI, rule refl, simp_all)

lemma start_and_destroy:
  assumes "m = new_IosClientMock garbage config" and "0 <s totalClients config"
  shows "case IosClientMock_start debug ok resolve True True g config m of
      Done (m', r) \<Rightarrow> totalClients config = 1 \<and> r = Inr () \<and> mConfig m' = config \<and> mTotalClients m' = garbage \<and>
        mOscThread m' \<and> mXmppThread m' \<and>
        (\<exists>u. socket (mOscSender m') = Some u \<and> isConnected u) \<and>
        xmpp_turn 0 m' = Faulted UseAfterFree \<and> delete_IosClientMock Done m' = Faulted DoubleFree
    | Faulted e \<Rightarrow> 1 <s totalClients config \<and> e = DoubleFree
    | Blocked \<Rightarrow> False"
proof -
  have m: "mClients m = []" "capacity m = 0" "mConfig (m\<lparr>mConfig := config\<rparr>) = config"
    "fresh m \<notin> set (live m)" "mOscSender m = new_OscSender" "\<not> mOscThread m" "\<not> mXmppThread m" "mTotalClients m = garbage"
    by (simp_all add: assms(1) new_IosClientMock_def)
  have clear: "clear_clients (m\<lparr>mConfig := config\<rparr>) = Done (m\<lparr>mConfig := config\<rparr>)"
    using m(1) by (simp add: clear_clients_def)
  obtain u where u: "Sender_setup resolve True True g (config_server config) (oscPort config) False new_OscSender =
      (Inr (), new_OscSender\<lparr>socket := Some u\<rparr>)" "isConnected u"
    using Sender_setup_connects [of new_OscSender resolve g "config_server config" "oscPort config" False]
    by (auto simp: new_OscSender_def)
  show ?thesis
  proof (cases "totalClients config = 1")
    case True
    have one: "unat (scast (1 :: int32) :: ulong) = Suc 0" by simp
    show ?thesis
      using m u True
      by (simp add: IosClientMock_start_def clear one more_clients_def start_turn_first start_threads_def
          xmpp_turn_def delete_IosClientMock_def clear_clients_def destroy_client_def Let_def)
  next
    case False
    then have "sint (totalClients config) \<noteq> 1"
      using signed_word_eqI [of "totalClients config" 1] by auto
    then have "1 <s totalClients config" using assms(2) by (simp add: word_sless_alt)
    then show ?thesis
      using start_many_clients [of "m\<lparr>mConfig := config\<rparr>" debug ok] m
      by (simp add: IosClientMock_start_def clear)
  qed
qed

end
