(* ===== verification/MultiplexerSpec.thy ===== *)
theory MultiplexerSpec
  imports Multiplexer "HOL-Library.Multiset"
begin

text \<open>
  What \<^verbatim>\<open>SocketReceiveMultiplexer\<close> guarantees: its timer queue is ordered whenever \<^verbatim>\<open>select\<close> is
  given its first time, and a break that \<^verbatim>\<open>Run\<close> can see ends the loop after a bounded number of
  steps, without blocking.
\<close>

section \<open>The timer queue\<close>

text \<open>Where in the loop the queue has to be in order.\<close>

fun queue_ordered_at :: "run_pc \<Rightarrow> bool" where
  "queue_ordered_at LoopHead = True"
| "queue_ordered_at (InSelect t) = True"
| "queue_ordered_at (AfterSelect r p) = True"
| "queue_ordered_at (SocketLoop r l) = True"
| "queue_ordered_at TimerEntry = True"
| "queue_ordered_at (TimerLoop t i resort) = (\<not> resort)"
| "queue_ordered_at (TimersDone resort) = (\<not> resort)"
| "queue_ordered_at l = False"

definition timer_inv :: "'w mux_run \<Rightarrow> bool" where
  "timer_inv s \<longleftrightarrow> (queue_ordered_at (pc s) \<longrightarrow> sorted (map fst (timerQueue s)))"

lemma sorted_sort_calls [simp]: "sorted (map fst (sort_calls q))"
  by (simp add: sort_calls_def)

lemma goto_simps [simp]:
  "pc (goto l s) = l" "mux (goto l s) = mux s" "timerQueue (goto l s) = timerQueue s"
  "listeners_world (goto l s) = listeners_world s"
  by (simp_all add: goto_def)

lemma timer_inv_called:
  assumes "\<And>s'. timerQueue s' = timerQueue s \<Longrightarrow> timer_inv (continue s')"
  shows "timer_inv (called r continue s)"
  using assms by (auto simp: called_def timer_inv_def Let_def split: prod.split option.split)

lemma timer_inv_step:
  assumes "timer_inv s" and "run_step b a s = Some s'"
  shows "timer_inv s'"
proof (cases "pc s")
  case (SocketLoop ready l)
  then have q: "sorted (map fst (timerQueue s))" using assms(1) by (simp add: timer_inv_def)
  show ?thesis
  proof (cases l)
    case (Cons i rest)
    have c: "timer_inv (called r (\<lambda>s. if break_flag (mux s) then goto TimerEntry s
        else goto (SocketLoop ready rest) s) s)" for r
      by (rule timer_inv_called) (use q in \<open>simp add: timer_inv_def\<close>)
    have g: "timer_inv (goto l s)" for l using q by (simp add: timer_inv_def)
    from assms(2) SocketLoop Cons show ?thesis
      by (auto simp: run_step_def socket_step_def intro: c g split: sum.split prod.split option.split)
  qed (use assms(2) SocketLoop q in \<open>auto simp: run_step_def timer_inv_def\<close>)
next
  case (TimerLoop t i resort)
  have c: "timer_inv (called r (\<lambda>s. if break_flag (mux s) then goto (TimersDone resort) s
      else goto (TimerLoop t' j True) (f s)) s)" for r t' j f
    by (rule timer_inv_called) (use assms(1) TimerLoop in \<open>auto simp: timer_inv_def\<close>)
  have "timer_inv (goto (TimersDone resort) s)" using assms(1) TimerLoop by (simp add: timer_inv_def)
  with assms(2) TimerLoop show ?thesis
    by (auto simp: run_step_def timer_step_def intro: c split: if_splits prod.splits)
qed (use assms in \<open>auto simp: run_step_def timer_inv_def schedule_timers_def Let_def
      split: select_result.splits if_splits\<close>)

text \<open>The queue holds every timer that is attached, as often as it is attached, and no other.\<close>

definition timers_kept :: "'w mux_run \<Rightarrow> bool" where
  "timers_kept s \<longleftrightarrow> mset (map snd (timerQueue s)) = mset (timerListeners (mux s))"

lemma timers_kept_goto [simp]: "timers_kept (goto l s) = timers_kept s"
  by (simp add: timers_kept_def)

lemma timers_kept_called:
  assumes "timers_kept s" and "\<And>s'. timers_kept s' \<Longrightarrow> timerQueue s' = timerQueue s \<Longrightarrow> timers_kept (continue s')"
  shows "timers_kept (called r continue s)"
proof -
  obtain w breaks thrown where r: "r = (w, breaks, thrown)" by (cases r)
  let ?s = "s\<lparr>listeners_world := w, mux := (if breaks then Break (mux s) else mux s)\<rparr>"
  have "timers_kept ?s" using assms(1) by (simp add: timers_kept_def Break_def)
  with assms(2) [OF this] show ?thesis by (cases breaks; cases thrown) (simp_all add: called_def r Let_def)
qed

lemma timers_kept_sort: "image_mset snd (mset (sort_calls q)) = image_mset snd (mset q)"
  by (simp add: sort_calls_def)

lemma timers_kept_again:
  assumes "timers_kept s" and "timerQueue s = q" and "i < length q" and "snd (q ! i) = l"
  shows "timers_kept (s\<lparr>timerQueue := q[i := (t, l)]\<rparr>)"
proof -
  have "map snd (q[i := (t, l)]) = map snd q"
    using assms(3,4) by (simp add: map_update list_update_same_conv)
  with assms(1,2) show ?thesis by (simp add: timers_kept_def del: mset_map)
qed

lemma timers_kept_step:
  assumes "pc s = RunEntry \<or> timers_kept s" and "run_step b a s = Some s'"
  shows "timers_kept s'"
proof (cases "pc s")
  case RunEntry
  then show ?thesis
    using assms(2) by (auto simp: run_step_def timers_kept_def schedule_timers_def timers_kept_sort image_mset.compositionality comp_def)
next
  case (SocketLoop ready l)
  with assms have "timers_kept s" by simp
  with assms(2) SocketLoop show ?thesis
    by (cases l)
      (auto simp: run_step_def socket_step_def intro!: timers_kept_called split: sum.split prod.split option.split)
next
  case (TimerLoop t i resort)
  with assms(1) have k: "timers_kept s" by simp
  show ?thesis
  proof (cases "i < length (timerQueue s) \<and> fst (timerQueue s ! i) \<le> t")
    case True
    then have "timers_kept (timer_step b t i resort s)"
      using k by (auto simp: timer_step_def intro!: timers_kept_called timers_kept_again split: prod.split)
    then show ?thesis using assms(2) TimerLoop True by (simp add: run_step_def)
  qed (use assms(2) TimerLoop k in \<open>auto simp: run_step_def split: if_split_asm\<close>)
qed (use assms in \<open>auto simp: run_step_def timers_kept_def timers_kept_sort Let_def split: select_result.splits if_splits\<close>)

section \<open>Attaching and detaching\<close>

lemma attach_detach_socket:
  assumes "AttachSocketListener u l m = Inr m'"
  shows "DetachSocketListener u l m' = Inr m"
  using assms
  by (auto simp: AttachSocketListener_def DetachSocketListener_def remove1_append split: if_splits)

lemma erase_timer_append:
  "\<forall>t\<in>set ts. timer_listener t \<noteq> l \<Longrightarrow> timer_listener t = l \<Longrightarrow> erase_timer l (ts @ [t]) = Some ts"
  by (induction ts) auto

lemma erase_timer_None: "erase_timer l ts = None \<longleftrightarrow> l \<notin> timer_listener ` set ts"
  by (induction ts) auto

section \<open>A break ends the loop\<close>

fun run_ended :: "run_pc \<Rightarrow> bool" where
  "run_ended RunReturned = True"
| "run_ended (RunThrew e) = True"
| "run_ended RunStuck = True"
| "run_ended l = False"

text \<open>An upper bound on the steps the loop still makes once \<^verbatim>\<open>break_\<close> is set.\<close>

fun steps_left :: "run_pc \<Rightarrow> nat" where
  "steps_left LoopHead = 1"
| "steps_left (InSelect t) = 2"
| "steps_left (AfterSelect r p) = 1"
| "steps_left (SocketLoop r l) = length l + 5"
| "steps_left TimerEntry = 4"
| "steps_left (TimerLoop t i resort) = 3"
| "steps_left (TimersDone resort) = 2"
| "steps_left l = 0"

lemma break_flag_called:
  assumes "break_flag (mux s)"
    and "\<And>s'. mux s' = mux s \<or> mux s' = Break (mux s) \<Longrightarrow> break_flag (mux s') \<Longrightarrow>
      Q (continue s')" and "\<And>s' err. break_flag (mux s') \<Longrightarrow> mux s' = mux s \<or> mux s' = Break (mux s) \<Longrightarrow> Q (goto (RunThrew err) s')"
  shows "Q (called r continue s)"
  using assms by (auto simp: called_def Let_def Break_def split: prod.split option.split)

text \<open>The state of a loop that has seen a break: it can make a step and comes nearer to its end.\<close>

definition nearer :: "'w mux_run \<Rightarrow> 'w mux_run \<Rightarrow> bool" where
  "nearer s s' \<longleftrightarrow> break_flag (mux s') \<and> pc s' \<noteq> RunEntry \<and>
     (run_ended (pc s') \<or> (steps_left (pc s') < steps_left (pc s) \<and> break_pipe (mux s') = break_pipe (mux s)))"

lemma break_step:
  assumes "break_flag (mux s)" and "pc s \<noteq> RunEntry" and "\<not> run_ended (pc s)" and "0 < break_pipe (mux s)"
  shows "\<exists>s'. run_step b a s = Some s' \<and> nearer s s'"
proof (cases "pc s")
  case (SocketLoop ready l)
  show ?thesis
  proof (cases l)
    case (Cons i rest)
    have c: "nearer s (called r (\<lambda>s. if break_flag (mux s) then goto TimerEntry s
        else goto (SocketLoop ready rest) s) s)" for r
      by (rule break_flag_called [OF assms(1)])
        (auto simp: nearer_def SocketLoop Cons Break_def)
    have "nearer s (goto (SocketLoop ready rest) s)" "nearer s (goto (RunThrew e) s)"
      "nearer s (goto RunStuck s)" for e
      using assms(1) by (simp_all add: nearer_def SocketLoop Cons)
    with c have "nearer s (socket_step b a ready i rest s)"
      by (simp add: socket_step_def split: sum.split prod.split option.split)
    then show ?thesis using SocketLoop Cons by (simp add: run_step_def)
  qed (use assms SocketLoop in \<open>simp add: run_step_def nearer_def\<close>)
next
  case (TimerLoop t i resort)
  have c: "nearer s (called r (\<lambda>s. if break_flag (mux s) then goto (TimersDone resort) s
      else goto (TimerLoop t' j True) (f s)) s)" for r t' j f
    by (rule break_flag_called [OF assms(1)]) (auto simp: nearer_def TimerLoop Break_def)
  have "nearer s (goto (TimersDone resort) s)" using assms(1) TimerLoop by (simp add: nearer_def)
  then show ?thesis
    using TimerLoop c by (auto simp: run_step_def timer_step_def split: prod.split)
qed (use assms in \<open>auto simp: run_step_def nearer_def split: select_result.splits\<close>)

text \<open>The steps of one thread with the answers \<open>as\<close>; \<open>None\<close> when it blocks.\<close>

fun run_steps :: "'w behaviour \<Rightarrow> answer list \<Rightarrow> 'w mux_run \<Rightarrow> 'w mux_run option" where
  "run_steps b [] s = Some s"
| "run_steps b (a # answers) s =
     (if run_ended (pc s) then Some s else Option.bind (run_step b a s) (run_steps b answers))"

lemma run_steps_invariant:
  assumes "run_steps b answers s = Some s'" and "P s" and "\<And>a s s'. P s \<Longrightarrow> run_step b a s = Some s' \<Longrightarrow> P s'"
  shows "P s'"
  using assms(1,2)
  by (induction answers arbitrary: s)
    (auto simp: bind_eq_Some_conv split: if_split_asm intro: assms(3))

lemma timers_reached:
  assumes "pc s = RunEntry" and "run_steps b answers s = Some s'"
  shows "(queue_ordered_at (pc s') \<longrightarrow> sorted (map fst (timerQueue s'))) \<and> (pc s' = RunEntry \<or> timers_kept s')"
proof -
  have "timer_inv s \<and> (pc s = RunEntry \<or> timers_kept s)" using assms(1) by (simp add: timer_inv_def)
  with assms(2) have "timer_inv s' \<and> (pc s' = RunEntry \<or> timers_kept s')"
    by (rule run_steps_invariant) (blast intro: timer_inv_step timers_kept_step)
  then show ?thesis by (simp add: timer_inv_def)
qed

lemma run_steps_ended: "run_ended (pc s) \<Longrightarrow> run_steps b answers s = Some s"
  by (cases answers) auto

lemma break_ends_run:
  assumes "break_flag (mux s)" and "pc s \<noteq> RunEntry" and "0 < break_pipe (mux s)"
    and "steps_left (pc s) \<le> length answers"
  shows "\<exists>s'. run_steps b answers s = Some s' \<and> run_ended (pc s')"
  using assms
proof (induction answers arbitrary: s)
  case Nil
  then have "run_ended (pc s)" by (cases "pc s") auto
  then show ?case by simp
next
  case (Cons a answers)
  show ?case
  proof (cases "run_ended (pc s)")
    case False
    with break_step [OF Cons.prems(1,2) False Cons.prems(3)] obtain s'
      where s': "run_step b a s = Some s'" "nearer s s'" by blast
    show ?thesis
    proof (cases "run_ended (pc s')")
      case True
      then show ?thesis using s'(1) False by (simp add: run_steps_ended)
    next
      case next_step: False
      have "\<exists>s''. run_steps b answers s' = Some s'' \<and> run_ended (pc s'')"
        using s'(2) Cons.prems next_step by (intro Cons.IH) (auto simp: nearer_def)
      then show ?thesis using s'(1) False by simp
    qed
  qed simp
qed

end
