(* ===== verification/ListenerThread.thy ===== *)
theory ListenerThread
  imports OscListenerSpec MultiplexerSpec
begin

text \<open>
  The life of a listener: \<^verbatim>\<open>setup\<close>, \<^verbatim>\<open>shutdown\<close> and \<^verbatim>\<open>threadSocket\<close> of \<^verbatim>\<open>OscListener\<close>
  (\<^verbatim>\<open>product/source/OscListener.cpp\<close>) over \<^verbatim>\<open>UdpListeningReceiveSocket\<close>
  (\<^verbatim>\<open>product/source/ip/UdpSocket.h\<close>).  The client's thread and the receiving thread take turns in any
  order: a step relation on the state of both.
\<close>

section \<open>The listening socket\<close>

text \<open>
  The constructor: the base \<^verbatim>\<open>UdpSocket\<close>, the member \<^verbatim>\<open>mux_\<close>, then \<^verbatim>\<open>Bind\<close> and the attachment of
  the one listener, number 0, to this socket, number 0.
\<close>

definition UdpListeningReceiveSocket ::
    "ip_endpoint \<Rightarrow> bool \<Rightarrow> bool \<Rightarrow> bool \<Rightarrow> bool \<Rightarrow> sockaddr \<Rightarrow> osc_error + (udp_socket \<times> multiplexer)" where
  "UdpListeningReceiveSocket localEndpoint socket_ok pipe_ok bind_ok garbage_flag garbage =
     ebind (new_UdpSocket socket_ok garbage) (\<lambda>u.
     ebind (new_Multiplexer pipe_ok garbage_flag) (\<lambda>m.
       let (r, u) = Bind localEndpoint bind_ok u in
       ebind r (\<lambda>_. ebind (AttachSocketListener 0 0 m) (\<lambda>m. Inr (u, m)))))"

text \<open>The destructor detaches the listener.\<close>

definition delete_UdpListeningReceiveSocket :: "multiplexer \<Rightarrow> osc_error + multiplexer" where
  "delete_UdpListeningReceiveSocket m = DetachSocketListener 0 0 m"

text \<open>What the receiving thread calls: the listener neither breaks the loop nor has timers.\<close>

definition osc_behaviour :: "int32 \<Rightarrow> udp_socket \<Rightarrow> 'w osc_listener behaviour" where
  "osc_behaviour garbage u =
     \<lparr>on_packet = \<lambda>l data ep w.
        map_option (\<lambda>(w', thrown). (w', False, thrown))
          (ProcessPacket data (of_nat (length data)) (ProcessMessage data ep garbage) w),
      on_timer = \<lambda>l w. (w, False, None),
      sockets = \<lambda>k. u\<rparr>"

section \<open>The two threads\<close>

datatype client_pc =
    ClientIdle
  | CreateSocket int32
  | SetBreak
  | WritePipe
  | AwaitShutdown
  | JoinThread
  | DeleteSocket

datatype thread_pc = NoThread | ThreadRuns | ThreadEnded

text \<open>
  \<open>socket_live\<close>: \<^verbatim>\<open>mListen_socket\<close> is not null.  \<open>reopen\<close> is the port of the \<^verbatim>\<open>setup\<close> that a running
  \<^verbatim>\<open>shutdown\<close> was called from.
\<close>

record 'w life =
  client :: client_pc
  reopen :: "int32 option"
  socket_live :: bool
  receiver :: udp_socket
  run :: "'w osc_listener mux_run"
  thread :: thread_pc
  socketHasShutdown :: bool

text \<open>An exception that leaves the receiving thread, or a stuck handler, ends the program or its thread.\<close>

fun run_alive :: "run_pc \<Rightarrow> bool" where
  "run_alive (RunThrew e) = False"
| "run_alive l = True"

definition start_run :: "multiplexer \<Rightarrow> 'w osc_listener mux_run \<Rightarrow> 'w osc_listener mux_run" where
  "start_run m r = r\<lparr>mux := m, pc := RunEntry, timerQueue := []\<rparr>"

inductive life_step :: "int32 \<Rightarrow> 'w life \<Rightarrow> 'w life \<Rightarrow> bool" for garbage :: int32 where
  call_setup:
    "client s = ClientIdle \<Longrightarrow> \<not> socket_live s \<Longrightarrow> run_alive (pc (run s)) \<Longrightarrow>
     life_step garbage s (s\<lparr>client := CreateSocket port\<rparr>)"
| call_setup_again:
    "client s = ClientIdle \<Longrightarrow> socket_live s \<Longrightarrow> run_alive (pc (run s)) \<Longrightarrow>
     life_step garbage s (s\<lparr>client := SetBreak, reopen := Some port\<rparr>)"
| create_socket:
    "client s = CreateSocket port \<Longrightarrow>
     UdpListeningReceiveSocket (endpoint_address ANY_ADDRESS port) True True True flag addr = Inr (u, m) \<Longrightarrow>
     life_step garbage s
       (s\<lparr>client := ClientIdle, socketHasShutdown := False, socket_live := True, receiver := u,
          run := start_run m (run s), thread := ThreadRuns\<rparr>)"
| create_fails:
    "client s = CreateSocket port \<Longrightarrow>
     UdpListeningReceiveSocket (endpoint_address ANY_ADDRESS port) socket_ok pipe_ok bind_ok flag addr = Inl err \<Longrightarrow>
     life_step garbage s (s\<lparr>client := ClientIdle, socketHasShutdown := False\<rparr>)"
| call_shutdown:
    "client s = ClientIdle \<Longrightarrow> socket_live s \<Longrightarrow> run_alive (pc (run s)) \<Longrightarrow>
     life_step garbage s (s\<lparr>client := SetBreak, reopen := None\<rparr>)"
| set_break:
    "client s = SetBreak \<Longrightarrow> run_alive (pc (run s)) \<Longrightarrow>
     life_step garbage s
       (s\<lparr>client := WritePipe, run := (run s)\<lparr>mux := Break (mux (run s))\<rparr>\<rparr>)"
| write_pipe:
    "client s = WritePipe \<Longrightarrow> run_alive (pc (run s)) \<Longrightarrow>
     life_step garbage s
       (s\<lparr>client := AwaitShutdown, run := (run s)\<lparr>mux := write_break_pipe (mux (run s))\<rparr>\<rparr>)"
| await_shutdown:
    "client s = AwaitShutdown \<Longrightarrow> socketHasShutdown s \<Longrightarrow> run_alive (pc (run s)) \<Longrightarrow>
     life_step garbage s (s\<lparr>client := JoinThread\<rparr>)"
| join_thread:
    "client s = JoinThread \<Longrightarrow> thread s = ThreadEnded \<Longrightarrow>
     life_step garbage s (s\<lparr>client := DeleteSocket, thread := NoThread\<rparr>)"
| delete_socket:
    "client s = DeleteSocket \<Longrightarrow> delete_UdpListeningReceiveSocket (mux (run s)) = Inr m \<Longrightarrow>
     life_step garbage s
       (s\<lparr>client := (case reopen s of None \<Rightarrow> ClientIdle | Some port \<Rightarrow> CreateSocket port),
          reopen := None, socket_live := False, run := (run s)\<lparr>mux := m\<rparr>\<rparr>)"
| thread_runs:
    "thread s = ThreadRuns \<Longrightarrow> run_step (osc_behaviour garbage (receiver s)) a (run s) = Some r \<Longrightarrow>
     life_step garbage s (s\<lparr>run := r\<rparr>)"
| thread_ends:
    "thread s = ThreadRuns \<Longrightarrow> pc (run s) = RunReturned \<Longrightarrow>
     life_step garbage s (s\<lparr>socketHasShutdown := True, thread := ThreadEnded\<rparr>)"
| client_polls:
    "client s = ClientIdle \<Longrightarrow> run_alive (pc (run s)) \<Longrightarrow>
     getNextMessage message (listeners_world (run s)) = Inr (there, message', w) \<Longrightarrow>
     life_step garbage s (s\<lparr>run := (run s)\<lparr>listeners_world := w\<rparr>\<rparr>)"

abbreviation life_steps :: "int32 \<Rightarrow> 'w life \<Rightarrow> 'w life \<Rightarrow> bool" where
  "life_steps garbage \<equiv> (life_step garbage)\<^sup>*\<^sup>*"

text \<open>The state after the constructor of \<^verbatim>\<open>OscListener\<close>, with no socket; \<open>w\<close> is its queue.\<close>

definition initial_life :: "'w osc_listener \<Rightarrow> bool \<Rightarrow> udp_socket \<Rightarrow> 'w life" where
  "initial_life w flag u =
     \<lparr>client = ClientIdle, reopen = None, socket_live = False, receiver = u,
      run = \<lparr>mux = \<lparr>socketListeners = [], timerListeners = [], break_flag = False, break_pipe = 0\<rparr>,
             pc = RunReturned, timerQueue = [], listeners_world = w\<rparr>,
      thread = NoThread, socketHasShutdown = flag\<rparr>"

end
