(* ===== verification/ListenerThreadSpec.thy ===== *)
theory ListenerThreadSpec
  imports ListenerThread
begin

text \<open>
  The life of a listener: in every interleaving the socket outlives the receiving thread; a
  \<^verbatim>\<open>shutdown\<close> whose break \<^verbatim>\<open>Run\<close> can see returns; one whose break comes before \<^verbatim>\<open>Run\<close> has started is
  lost and the client waits for ever.
\<close>

section \<open>The socket outlives the thread\<close>

definition shutting_down :: "client_pc \<Rightarrow> bool" where
  "shutting_down c \<longleftrightarrow> c \<in> {SetBreak, WritePipe, AwaitShutdown, JoinThread, DeleteSocket}"

definition life_inv :: "'w life \<Rightarrow> bool" where
  "life_inv s \<longleftrightarrow>
     (thread s \<noteq> NoThread \<longrightarrow> socket_live s) \<and>
     (shutting_down (client s) \<longrightarrow> socket_live s) \<and>
     (\<forall>port. client s = CreateSocket port \<longrightarrow> \<not> socket_live s) \<and>
     (client s = DeleteSocket \<longrightarrow> thread s = NoThread) \<and>
     (socket_live s \<and> client s \<noteq> DeleteSocket \<longrightarrow> thread s \<noteq> NoThread) \<and>
     (socket_live s \<and> socketHasShutdown s \<longrightarrow> thread s \<noteq> ThreadRuns) \<and>
     (client s = JoinThread \<longrightarrow> thread s = ThreadEnded) \<and>
     (socket_live s \<and> thread s \<noteq> ThreadRuns \<longrightarrow> pc (run s) = RunReturned) \<and>
     (socket_live s \<longrightarrow> socketListeners (mux (run s)) = [(0, 0)])"

lemma called_listeners:
  assumes "\<And>s'. socketListeners (mux s') = socketListeners (mux s) \<Longrightarrow>
    socketListeners (mux (continue s')) = socketListeners (mux s)"
  shows "socketListeners (mux (called r continue s)) = socketListeners (mux s)"
  using assms by (auto simp: called_def Break_def Let_def split: prod.split option.split)

lemma run_step_listeners:
  assumes "run_step b a s = Some s'"
  shows "socketListeners (mux s') = socketListeners (mux s)"
proof (cases "pc s")
  case (SocketLoop ready l)
  have c: "socketListeners (mux (called r (\<lambda>s. if break_flag (mux s) then goto TimerEntry s
      else goto (SocketLoop ready rest) s) s)) = socketListeners (mux s)" for r rest
    by (rule called_listeners) simp
  show ?thesis
  proof (cases l)
    case (Cons i rest)
    have "socketListeners (mux (socket_step b a ready i rest s)) = socketListeners (mux s)"
      using c by (simp add: socket_step_def split: sum.split prod.split option.split)
    then show ?thesis using assms SocketLoop Cons by (auto simp: run_step_def)
  qed (use assms SocketLoop in \<open>auto simp: run_step_def\<close>)
next
  case (TimerLoop t i resort)
  have c: "socketListeners (mux (called r (\<lambda>s. if break_flag (mux s) then goto (TimersDone resort) s
      else goto (TimerLoop t' j True) (s\<lparr>timerQueue := f s\<rparr>)) s)) = socketListeners (mux s)" for r t' j f
    by (rule called_listeners) simp
  have "socketListeners (mux (timer_step b t i resort s)) = socketListeners (mux s)"
    by (cases "timerQueue s ! i") (simp add: timer_step_def c)
  with assms TimerLoop show ?thesis
    by (auto simp: run_step_def split: if_splits)
qed (use assms in \<open>auto simp: run_step_def Let_def split: select_result.splits if_splits\<close>)

lemma run_step_not_returned: "run_step b a s = Some s' \<Longrightarrow> pc s \<noteq> RunReturned"
  by (auto simp: run_step_def)

lemma create_socket_ok:
  "UdpListeningReceiveSocket e a b c flag addr = Inr (u, m) \<Longrightarrow>
   socketListeners m = [(0, 0)] \<and> break_pipe m = 0"
  by (auto simp: UdpListeningReceiveSocket_def new_UdpSocket_def new_Multiplexer_def Bind_def
      AttachSocketListener_def split: if_splits)

lemma life_inv_step:
  assumes "life_step g s s'" and "life_inv s"
  shows "life_inv s'"
  using assms
proof (cases rule: life_step.cases)
  case (thread_runs a r)
  then show ?thesis
    using assms(2) run_step_listeners [of _ a "run s" r] run_step_not_returned [of _ a "run s" r]
    by (auto simp: life_inv_def shutting_down_def)
next
  case await_shutdown
  then show ?thesis
    using assms(2) by (cases "thread s") (auto simp: life_inv_def shutting_down_def)
next
  case (delete_socket m)
  then show ?thesis
    using assms(2) by (auto simp: life_inv_def shutting_down_def split: option.split)
qed (auto simp: life_inv_def shutting_down_def Break_def write_break_pipe_def start_run_def
    dest: create_socket_ok)

lemma life_inv_reachable:
  assumes "life_steps g (initial_life w flag u) s"
  shows "life_inv s"
  using assms
proof (induction rule: rtranclp_induct)
  case base
  show ?case by (simp add: life_inv_def initial_life_def shutting_down_def)
next
  case (step s s')
  then show ?case by (blast intro: life_inv_step)
qed

text \<open>The destructor's assertion holds.\<close>

lemma delete_ok:
  "life_inv s \<Longrightarrow> client s = DeleteSocket \<Longrightarrow>
   \<exists>m. delete_UdpListeningReceiveSocket (mux (run s)) = Inr m"
  by (auto simp: life_inv_def shutting_down_def delete_UdpListeningReceiveSocket_def DetachSocketListener_def)

section \<open>A break that is lost\<close>

definition lost_break :: "'w life \<Rightarrow> bool" where
  "lost_break s \<longleftrightarrow>
     client s = AwaitShutdown \<and> thread s = ThreadRuns \<and> \<not> socketHasShutdown s \<and>
     \<not> break_flag (mux (run s)) \<and> pc (run s) \<noteq> RunReturned"

lemma called_no_break:
  assumes "\<not> break_flag (mux s)"
    and "\<And>s'. \<not> break_flag (mux s') \<Longrightarrow> \<not> break_flag (mux (continue s')) \<and> pc (continue s') \<noteq> RunReturned"
  shows "\<not> break_flag (mux (called (w, False, t) continue s)) \<and>
    pc (called (w, False, t) continue s) \<noteq> RunReturned"
  using assms by (auto simp: called_def Let_def split: option.split)

lemma no_break_step:
  assumes "run_step (osc_behaviour g u) a s = Some s'" and "\<not> break_flag (mux s)"
  shows "\<not> break_flag (mux s') \<and> pc s' \<noteq> RunReturned"
proof (cases "pc s")
  case (SocketLoop ready l)
  show ?thesis
  proof (cases l)
    case (Cons i rest)
    let ?c = "\<lambda>s. if break_flag (mux s) then goto TimerEntry s else goto (SocketLoop ready rest) s"
    have c: "\<not> break_flag (mux (called (w, False, t) ?c s)) \<and> pc (called (w, False, t) ?c s) \<noteq> RunReturned"
      for w t by (rule called_no_break [OF assms(2)]) simp
    have "\<not> break_flag (mux (socket_step (osc_behaviour g u) a ready i rest s)) \<and>
        pc (socket_step (osc_behaviour g u) a ready i rest s) \<noteq> RunReturned"
      using c assms(2)
      by (auto simp: socket_step_def osc_behaviour_def split: sum.split prod.split option.split)
    then show ?thesis using assms SocketLoop Cons by (auto simp: run_step_def)
  qed (use assms SocketLoop in \<open>auto simp: run_step_def\<close>)
next
  case (TimerLoop t i resort)
  have c: "\<not> break_flag (mux (called (w, False, x) (\<lambda>s. if break_flag (mux s) then goto (TimersDone resort) s
        else goto (TimerLoop t' j True) (s\<lparr>timerQueue := f s\<rparr>)) s)) \<and>
      pc (called (w, False, x) (\<lambda>s. if break_flag (mux s) then goto (TimersDone resort) s
        else goto (TimerLoop t' j True) (s\<lparr>timerQueue := f s\<rparr>)) s) \<noteq> RunReturned" for w x t' j f
    by (rule called_no_break [OF assms(2)]) simp
  have "\<not> break_flag (mux (timer_step (osc_behaviour g u) t i resort s)) \<and>
      pc (timer_step (osc_behaviour g u) t i resort s) \<noteq> RunReturned"
    by (cases "timerQueue s ! i") (simp add: timer_step_def osc_behaviour_def c)
  with assms TimerLoop show ?thesis
    by (auto simp: run_step_def split: if_splits)
qed (use assms in \<open>auto simp: run_step_def Let_def split: select_result.splits if_splits\<close>)

lemma lost_break_step:
  assumes "life_step g s s'" and "lost_break s"
  shows "lost_break s'"
  using assms
proof (cases rule: life_step.cases)
  case (thread_runs a r)
  then show ?thesis using assms(2) no_break_step [of g "receiver s" a "run s" r] by (auto simp: lost_break_def)
qed (auto simp: lost_break_def)

lemma lost_break_forever: "life_steps g s s' \<Longrightarrow> lost_break s \<Longrightarrow> lost_break s'"
  by (induction rule: rtranclp_induct) (auto intro: lost_break_step)

text \<open>\<^verbatim>\<open>setup\<close>, then \<^verbatim>\<open>shutdown\<close> before the new thread gets to run.\<close>

lemma lost_break_reachable:
  "\<exists>s. life_steps g (initial_life w flag u) s \<and> lost_break s"
proof -
  let ?s0 = "initial_life w flag u"
  let ?s1 = "?s0\<lparr>client := CreateSocket 0\<rparr>"
  obtain v m where sock: "UdpListeningReceiveSocket (endpoint_address ANY_ADDRESS 0) True True True False
      \<lparr>sin_addr = 0, sin_port = 0\<rparr> = Inr (v, m)"
    by (auto simp: UdpListeningReceiveSocket_def new_UdpSocket_def new_Multiplexer_def Bind_def
        AttachSocketListener_def)
  let ?s2 = "?s1\<lparr>client := ClientIdle, socketHasShutdown := False, socket_live := True, receiver := v,
      run := start_run m (run ?s1), thread := ThreadRuns\<rparr>"
  let ?s3 = "?s2\<lparr>client := SetBreak, reopen := None\<rparr>"
  let ?s4 = "?s3\<lparr>client := WritePipe, run := (run ?s3)\<lparr>mux := Break (mux (run ?s3))\<rparr>\<rparr>"
  let ?s5 = "?s4\<lparr>client := AwaitShutdown, run := (run ?s4)\<lparr>mux := write_break_pipe (mux (run ?s4))\<rparr>\<rparr>"
  let ?a = "\<lparr>now = (0, 0), selected = SelectFailed, datagram = None\<rparr>"
  obtain r where r: "run_step (osc_behaviour g (receiver ?s5)) ?a (run ?s5) = Some r"
    "pc r = LoopHead" "\<not> break_flag (mux r)"
    by (simp add: start_run_def run_step_def goto_def)
  have "life_step g ?s0 ?s1" by (rule call_setup) (simp_all add: initial_life_def)
  moreover have "life_step g ?s1 ?s2" by (rule create_socket [OF _ sock]) simp
  moreover have "life_step g ?s2 ?s3" by (rule call_shutdown) (simp_all add: start_run_def)
  moreover have "life_step g ?s3 ?s4" by (rule set_break) (simp_all add: start_run_def)
  moreover have "life_step g ?s4 ?s5" by (rule write_pipe) (simp_all add: start_run_def)
  moreover have "life_step g ?s5 (?s5\<lparr>run := r\<rparr>)" by (rule thread_runs [OF _ r(1)]) simp
  ultimately have "life_steps g ?s0 (?s5\<lparr>run := r\<rparr>)" by (meson converse_rtranclp_into_rtranclp rtranclp.rtrancl_refl)
  moreover have "lost_break (?s5\<lparr>run := r\<rparr>)" using r by (simp add: lost_break_def)
  ultimately show ?thesis by blast
qed

section \<open>A break that is seen\<close>

lemma run_same: "run s = r \<Longrightarrow> s\<lparr>run := r\<rparr> = s"
  by (cases s) simp

lemma run_steps_life:
  "run_steps (osc_behaviour g (receiver s)) answers (run s) = Some r \<Longrightarrow> thread s = ThreadRuns \<Longrightarrow>
   life_steps g s (s\<lparr>run := r\<rparr>)"
proof (induction answers arbitrary: s)
  case (Cons a answers)
  show ?case
  proof (cases "run_ended (pc (run s))")
    case False
    then obtain r1 where r1: "run_step (osc_behaviour g (receiver s)) a (run s) = Some r1"
        "run_steps (osc_behaviour g (receiver s)) answers r1 = Some r"
      using Cons.prems(1) by (auto simp: bind_eq_Some_conv)
    have "life_step g s (s\<lparr>run := r1\<rparr>)" by (rule thread_runs [OF Cons.prems(2) r1(1)])
    moreover have "life_steps g (s\<lparr>run := r1\<rparr>) (s\<lparr>run := r1\<rparr>\<lparr>run := r\<rparr>)"
      using r1(2) Cons.prems(2) by (intro Cons.IH) simp_all
    ultimately show ?thesis by (simp add: converse_rtranclp_into_rtranclp)
  qed (use Cons.prems(1) in \<open>simp add: run_same\<close>)
qed (simp add: run_same)

text \<open>After the loop has returned, nothing keeps \<^verbatim>\<open>shutdown\<close> from returning.\<close>

lemma shutdown_after_return:
  assumes "life_inv s" and "client s = AwaitShutdown" and "reopen s = None" and "thread s = ThreadRuns"
    and "pc (run s) = RunReturned"
  shows "\<exists>s'. life_steps g s s' \<and> client s' = ClientIdle \<and> \<not> socket_live s' \<and> thread s' = NoThread"
proof -
  let ?s1 = "s\<lparr>socketHasShutdown := True, thread := ThreadEnded\<rparr>"
  let ?s2 = "?s1\<lparr>client := JoinThread\<rparr>"
  let ?s3 = "?s2\<lparr>client := DeleteSocket, thread := NoThread\<rparr>"
  have 1: "life_step g s ?s1" by (rule thread_ends [OF assms(4,5)])
  have 2: "life_step g ?s1 ?s2" by (rule await_shutdown) (use assms in simp_all)
  have 3: "life_step g ?s2 ?s3" by (rule join_thread) simp_all
  have "life_inv ?s3" using assms(1) 1 2 3 life_inv_step by blast
  then obtain m where m: "delete_UdpListeningReceiveSocket (mux (run ?s3)) = Inr m"
    using delete_ok [of ?s3] by auto
  let ?s4 = "?s3\<lparr>client := ClientIdle, reopen := None, socket_live := False, run := (run ?s3)\<lparr>mux := m\<rparr>\<rparr>"
  have 4: "life_step g ?s3 ?s4" using delete_socket [OF _ m] assms(3) by simp
  have "life_steps g s ?s4"
    using 1 2 3 4 by (meson converse_rtranclp_into_rtranclp r_into_rtranclp)
  then show ?thesis by (intro exI [of _ ?s4]) simp
qed

lemma shutdown_completes:
  assumes "life_inv s" and "client s = AwaitShutdown" and "reopen s = None" and "thread s = ThreadRuns"
    and "break_flag (mux (run s))" and "0 < break_pipe (mux (run s))" and "pc (run s) \<noteq> RunEntry"
    and "steps_left (pc (run s)) \<le> length answers"
  shows "\<exists>r. run_steps (osc_behaviour g (receiver s)) answers (run s) = Some r \<and>
    life_steps g s (s\<lparr>run := r\<rparr>) \<and>
    ((\<exists>e. pc r = RunThrew e) \<or> pc r = RunStuck \<or>
     (\<exists>s'. life_steps g (s\<lparr>run := r\<rparr>) s' \<and> client s' = ClientIdle \<and> \<not> socket_live s' \<and> thread s' = NoThread))"
proof -
  obtain r where r: "run_steps (osc_behaviour g (receiver s)) answers (run s) = Some r" "run_ended (pc r)"
    using break_ends_run [OF assms(5,7,6,8)] by blast
  have steps: "life_steps g s (s\<lparr>run := r\<rparr>)" by (rule run_steps_life [OF r(1) assms(4)])
  have inv: "life_inv (s\<lparr>run := r\<rparr>)"
    using steps assms(1) by (induction rule: rtranclp_induct) (auto intro: life_inv_step)
  have "pc r = RunReturned \<Longrightarrow> \<exists>s'. life_steps g (s\<lparr>run := r\<rparr>) s' \<and> client s' = ClientIdle \<and>
      \<not> socket_live s' \<and> thread s' = NoThread"
    using shutdown_after_return [OF inv] assms(2-4) by simp
  then show ?thesis using r steps by (cases "pc r") auto
qed

text \<open>\<^verbatim>\<open>setup\<close>, the thread's first step, then \<^verbatim>\<open>shutdown\<close>.\<close>

lemma seen_break_reachable:
  "\<exists>s. life_steps g (initial_life w flag u) s \<and> client s = AwaitShutdown \<and> reopen s = None \<and>
    thread s = ThreadRuns \<and> break_flag (mux (run s)) \<and> 0 < break_pipe (mux (run s)) \<and> pc (run s) = LoopHead"
proof -
  let ?s0 = "initial_life w flag u"
  let ?s1 = "?s0\<lparr>client := CreateSocket 0\<rparr>"
  obtain v m where sock: "UdpListeningReceiveSocket (endpoint_address ANY_ADDRESS 0) True True True False
      \<lparr>sin_addr = 0, sin_port = 0\<rparr> = Inr (v, m)"
    by (auto simp: UdpListeningReceiveSocket_def new_UdpSocket_def new_Multiplexer_def Bind_def
        AttachSocketListener_def)
  let ?s2 = "?s1\<lparr>client := ClientIdle, socketHasShutdown := False, socket_live := True, receiver := v,
      run := start_run m (run ?s1), thread := ThreadRuns\<rparr>"
  let ?a = "\<lparr>now = (0, 0), selected = SelectFailed, datagram = None\<rparr>"
  obtain r where r: "run_step (osc_behaviour g (receiver ?s2)) ?a (run ?s2) = Some r"
    "pc r = LoopHead" "\<not> break_flag (mux r)"
    by (simp add: start_run_def run_step_def goto_def)
  let ?s3 = "?s2\<lparr>run := r\<rparr>"
  let ?s4 = "?s3\<lparr>client := SetBreak, reopen := None\<rparr>"
  let ?s5 = "?s4\<lparr>client := WritePipe, run := (run ?s4)\<lparr>mux := Break (mux (run ?s4))\<rparr>\<rparr>"
  let ?s6 = "?s5\<lparr>client := AwaitShutdown, run := (run ?s5)\<lparr>mux := write_break_pipe (mux (run ?s5))\<rparr>\<rparr>"
  have "life_step g ?s0 ?s1" by (rule call_setup) (simp_all add: initial_life_def)
  moreover have "life_step g ?s1 ?s2" by (rule create_socket [OF _ sock]) simp
  moreover have "life_step g ?s2 ?s3" by (rule thread_runs [OF _ r(1)]) simp
  moreover have "life_step g ?s3 ?s4" by (rule call_shutdown) (simp_all add: r)
  moreover have "life_step g ?s4 ?s5" by (rule set_break) (simp_all add: r)
  moreover have "life_step g ?s5 ?s6" by (rule write_pipe) (simp_all add: r)
  ultimately have "life_steps g ?s0 ?s6"
    by (meson converse_rtranclp_into_rtranclp rtranclp.rtrancl_refl)
  then show ?thesis
    by (intro exI [of _ ?s6]) (simp add: r write_break_pipe_def Break_def)
qed

end
