(* ===== verification/RunUntilSigInt.thy ===== *)
theory RunUntilSigInt
  imports MultiplexerSpec
begin

text \<open>
  \<^verbatim>\<open>SocketReceiveMultiplexer::RunUntilSigInt\<close> and its signal handler
  (\<^verbatim>\<open>product/source/ip/posix/UdpSocket.cpp\<close>): a global pointer says which multiplexer the signal breaks.
  \<^verbatim>\<open>RunUntilSigInt\<close> is given in its parts before and after \<^verbatim>\<open>Run\<close>; an exception of \<^verbatim>\<open>Run\<close> skips the second.
\<close>

datatype signal_action = SIG_DFL | CallInterruptSignalHandler

record process =
  sigint_action :: signal_action
  multiplexerInstanceToAbortWithSigInt :: "nat option"

definition enter_RunUntilSigInt :: "nat \<Rightarrow> process \<Rightarrow> osc_error + process" where
  "enter_RunUntilSigInt this p =
     (if multiplexerInstanceToAbortWithSigInt p \<noteq> None then Inl AssertFailed
      else Inr (p\<lparr>multiplexerInstanceToAbortWithSigInt := Some this,
                  sigint_action := CallInterruptSignalHandler\<rparr>))"

definition leave_RunUntilSigInt :: "process \<Rightarrow> process" where
  "leave_RunUntilSigInt p = p\<lparr>sigint_action := SIG_DFL, multiplexerInstanceToAbortWithSigInt := None\<rparr>"

text \<open>\<open>muxes\<close> are the multiplexers by their addresses.\<close>

definition InterruptSignalHandler ::
    "process \<Rightarrow> (nat \<Rightarrow> multiplexer) \<Rightarrow> osc_error + (process \<times> (nat \<Rightarrow> multiplexer))" where
  "InterruptSignalHandler p muxes =
     (case multiplexerInstanceToAbortWithSigInt p of
        None \<Rightarrow> Inl Fault
      | Some k \<Rightarrow> Inr (p\<lparr>sigint_action := SIG_DFL\<rparr>, muxes(k := AsynchronousBreak (muxes k))))"

text \<open>The signal sets the break of the multiplexer that runs, and of no other.\<close>

lemma signal_breaks:
  assumes "enter_RunUntilSigInt this p = Inr p'"
  shows "InterruptSignalHandler p' muxes =
    Inr (p'\<lparr>sigint_action := SIG_DFL\<rparr>, muxes(this := AsynchronousBreak (muxes this)))"
  using assms by (auto simp: enter_RunUntilSigInt_def InterruptSignalHandler_def split: if_splits)

lemma asynchronous_break_ends_run:
  assumes "pc s \<noteq> RunEntry" and "steps_left (pc s) \<le> length answers"
  shows "\<exists>s'. run_steps b answers (s\<lparr>mux := AsynchronousBreak (mux s)\<rparr>) = Some s' \<and> run_ended (pc s')"
  using assms by (intro break_ends_run) (auto simp: AsynchronousBreak_def write_break_pipe_def)

text \<open>A run that returns can be repeated; after one that throws, the next one fails its assertion.\<close>

lemma run_again:
  assumes "enter_RunUntilSigInt this p = Inr p'"
  shows "\<exists>p''. enter_RunUntilSigInt that (leave_RunUntilSigInt p') = Inr p''"
    and "enter_RunUntilSigInt that p' = Inl AssertFailed"
    and "enter_RunUntilSigInt that (p'\<lparr>sigint_action := a\<rparr>) = Inl AssertFailed"
  using assms by (auto simp: enter_RunUntilSigInt_def leave_RunUntilSigInt_def split: if_splits)

end
