(* ===== verification/OscTyping.thy ===== *)
theory OscTyping
  imports OscReceivedSpec
begin

text \<open>
  The types of the arguments of an accepted message: every accessor of \<^verbatim>\<open>ReceivedMessageArgument\<close>
  gives the value of an argument of its type and throws \<^verbatim>\<open>WrongArgumentTypeException\<close> on all others,
  and the loop from \<^verbatim>\<open>ArgumentsBegin()\<close> to \<^verbatim>\<open>ArgumentsEnd()\<close> meets one argument for each type tag.
\<close>

section \<open>One argument\<close>

definition only :: "'a option \<Rightarrow> osc_error + 'a" where
  "only x = (case x of None \<Rightarrow> Inl WrongArgumentTypeException | Some y \<Rightarrow> Inr y)"

text \<open>Through a pointer, as \<^verbatim>\<open>AsString\<close>, \<^verbatim>\<open>AsSymbol\<close> and \<^verbatim>\<open>AsBlob\<close> give their values.\<close>

definition only_at :: "('p \<Rightarrow> osc_error + 'a) \<Rightarrow> 'a option \<Rightarrow> osc_error + 'p \<Rightarrow> bool" where
  "only_at rd x r = (ebind r rd = only x \<and> (x = None \<longrightarrow> r = Inl WrongArgumentTypeException))"

definition typed_argument :: "bytes \<Rightarrow> osc_value \<Rightarrow> received_argument \<Rightarrow> bool" where
  "typed_argument mem v a \<longleftrightarrow>
     TypeTag mem a = Inr (arg_tag v) \<and>
     AsBool mem a = only (case v of OBool x \<Rightarrow> Some x | _ \<Rightarrow> None) \<and>
     AsInt32 mem a = only (case v of OInt32 x \<Rightarrow> Some x | _ \<Rightarrow> None) \<and>
     AsFloat mem a = only (case v of OFloat x \<Rightarrow> Some x | _ \<Rightarrow> None) \<and>
     AsChar mem a = only (case v of OChar x \<Rightarrow> Some x | _ \<Rightarrow> None) \<and>
     AsRgbaColor mem a = only (case v of ORgbaColor x \<Rightarrow> Some x | _ \<Rightarrow> None) \<and>
     AsMidiMessage mem a = only (case v of OMidiMessage x \<Rightarrow> Some x | _ \<Rightarrow> None) \<and>
     AsInt64 mem a = only (case v of OInt64 x \<Rightarrow> Some x | _ \<Rightarrow> None) \<and>
     AsTimeTag mem a = only (case v of OTimeTag x \<Rightarrow> Some x | _ \<Rightarrow> None) \<and>
     AsDouble mem a = only (case v of ODouble x \<Rightarrow> Some x | _ \<Rightarrow> None) \<and>
     only_at (read_cstr mem) (case v of OString s \<Rightarrow> Some s | _ \<Rightarrow> None) (AsString mem a) \<and>
     only_at (read_cstr mem) (case v of OSymbol s \<Rightarrow> Some s | _ \<Rightarrow> None) (AsSymbol mem a) \<and>
     only_at (read_blob mem) (case v of OBlob s \<Rightarrow> Some s | _ \<Rightarrow> None) (AsBlob mem a)"

lemma checked_other: "TypeTag mem a = Inr t \<Longrightarrow> t \<noteq> k \<Longrightarrow> checked k f mem a = Inl WrongArgumentTypeException"
  by (auto simp: TypeTag_def deref_def checked_def split: option.splits)

lemma AsBool_other:
  "TypeTag mem a = Inr t \<Longrightarrow> t \<noteq> TRUE_TYPE_TAG \<Longrightarrow> t \<noteq> FALSE_TYPE_TAG \<Longrightarrow> AsBool mem a = Inl WrongArgumentTypeException"
  by (auto simp: TypeTag_def deref_def AsBool_def split: option.splits)

lemma AsBool_value:
  "TypeTag mem a = Inr TRUE_TYPE_TAG \<Longrightarrow> AsBool mem a = Inr True"
  "TypeTag mem a = Inr FALSE_TYPE_TAG \<Longrightarrow> AsBool mem a = Inr False"
  by (auto simp: TypeTag_def deref_def AsBool_def split: option.splits)

lemmas others = checked_other AsBool_other

lemmas checked_accessors = AsInt32_def AsFloat_def AsChar_def AsRgbaColor_def AsMidiMessage_def AsInt64_def
  AsTimeTag_def AsDouble_def AsString_def AsSymbol_def AsBlob_def

text \<open>The tag of an argument that can be read is one of the fifteen.\<close>

lemma read_value_tag:
  assumes "read_value mem a = Inr v"
  shows "TypeTag mem a = Inr (arg_tag v)"
proof -
  obtain t where t: "TypeTag mem a = Inr t" using assms by (auto simp: read_value_def ebind_eq_Inr_iff)
  have "t = arg_tag v"
    using assms t by (auto simp: read_value_def ebind_eq_Inr_iff AsBool_value split: if_splits)
  with t show ?thesis by simp
qed

lemma typed_argument_read:
  assumes "read_value mem a = Inr v"
  shows "typed_argument mem v a"
proof -
  note tag = read_value_tag [OF assms]
  show ?thesis
    using assms tag
    by (cases v)
      (auto simp: typed_argument_def only_def only_at_def read_value_def checked_accessors checked_other
        AsBool_other AsBool_value ebind_eq_Inr_iff split: if_splits)
qed

section \<open>All arguments\<close>

fun typed_arguments :: "bytes \<Rightarrow> osc_value list \<Rightarrow> received_argument \<Rightarrow> received_argument \<Rightarrow> bool" where
  "typed_arguments mem [] a e = same_position a e"
| "typed_arguments mem (v # vs) a e =
     (\<not> same_position a e \<and> typed_argument mem v a \<and>
      (case Advance mem a of Inl err \<Rightarrow> False | Inr a' \<Rightarrow> typed_arguments mem vs a' e))"

lemma Advance_next:
  assumes "read_value mem a = Inr v" and "Advance mem a = Inr a'" and "typeTag a = Some t"
  shows "typeTag a' = Some (t + 1)"
proof -
  have b: "load_byte mem t = Inr (arg_tag v)"
    using read_value_tag [OF assms(1)] assms(3) by (simp add: TypeTag_def deref_def)
  show ?thesis
    using assms(2,3) b
    by (cases v) (auto simp: Advance_def skip_bytes_def ebind_eq_Inr_iff split: if_splits)
qed

lemma typed_arguments_read:
  "read_values mem n a = Inr vs \<Longrightarrow> typeTag a = Some t \<Longrightarrow> typeTag e = Some (t + n) \<Longrightarrow> typed_arguments mem vs a e"
proof (induction n arbitrary: a vs t)
  case (Suc n)
  then obtain v a' vs' where r: "read_value mem a = Inr v" "Advance mem a = Inr a'" "read_values mem n a' = Inr vs'"
    "vs = v # vs'" by (auto simp: ebind_eq_Inr_iff)
  have "typed_arguments mem vs' a' e"
    using Advance_next [OF r(1,2) Suc.prems(2)] Suc.prems(3) by (intro Suc.IH [OF r(3)]) auto
  with r Suc.prems(2,3) typed_argument_read show ?case by (simp add: same_position_def)
qed (simp add: same_position_def)

text \<open>The type tags of an accepted message are all the bytes up to the first NUL.\<close>

lemma check_args_end: "check_args mem e tag arg = Inr tag_end \<Longrightarrow> load_byte mem tag_end = Inr 0"
proof (induction mem e tag arg rule: check_args.induct)
  case (1 mem e tag arg)
  from "1.prems" obtain t arg' t' where r: "load_byte mem tag = Inr t" "check_arg mem e t arg = Inr arg'"
    "load_byte mem (tag + 1) = Inr t'"
    by (subst (asm) check_args.simps) (auto simp: ebind_eq_Inr_iff)
  show ?case
  proof (cases "t' = 0")
    case True
    with "1.prems" r show ?thesis by (subst (asm) check_args.simps) simp
  next
    case False
    have "check_args mem e (tag + 1) arg' = Inr tag_end"
      using "1.prems" r False by (subst (asm) check_args.simps) simp
    with "1.IH" r False show ?thesis by blast
  qed
qed

lemma option_ok:
  "(case r of None \<Rightarrow> Inl err | Some x \<Rightarrow> f x) = Inr y \<longleftrightarrow> (\<exists>x. r = Some x \<and> f x = Inr y)"
  by (cases r) simp_all

lemma tags_end_nul:
  assumes "Message_Init mem message sz = Inr m" and "typeTagsEnd m = Some e"
  shows "load_byte mem e = Inr 0"
  using assms
  by (auto simp: Message_Init_def Let_def ebind_eq_Inr_iff option_ok dest: check_args_end
      split: if_split_asm)

lemma arg_tag_nonzero: "arg_tag v \<noteq> 0"
  by (cases v) auto

lemma c_str_tags:
  assumes "map arg_tag vs = take n (drop b mem)" and "load_byte mem (b + n) = Inr 0"
  shows "map arg_tag vs = c_str (drop b mem)"
proof -
  have n: "b + n < length mem" "mem ! (b + n) = 0" using assms(2) by (auto simp: load_byte_def split: if_splits)
  then have "drop b mem = take n (drop b mem) @ 0 # drop (Suc n) (drop b mem)"
    using id_take_nth_drop [of n "drop b mem"] by simp
  also have "\<dots> = map arg_tag vs @ 0 # drop (Suc n) (drop b mem)" using assms(1) by simp
  finally have "drop b mem = map arg_tag vs @ 0 # drop (Suc n) (drop b mem)" .
  moreover have "takeWhile (\<lambda>x. x \<noteq> 0) (map arg_tag vs @ 0 # xs) = map arg_tag vs" for xs
    using arg_tag_nonzero by (subst takeWhile_append2) auto
  ultimately show ?thesis unfolding c_str_def by metis
qed

lemma message_typed:
  assumes "Message_Init mem message sz = Inr m" and "message + unat sz \<le> length mem"
    and "BLOB_TYPE_TAG \<notin> set (type_tag_string mem message sz)"
  shows "\<exists>vs. read_values mem (ArgumentCount m) (ArgumentsBegin m) = Inr vs \<and>
    length vs = ArgumentCount m \<and>
    map arg_tag vs = (case typeTagsBegin m of None \<Rightarrow> [] | Some b \<Rightarrow> c_str (drop b mem)) \<and>
    typed_arguments mem vs (ArgumentsBegin m) (ArgumentsEnd m)"
proof -
  from Message_Init_safe [OF assms(2,3)] assms(1) obtain vs
    where vs: "read_values mem (ArgumentCount m) (ArgumentsBegin m) = Inr vs"
      and map: "map arg_tag vs = (case typeTagsBegin m of None \<Rightarrow> [] | Some b \<Rightarrow> take (ArgumentCount m) (drop b mem))"
      and tags: "typeTagsBegin m = None \<and> typeTagsEnd m = None \<or>
        (\<exists>b. typeTagsBegin m = Some b \<and> typeTagsEnd m = Some (b + ArgumentCount m))"
    by (auto simp: init_ok_def)
  have len: "length us = n" if "read_values mem n a = Inr us" for n a us
    using that by (induction n arbitrary: a us) (auto simp: ebind_eq_Inr_iff)
  from tags show ?thesis
  proof
    assume none: "typeTagsBegin m = None \<and> typeTagsEnd m = None"
    then show ?thesis
      using vs map len [OF vs] by (auto simp: ArgumentsBegin_def ArgumentsEnd_def same_position_def)
  next
    assume "\<exists>b. typeTagsBegin m = Some b \<and> typeTagsEnd m = Some (b + ArgumentCount m)"
    then obtain b where b: "typeTagsBegin m = Some b" "typeTagsEnd m = Some (b + ArgumentCount m)" by blast
    have "map arg_tag vs = c_str (drop b mem)"
      using map b tags_end_nul [OF assms(1) b(2)] by (intro c_str_tags) auto
    moreover have "typed_arguments mem vs (ArgumentsBegin m) (ArgumentsEnd m)"
      using b by (intro typed_arguments_read [OF vs, of b]) (simp_all add: ArgumentsBegin_def ArgumentsEnd_def)
    ultimately show ?thesis using vs b len [OF vs] by auto
  qed
qed

end
