(* ===== verification/Handles.thy ===== *)
theory Handles
  imports OscSenderSpec OscListenerSpec
begin

text \<open>
  The classes that applications use, \<^verbatim>\<open>osc::Sender\<close> and \<^verbatim>\<open>osc::Listener\<close>
  (\<^verbatim>\<open>product/source/OscSender.{h,cpp}\<close>, \<^verbatim>\<open>OscListener.{h,cpp}\<close>): each holds a \<^verbatim>\<open>std::shared_ptr\<close> to its
  \<^verbatim>\<open>OscSender\<close> or \<^verbatim>\<open>OscListener\<close>, so copies of a \<^verbatim>\<open>Sender\<close> share one socket.  The objects are kept in a
  store by their handles, with the number of the pointers that own them.
\<close>

section \<open>Shared pointers\<close>

record 'a store =
  objects :: "nat \<Rightarrow> ('a \<times> nat) option"
  next_handle :: nat

definition empty_store :: "'a store" where
  "empty_store = \<lparr>objects = (\<lambda>_. None), next_handle = 0\<rparr>"

definition make_shared :: "'a \<Rightarrow> 'a store \<Rightarrow> nat \<times> 'a store" where
  "make_shared x h = (next_handle h,
     h\<lparr>objects := (objects h)(next_handle h \<mapsto> (x, 1)), next_handle := next_handle h + 1\<rparr>)"

definition copy_handle :: "nat \<Rightarrow> 'a store \<Rightarrow> 'a store" where
  "copy_handle k h =
     (case objects h k of None \<Rightarrow> h | Some (x, n) \<Rightarrow> h\<lparr>objects := (objects h)(k \<mapsto> (x, n + 1))\<rparr>)"

text \<open>The destructor of a handle; the last one deletes the object.\<close>

definition drop_handle :: "nat \<Rightarrow> 'a store \<Rightarrow> 'a store" where
  "drop_handle k h =
     (case objects h k of
        None \<Rightarrow> h
      | Some (x, n) \<Rightarrow> h\<lparr>objects := (objects h)(k := if n \<le> 1 then None else Some (x, n - 1))\<rparr>)"

definition object_at :: "nat \<Rightarrow> 'a store \<Rightarrow> 'a option" where
  "object_at k h = map_option fst (objects h k)"

definition store_at :: "nat \<Rightarrow> 'a \<Rightarrow> 'a store \<Rightarrow> 'a store" where
  "store_at k x h =
     (case objects h k of None \<Rightarrow> h | Some (y, n) \<Rightarrow> h\<lparr>objects := (objects h)(k \<mapsto> (x, n))\<rparr>)"

section \<open>\<open>Sender\<close>\<close>

type_synonym senders = "osc_sender store"

definition new_Sender :: "senders \<Rightarrow> nat \<times> senders" where
  "new_Sender h = make_shared new_OscSender h"

definition Handle_setup ::
    "(bytes \<Rightarrow> 32 word option) \<Rightarrow> bool \<Rightarrow> bool \<Rightarrow> sockaddr \<Rightarrow> bytes \<Rightarrow> int32 \<Rightarrow> bool \<Rightarrow> nat \<Rightarrow> senders \<Rightarrow>
     (osc_error + unit) \<times> senders" where
  "Handle_setup resolve socket_ok connect_ok garbage hostname port multicast k h =
     (case object_at k h of
        None \<Rightarrow> (Inl Fault, h)
      | Some s \<Rightarrow>
          let (r, s) = Sender_setup resolve socket_ok connect_ok garbage hostname port multicast s
          in (r, store_at k s h))"

definition Handle_sendMessage ::
    "bytes \<Rightarrow> osc_message \<Rightarrow> nat \<Rightarrow> senders \<Rightarrow> osc_error + (sockaddr option \<times> bytes)" where
  "Handle_sendMessage buffer m k h =
     (case object_at k h of None \<Rightarrow> Inl Fault | Some s \<Rightarrow> sendMessage buffer m s)"

definition Handle_sendBundle ::
    "bytes \<Rightarrow> osc_bundle \<Rightarrow> nat \<Rightarrow> senders \<Rightarrow> osc_error + (sockaddr option \<times> bytes)" where
  "Handle_sendBundle buffer b k h =
     (case object_at k h of None \<Rightarrow> Inl Fault | Some s \<Rightarrow> sendBundle buffer b s)"

definition Handle_shutdown :: "nat \<Rightarrow> senders \<Rightarrow> osc_error + senders" where
  "Handle_shutdown k h =
     (case object_at k h of None \<Rightarrow> Inl Fault | Some s \<Rightarrow> Inr (store_at k (Sender_shutdown s) h))"

section \<open>\<open>Listener\<close>\<close>

text \<open>\<^verbatim>\<open>setup\<close> and \<^verbatim>\<open>shutdown\<close> are the calls of the relation \<open>life_step\<close>.\<close>

type_synonym 'w listeners = "'w osc_listener store"

definition new_Listener_handle :: "'w \<Rightarrow> 'w listeners \<Rightarrow> nat \<times> 'w listeners" where
  "new_Listener_handle w h = make_shared (new_OscListener w) h"

definition Handle_hasWaitingMessages :: "nat \<Rightarrow> 'w listeners \<Rightarrow> osc_error + bool" where
  "Handle_hasWaitingMessages k h =
     (case object_at k h of None \<Rightarrow> Inl Fault | Some st \<Rightarrow> Inr (hasWaitingMessages st))"

definition Handle_getNextMessage ::
    "osc_message \<Rightarrow> nat \<Rightarrow> 'w listeners \<Rightarrow> osc_error + (bool \<times> osc_message \<times> 'w listeners)" where
  "Handle_getNextMessage message k h =
     (case object_at k h of
        None \<Rightarrow> Inl Fault
      | Some st \<Rightarrow>
          ebind (getNextMessage message st) (\<lambda>(there, message, st). Inr (there, message, store_at k st h)))"

definition Handle_setMessageReceived ::
    "(osc_message \<Rightarrow> 'w \<Rightarrow> 'w) option \<Rightarrow> nat \<Rightarrow> 'w listeners \<Rightarrow> 'w listeners" where
  "Handle_setMessageReceived callback k h =
     (case object_at k h of None \<Rightarrow> h | Some st \<Rightarrow> store_at k (setMessageReceivedCb callback st) h)"

section \<open>What holds of handles\<close>

text \<open>Objects in the store are owned, and handles that were not given out yet are free.\<close>

definition store_inv :: "'a store \<Rightarrow> bool" where
  "store_inv h \<longleftrightarrow> (\<forall>k x n. objects h k = Some (x, n) \<longrightarrow> 0 < n \<and> k < next_handle h)"

lemma store_inv_ops:
  assumes "store_inv h"
  shows "store_inv (snd (make_shared x h))" and "store_inv (copy_handle k h)"
    and "store_inv (drop_handle k h)" and "store_inv (store_at k x h)"
  using assms
  by (auto simp: store_inv_def make_shared_def copy_handle_def drop_handle_def store_at_def
      split: option.splits if_splits) (meson less_SucI)+

lemma store_inv_empty: "store_inv empty_store"
  by (simp add: store_inv_def empty_store_def)

lemma make_shared_fresh:
  assumes "store_inv h" and "make_shared x h = (k, h')"
  shows "object_at k h = None" and "object_at k h' = Some x" and "j \<noteq> k \<Longrightarrow> object_at j h' = object_at j h"
proof -
  have k: "k = next_handle h" "h' = h\<lparr>objects := (objects h)(k \<mapsto> (x, 1)), next_handle := next_handle h + 1\<rparr>"
    using assms(2) by (auto simp: make_shared_def)
  show "object_at k h = None"
    using assms(1) k(1) by (cases "objects h k") (auto simp: store_inv_def object_at_def)
  show "object_at k h' = Some x" "j \<noteq> k \<Longrightarrow> object_at j h' = object_at j h"
    by (simp_all add: k(2) object_at_def)
qed

lemma store_at_object:
  assumes "object_at k h = Some x"
  shows "object_at k (store_at k y h) = Some y" and "j \<noteq> k \<Longrightarrow> object_at j (store_at k y h) = object_at j h"
  using assms by (auto simp: object_at_def store_at_def split: option.splits)

text \<open>A copy dropped again changes nothing; the last owner deletes the object.\<close>

lemma copy_then_drop: "store_inv h \<Longrightarrow> objects (drop_handle k (copy_handle k h)) = objects h"
  by (auto simp: copy_handle_def drop_handle_def store_inv_def fun_eq_iff split: option.split)

lemma drop_last: "objects h k = Some (x, 1) \<Longrightarrow> object_at k (drop_handle k h) = None"
  by (simp add: drop_handle_def object_at_def)

lemma copy_same_object: "object_at j (copy_handle k h) = object_at j h"
  by (auto simp: copy_handle_def object_at_def split: option.split)

text \<open>
  A \<^verbatim>\<open>Sender\<close> that is set up and copied: the copy sends to the same endpoint, and still does after the
  original is destroyed; \<^verbatim>\<open>shutdown\<close> of the copy closes the socket of both.
\<close>

lemma copied_sender:
  assumes "object_at k h = Some s" and "objects h k = Some (s, n)" and "0 < n"
  shows "Handle_sendMessage buffer m k (drop_handle k (copy_handle k h)) = sendMessage buffer m s"
    and "\<exists>h'. Handle_shutdown k (copy_handle k h) = Inr h' \<and> object_at k h' = Some (Sender_shutdown s)"
  using assms
  by (auto simp: Handle_sendMessage_def Handle_shutdown_def copy_handle_def drop_handle_def object_at_def store_at_def)

end
