(* ===== verification/ThreadDelivery.thy ===== *)
theory ThreadDelivery
  imports ListenerThreadSpec
begin

text \<open>
  From the sender to the client's queue through the receiving thread: one turn of \<^verbatim>\<open>Run\<close> receives one
  datagram and hands its messages to the listener.
\<close>

text \<open>A listener between two turns of its loop, with nothing to do but to receive.\<close>

definition run_listening :: "'w osc_listener mux_run \<Rightarrow> bool" where
  "run_listening r \<longleftrightarrow> pc r = LoopHead \<and> \<not> break_flag (mux r) \<and> break_pipe (mux r) = 0 \<and>
     socketListeners (mux r) = [(0, 0)] \<and> timerQueue r = []"

definition listening :: "'w life \<Rightarrow> bool" where
  "listening s \<longleftrightarrow> client s = ClientIdle \<and> thread s = ThreadRuns \<and> socket_live s \<and> isBound (receiver s) \<and>
     run_listening (run s)"

text \<open>What the system answers during the eight steps of a turn in which one datagram arrives at time \<open>t\<close>.\<close>

definition arrival :: "nat \<times> nat \<Rightarrow> sockaddr \<times> bytes \<Rightarrow> answer list" where
  "arrival t d = replicate 8 \<lparr>now = t, selected = SelectReady [0], datagram = Some d\<rparr>"

lemma socket_step_delivers:
  assumes "receive_datagram d u g (listeners_world s) = Some (w, None)" and "isBound u"
    and "datagram a = Some d" and "\<not> break_flag (mux s)"
  shows "socket_step (osc_behaviour g u) a [0] (0, 0) rest s =
    s\<lparr>listeners_world := w, pc := SocketLoop [0] rest\<rparr>"
proof -
  obtain e data where d: "ReceiveFrom MAX_BUFFER_SIZE (Some d) u = Inr (Some e, data)"
    using assms(2) by (cases d) (simp add: ReceiveFrom_def)
  show ?thesis
    using assms d
    by (cases "data = []")
      (simp_all add: socket_step_def osc_behaviour_def receive_datagram_def called_def goto_def)
qed

lemma turn_delivers:
  assumes "run_listening s" and "isBound u" and "receive_datagram d u g (listeners_world s) = Some (w, None)"
  shows "run_steps (osc_behaviour g u) (arrival t d) s = Some (s\<lparr>listeners_world := w\<rparr>)"
proof -
  have "run_step (osc_behaviour g u) a (s\<lparr>pc := SocketLoop [0] [(0, 0)]\<rparr>) =
      Some (s\<lparr>listeners_world := w, pc := SocketLoop [0] []\<rparr>)" if "datagram a = Some d" for a
    using socket_step_delivers [of d u g "s\<lparr>pc := SocketLoop [0] [(0, 0)]\<rparr>" w a "[]"] assms that
    by (simp add: run_step_def run_listening_def)
  then show ?thesis
    using assms(1)
    by (simp add: arrival_def run_listening_def numeral_eq_Suc run_step_def goto_def select_timeout_def)
qed

lemma run_steps_append:
  "run_steps b xs s = Some s' \<Longrightarrow> run_steps b ys s' = r \<Longrightarrow> run_steps b (xs @ ys) s = r"
proof (induction xs arbitrary: s)
  case (Cons a xs)
  show ?case
  proof (cases "run_ended (pc s)")
    case True
    with Cons.prems show ?thesis using run_steps_ended [of s b ys] by simp
  next
    case False
    with Cons show ?thesis by (auto simp: bind_eq_Some_conv)
  qed
qed simp

lemma turns_deliver:
  assumes "run_listening s" and "isBound u"
    and "receive_datagrams sender ds u g (listeners_world s) = Some (w, None)"
  shows "run_steps (osc_behaviour g u) (concat (map (\<lambda>d. arrival t (sender, d)) ds)) s =
    Some (s\<lparr>listeners_world := w\<rparr>)"
  using assms
proof (induction ds arbitrary: s)
  case (Cons d ds)
  then obtain w1 where w1: "receive_datagram (sender, d) u g (listeners_world s) = Some (w1, None)"
      "receive_datagrams sender ds u g w1 = Some (w, None)"
    by (auto split: option.splits prod.splits)
  have "run_listening (s\<lparr>listeners_world := w1\<rparr>)" using Cons.prems(1) by (simp add: run_listening_def)
  then have "run_steps (osc_behaviour g u) (concat (map (\<lambda>d. arrival t (sender, d)) ds)) (s\<lparr>listeners_world := w1\<rparr>) =
      Some (s\<lparr>listeners_world := w\<rparr>)"
    using Cons.IH [of "s\<lparr>listeners_world := w1\<rparr>"] w1(2) Cons.prems(2) by simp
  with turn_delivers [OF Cons.prems(1,2) w1(1)] show ?case by (simp add: run_steps_append)
qed simp

text \<open>Messages sent one after the other, received by the thread.\<close>

lemma messages_through_thread:
  assumes "socket s = Some u" and "isConnected u" and "listening l"
    and "\<forall>(buffer, m)\<in>set ms. length buffer = MESSAGE_BUFFER_SIZE \<and> plain_address m \<and>
      length (enc_tree (TBundle BeginBundleImmediate [message_tree m])) \<le> MAX_BUFFER_SIZE"
  shows "\<exists>ds r. map (\<lambda>(buffer, m). sendMessage buffer m s) ms = map (\<lambda>d. Inr (peer u, d)) ds \<and>
    run_steps (osc_behaviour g (receiver l)) (concat (map (\<lambda>d. arrival t (sender, d)) ds)) (run l) = Some r \<and>
    life_steps g l (l\<lparr>run := r\<rparr>) \<and> listening (l\<lparr>run := r\<rparr>) \<and>
    listeners_world r = fold deliver_message (map (arrived (from_endpoint sender)) (map snd ms))
      (listeners_world (run l))"
proof -
  have l: "run_listening (run l)" "isBound (receiver l)" "thread l = ThreadRuns"
    using assms(3) by (simp_all add: listening_def)
  obtain ds where ds: "map (\<lambda>(buffer, m). sendMessage buffer m s) ms = map (\<lambda>d. Inr (peer u, d)) ds"
    "receive_datagrams sender ds (receiver l) g (listeners_world (run l)) =
      Some (fold deliver_message (map (arrived (from_endpoint sender)) (map snd ms)) (listeners_world (run l)), None)"
    using messages_end_to_end [OF assms(1,2) l(2) assms(4)] by blast
  let ?r = "run l\<lparr>listeners_world :=
    fold deliver_message (map (arrived (from_endpoint sender)) (map snd ms)) (listeners_world (run l))\<rparr>"
  have r: "run_steps (osc_behaviour g (receiver l)) (concat (map (\<lambda>d. arrival t (sender, d)) ds)) (run l) = Some ?r"
    by (rule turns_deliver [OF l(1,2) ds(2)])
  have "listening (l\<lparr>run := ?r\<rparr>)" using assms(3) by (simp add: listening_def run_listening_def)
  with ds(1) r run_steps_life [OF r l(3)] show ?thesis by (intro exI [of _ ds] exI [of _ ?r]) simp
qed

text \<open>\<^verbatim>\<open>setup\<close> and the first step of the new thread lead there.\<close>

lemma listening_reachable:
  "\<exists>s. life_steps g (initial_life w flag u) s \<and> listening s \<and> listeners_world (run s) = w"
proof -
  let ?s0 = "initial_life w flag u"
  let ?s1 = "?s0\<lparr>client := CreateSocket port\<rparr>"
  obtain v m where sock: "UdpListeningReceiveSocket (endpoint_address ANY_ADDRESS port) True True True False
      \<lparr>sin_addr = 0, sin_port = 0\<rparr> = Inr (v, m)" "isBound v" "socketListeners m = [(0, 0)]" "break_pipe m = 0"
      "timerListeners m = []"
    by (auto simp: UdpListeningReceiveSocket_def new_UdpSocket_def new_Multiplexer_def Bind_def
        AttachSocketListener_def)
  let ?s2 = "?s1\<lparr>client := ClientIdle, socketHasShutdown := False, socket_live := True, receiver := v,
      run := start_run m (run ?s1), thread := ThreadRuns\<rparr>"
  let ?a = "\<lparr>now = (0, 0), selected = SelectFailed, datagram = None\<rparr>"
  obtain r where r: "run_step (osc_behaviour g (receiver ?s2)) ?a (run ?s2) = Some r"
    "run_listening r" "listeners_world r = w"
    using sock by (simp add: start_run_def run_step_def goto_def run_listening_def schedule_timers_def sort_calls_def
        initial_life_def)
  have "life_step g ?s0 ?s1" by (rule call_setup) (simp_all add: initial_life_def)
  moreover have "life_step g ?s1 ?s2" by (rule create_socket [OF _ sock(1)]) simp
  moreover have "life_step g ?s2 (?s2\<lparr>run := r\<rparr>)" by (rule thread_runs [OF _ r(1)]) simp
  ultimately have "life_steps g ?s0 (?s2\<lparr>run := r\<rparr>)"
    by (meson converse_rtranclp_into_rtranclp rtranclp.rtrancl_refl)
  moreover have "listening (?s2\<lparr>run := r\<rparr>)" using r(2) sock(2) by (simp add: listening_def)
  ultimately show ?thesis using r(3) by (intro exI [of _ "?s2\<lparr>run := r\<rparr>"]) simp
qed

end
