(* ===== verification/CommandLine.thy ===== *)
theory CommandLine
  imports CNumbers
begin

text \<open>
  What the command line programs under \<^verbatim>\<open>product/xcode/EscPlatform\<close> share: the arguments, which each
  \<^verbatim>\<open>main\<close> first copies into a vector of strings, \<^verbatim>\<open>atoi\<close>, and the member functions of
  \<^verbatim>\<open>std::string\<close> that take an argument apart.
\<close>

section \<open>How a program starts\<close>

text \<open>
  The ways \<^verbatim>\<open>main\<close> goes before its loop: it returns, an exception ends the program, \<^verbatim>\<open>at\<close>,
  \<^verbatim>\<open>substr\<close> or \<^verbatim>\<open>stoi\<close> throws, \<^verbatim>\<open>atoi\<close> is undefined, or the loop starts in a state.
\<close>

datatype 's launch =
    Returned int
  | Thrown osc_error
  | OutOfRange
  | InvalidArgument
  | UndefinedNumber
  | Started 's

fun lbind :: "'s launch \<Rightarrow> ('s \<Rightarrow> 't launch) \<Rightarrow> 't launch" where
  "lbind (Started s) f = f s"
| "lbind (Returned n) f = Returned n"
| "lbind (Thrown e) f = Thrown e"
| "lbind OutOfRange f = OutOfRange"
| "lbind InvalidArgument f = InvalidArgument"
| "lbind UndefinedNumber f = UndefinedNumber"

lemma lbind_eq_Started: "lbind m f = Started t \<longleftrightarrow> (\<exists>s. m = Started s \<and> f s = Started t)"
  by (cases m) auto

text \<open>An operation of the OSC library inside \<^verbatim>\<open>main\<close>, which catches nothing.\<close>

fun osc_launch :: "osc_error + 'a \<Rightarrow> 'a launch" where
  "osc_launch (Inl e) = Thrown e"
| "osc_launch (Inr a) = Started a"

text \<open>\<^verbatim>\<open>commandLineArgs.at(n)\<close>\<close>

definition argv_at :: "bytes list \<Rightarrow> nat \<Rightarrow> bytes launch" where
  "argv_at argv n = (if n < length argv then Started (argv ! n) else OutOfRange)"

text \<open>With too few arguments the name of the program is printed, and \<^verbatim>\<open>main\<close> returns \<open>-1\<close>.\<close>

definition usage :: "bytes list \<Rightarrow> 's launch" where
  "usage argv = lbind (argv_at argv 0) (\<lambda>name. Returned (- 1))"

section \<open>Numbers\<close>

definition is_space :: "byte \<Rightarrow> bool" where
  "is_space b \<longleftrightarrow> b = 32 \<or> 9 \<le> b \<and> b \<le> 13"

definition is_digit :: "byte \<Rightarrow> bool" where
  "is_digit b \<longleftrightarrow> 48 \<le> b \<and> b \<le> 57"

text \<open>
  What \<^verbatim>\<open>strtol\<close> reads in base 10, and whether there was a digit: white space, a sign, and the
  digits up to the first character that is none.
\<close>

definition strtol10 :: "bytes \<Rightarrow> int \<times> bool" where
  "strtol10 s =
     (let s = dropWhile is_space s;
          neg = (s \<noteq> [] \<and> hd s = byte_of (CHR ''-''));
          s = (if s \<noteq> [] \<and> (hd s = byte_of (CHR ''-'') \<or> hd s = byte_of (CHR ''+'')) then tl s else s);
          ds = takeWhile is_digit s;
          n = int (digits_value ds)
      in (if neg then - n else n, ds \<noteq> []))"

definition int_in_range :: "int \<Rightarrow> bool" where
  "int_in_range n \<longleftrightarrow> - (2 ^ 31) \<le> n \<and> n < 2 ^ 31"

text \<open>\<^verbatim>\<open>atoi(s.c_str())\<close>, whose behaviour is undefined when the value is no \<^verbatim>\<open>int\<close>.\<close>

definition atoi :: "bytes \<Rightarrow> int32 launch" where
  "atoi s = (let n = fst (strtol10 (c_str s)) in
     if int_in_range n then Started (word_of_int n) else UndefinedNumber)"

text \<open>\<^verbatim>\<open>std::stoi\<close> throws instead, also when there is no digit.\<close>

definition stoi :: "bytes \<Rightarrow> int32 launch" where
  "stoi s = (let (n, converted) = strtol10 (c_str s) in
     if \<not> converted then InvalidArgument
     else if int_in_range n then Started (word_of_int n) else OutOfRange)"

lemma sign_bytes: "byte_of (CHR ''-'') = 45" "byte_of (CHR ''+'') = 43"
  by (simp_all add: byte_of_def)

lemma takeWhile_all: "\<forall>x\<in>set xs. P x \<Longrightarrow> takeWhile P xs = xs"
  by simp

lemma dropWhile_hd: "xs \<noteq> [] \<Longrightarrow> \<not> P (hd xs) \<Longrightarrow> dropWhile P xs = xs"
  by (cases xs) auto

lemma show_nat_is_digit: "b \<in> set (show_nat n) \<Longrightarrow> is_digit b"
  using show_nat_digits [of n] by (auto simp: is_digit_def)

lemma show_nat_neq_Nil [simp]: "show_nat n \<noteq> []"
  by (subst show_nat.simps) simp

lemma digit_not_special: "is_digit b \<Longrightarrow> \<not> is_space b \<and> b \<noteq> 45 \<and> b \<noteq> 43 \<and> b \<noteq> 0"
  by (auto simp: is_digit_def is_space_def word_le_nat_alt)

lemma show_nat_hd: "\<not> is_space (hd (show_nat n)) \<and> hd (show_nat n) \<noteq> 45 \<and> hd (show_nat n) \<noteq> 43"
  using digit_not_special [OF show_nat_is_digit [OF hd_in_set [OF show_nat_neq_Nil]]] by simp

lemma strtol10_show_nat:
  "strtol10 (show_nat n) = (int n, True)" "strtol10 (45 # show_nat n) = (- int n, True)"
proof -
  have t: "\<forall>b\<in>set (show_nat n). is_digit b" by (simp add: show_nat_is_digit)
  show "strtol10 (show_nat n) = (int n, True)"
    using show_nat_hd [of n] by (simp add: strtol10_def takeWhile_all [OF t] dropWhile_hd Let_def sign_bytes digits_value_show_nat)
  have "dropWhile is_space (45 # show_nat n) = 45 # show_nat n" by (simp add: is_space_def word_le_nat_alt)
  then show "strtol10 (45 # show_nat n) = (- int n, True)"
    by (simp add: strtol10_def takeWhile_all [OF t] Let_def sign_bytes digits_value_show_nat)
qed

lemma show_nat_no_zero: "0 \<notin> set (show_nat n)"
  using digit_not_special [OF show_nat_is_digit] by blast

lemma sprintf_i_no_zero: "0 \<notin> set (sprintf_i n)"
  by (simp add: sprintf_i_def show_nat_no_zero sign_bytes)

text \<open>Both read back what \<^verbatim>\<open>%i\<close> prints.\<close>

lemma strtol10_sprintf_i: "strtol10 (c_str (sprintf_i n)) = (sint n, True)"
  by (simp add: c_str_id [OF sprintf_i_no_zero]) (simp add: sprintf_i_def strtol10_show_nat sign_bytes)

lemma sint_in_range: "int_in_range (sint (n :: int32))"
  using sint_ge [of n] sint_lt [of n] by (simp add: int_in_range_def)

lemma atoi_sprintf_i: "atoi (sprintf_i n) = Started n"
  by (simp add: atoi_def strtol10_sprintf_i sint_in_range Let_def)

lemma stoi_sprintf_i: "stoi (sprintf_i n) = Started n"
  by (simp add: stoi_def strtol10_sprintf_i sint_in_range Let_def)

section \<open>Taking a string apart\<close>

definition npos :: ulong where "npos = - 1"

text \<open>\<^verbatim>\<open>s.find(c)\<close> for one character: its first position, or \<^verbatim>\<open>npos\<close>.\<close>

definition find_char :: "byte \<Rightarrow> bytes \<Rightarrow> ulong" where
  "find_char c s = (let n = length (takeWhile (\<lambda>b. b \<noteq> c) s) in if n < length s then of_nat n else npos)"

text \<open>\<^verbatim>\<open>s.substr(p, n)\<close> and \<^verbatim>\<open>s.substr(p)\<close>, which throw when \<open>p\<close> is past the end.\<close>

definition substr :: "ulong \<Rightarrow> ulong \<Rightarrow> bytes \<Rightarrow> bytes launch" where
  "substr p n s = (if length s < unat p then OutOfRange else Started (take (unat n) (drop (unat p) s)))"

definition substr_from :: "ulong \<Rightarrow> bytes \<Rightarrow> bytes launch" where
  "substr_from p s = substr p npos s"

text \<open>A string is shorter than \<^verbatim>\<open>max_size()\<close>, which is below \<^verbatim>\<open>npos\<close>.\<close>

definition string_size_ok :: "bytes \<Rightarrow> bool" where
  "string_size_ok s \<longleftrightarrow> length s < 2 ^ 63"

text \<open>The two halves of \<^verbatim>\<open>user@server\<close>: before the first separator and behind it.\<close>

definition before_char :: "byte \<Rightarrow> bytes \<Rightarrow> bytes launch" where
  "before_char c s = substr 0 (find_char c s) s"

definition behind_char :: "byte \<Rightarrow> bytes \<Rightarrow> bytes launch" where
  "behind_char c s = substr_from (find_char c s + 1) s"

lemma unat_npos: "unat npos = 2 ^ 64 - 1"
  unfolding npos_def by (simp add: unsigned_minus_1_eq_mask mask_eq_exp_minus_1)

lemma find_char_append:
  assumes "c \<notin> set us" and "string_size_ok (us @ c # vs)"
  shows "unat (find_char c (us @ c # vs)) = length us" and "unat (find_char c (us @ c # vs) + 1) = length us + 1"
proof -
  have t: "takeWhile (\<lambda>b. b \<noteq> c) (us @ c # vs) = us" using assms(1) by (induction us) auto
  have small: "length us + 1 < 2 ^ 64" using assms(2) by (simp add: string_size_ok_def)
  have f: "find_char c (us @ c # vs) = of_nat (length us)" by (simp add: find_char_def t)
  show "unat (find_char c (us @ c # vs)) = length us" unfolding f using small by (simp add: unat_of_nat_small)
  have "(of_nat (length us) :: ulong) + 1 = of_nat (length us + 1)" by simp
  then show "unat (find_char c (us @ c # vs) + 1) = length us + 1"
    unfolding f by (simp only:) (rule unat_of_nat_small, use small in simp)
qed

lemma split_at_char:
  assumes "c \<notin> set us" and "string_size_ok (us @ c # vs)"
  shows "before_char c (us @ c # vs) = Started us" and "behind_char c (us @ c # vs) = Started vs"
  using find_char_append [OF assms] assms(2)
  by (simp_all add: before_char_def behind_char_def substr_from_def substr_def unat_npos string_size_ok_def)

text \<open>Without the separator the position wraps to 0, and both halves are the whole text.\<close>

lemma split_without_char:
  assumes "c \<notin> set s" and "string_size_ok s"
  shows "before_char c s = Started s" and "behind_char c s = Started s"
proof -
  have "takeWhile (\<lambda>b. b \<noteq> c) s = s" using assms(1) by (intro takeWhile_all) auto
  then have f: "find_char c s = npos" unfolding find_char_def by (simp only: Let_def less_irrefl if_False)
  have "npos + 1 = 0" by (simp add: npos_def)
  then show "before_char c s = Started s" "behind_char c s = Started s"
    using assms(2) unat_npos
    by (simp_all add: before_char_def behind_char_def substr_from_def substr_def f string_size_ok_def)
qed

end
