(* ===== verification/OscPrograms.thy ===== *)
theory OscPrograms
  imports CommandLine CFormat ListenerThread
begin

text \<open>
  The three small OSC programs: \<^verbatim>\<open>OscEchoClient/main.cpp\<close>, \<^verbatim>\<open>Osc-Sender/main.cpp\<close> and
  \<^verbatim>\<open>Osc-Listener/main.cpp\<close> of \<^verbatim>\<open>product/xcode/EscPlatform\<close>.  Each composes the classes of the library;
  its receiving thread and its \<^verbatim>\<open>main\<close> take turns in any order, so a run is a list of events.  An
  exception that leaves either of them ends the program.
\<close>

section \<open>The system the programs run on\<close>

record system =
  sys_resolve :: "bytes \<Rightarrow> 32 word option"
  sys_socket :: bool
  sys_pipe :: bool
  sys_bind :: bool
  sys_connect :: bool
  sys_flag :: bool
  sys_address :: sockaddr

text \<open>\<^verbatim>\<open>Listener listener; listener.setup(port);\<close> for a listener with the client's world \<open>w\<close>.\<close>

definition open_listener :: "system \<Rightarrow> int32 \<Rightarrow> 'w \<Rightarrow> 'w osc_listener launch" where
  "open_listener sys port w =
     osc_launch (ebind (UdpListeningReceiveSocket (endpoint_address ANY_ADDRESS port) (sys_socket sys)
         (sys_pipe sys) (sys_bind sys) (sys_flag sys) (sys_address sys))
       (\<lambda>(u, m). Inr ((new_OscListener w)\<lparr>mListen_socket := Some u\<rparr>)))"

definition open_sender :: "system \<Rightarrow> bytes \<Rightarrow> int32 \<Rightarrow> osc_sender \<Rightarrow> osc_error + osc_sender" where
  "open_sender sys host port s =
     (let (r, s) = Sender_setup (sys_resolve sys) (sys_socket sys) (sys_connect sys) (sys_address sys) host port False s
      in ebind r (\<lambda>_. Inr s))"

section \<open>The receiving thread\<close>

text \<open>
  \<open>rx_stuck\<close>: a handler of the receiving thread does not return (C9), so it reads no further datagram.
\<close>

record 'w receiving =
  rx_listener :: "'w osc_listener"
  rx_stuck :: bool

definition receive_event ::
    "int32 \<Rightarrow> sockaddr \<times> bytes \<Rightarrow> ('w, 'x) receiving_scheme \<Rightarrow> osc_error + ('w, 'x) receiving_scheme" where
  "receive_event garbage d st =
     (case mListen_socket (rx_listener st) of
        None \<Rightarrow> Inr st
      | Some u \<Rightarrow>
          if rx_stuck st then Inr st
          else case receive_datagram d u garbage (rx_listener st) of
            None \<Rightarrow> Inr (st\<lparr>rx_stuck := True\<rparr>)
          | Some (l, Some err) \<Rightarrow> Inl err
          | Some (l, None) \<Rightarrow> Inr (st\<lparr>rx_listener := l\<rparr>))"

section \<open>OscEchoClient\<close>

record echo = "unit receiving" +
  echo_sender :: osc_sender
  echo_sent :: "(sockaddr option \<times> bytes) list"

definition OscEchoClient_start :: "system \<Rightarrow> bytes list \<Rightarrow> echo launch" where
  "OscEchoClient_start sys argv =
     (if length argv < 2 then usage argv
      else lbind (lbind (argv_at argv 1) atoi) (\<lambda>port.
        lbind (open_listener sys port ()) (\<lambda>l.
          Started \<lparr>rx_listener = l, rx_stuck = False, echo_sender = new_OscSender, echo_sent = []\<rparr>)))"

text \<open>
  What \<^verbatim>\<open>main\<close> and the system have in one turn of its loops: the bytes of \<^verbatim>\<open>sendMessage\<close>'s buffer, the
  indeterminate port of the fresh message, and what the system answers.
\<close>

record echo_turn =
  turn_sys :: system
  turn_buffer :: bytes
  turn_garbage :: int32

datatype 't osc_event = Datagram sockaddr bytes int32 | MainTurn 't

text \<open>
  The body of the inner loop.  Between the test of the queue and the poll the receiving thread may only
  append to the queue, which changes neither; the pause of the outer loop changes nothing.
\<close>

definition echo_main_turn :: "echo_turn \<Rightarrow> echo \<Rightarrow> osc_error + echo" where
  "echo_main_turn t st =
     (if \<not> hasWaitingMessages (rx_listener st) then Inr st
      else
        ebind (getNextMessage (new_Message (turn_garbage t)) (rx_listener st)) (\<lambda>(there, msg, l).
        ebind (open_sender (turn_sys t) (getRemoteIp msg) (getRemotePort msg) (echo_sender st)) (\<lambda>s.
        ebind (sendMessage (turn_buffer t) msg s) (\<lambda>d.
          Inr (st\<lparr>rx_listener := l, echo_sender := s, echo_sent := echo_sent st @ [d]\<rparr>)))))"

text \<open>A run of a program, given the turn of its \<^verbatim>\<open>main\<close>.\<close>

fun run_events ::
    "('t \<Rightarrow> ('w, 'x) receiving_scheme \<Rightarrow> osc_error + ('w, 'x) receiving_scheme) \<Rightarrow> 't osc_event list \<Rightarrow>
     ('w, 'x) receiving_scheme \<Rightarrow> osc_error + ('w, 'x) receiving_scheme" where
  "run_events turn [] st = Inr st"
| "run_events turn (Datagram a d garbage # es) st = ebind (receive_event garbage (a, d) st) (run_events turn es)"
| "run_events turn (MainTurn t # es) st = ebind (turn t st) (run_events turn es)"

section \<open>Osc-Sender\<close>

text \<open>The message of every turn; the floats are 0.21, 0.0019, 0.5, 21, 0 and -13.5.\<close>

definition sensor_message :: "int32 \<Rightarrow> osc_message" where
  "sensor_message garbage =
     (let msg = setAddress (bytes_of ''rotation-x/rotation-y/rotation-z/joystick/dpad-x/dpad-y'') (new_Message garbage);
          msg = addIntArg 5 msg;
          msg = addFloatArg 0x3E570A3D msg;
          msg = addFloatArg 0x3AF9096C msg;
          msg = addFloatArg 0x3F000000 msg;
          msg = addFloatArg 0x41A80000 msg;
          msg = addFloatArg 0 msg
      in addFloatArg 0xC1580000 msg)"

definition OscSender_start :: "system \<Rightarrow> bytes list \<Rightarrow> osc_sender launch" where
  "OscSender_start sys argv =
     (if length argv < 3 then usage argv
      else lbind (argv_at argv 1) (\<lambda>host.
        lbind (lbind (argv_at argv 2) atoi) (\<lambda>port.
          osc_launch (open_sender sys host port new_OscSender))))"

definition endl :: bytes where "endl = [10]"

text \<open>What a turn prints of the message it sent.\<close>

function sender_print_args :: "osc_message \<Rightarrow> int \<Rightarrow> osc_error + bytes" where
  "sender_print_args msg i =
     (if i < getNumArgs msg then
        ebind (getArgType msg i) (\<lambda>t.
        ebind
          (if t = TYPE_INT32
           then ebind (getArgAsInt32 msg i False) (\<lambda>x. Inr (bytes_of ''  int: '' @ sprintf_i x @ endl))
           else if t = TYPE_FLOAT
           then ebind (getArgAsFloat msg i False) (\<lambda>x. Inr (bytes_of ''  float: '' @ show_float x @ endl))
           else if t = TYPE_STRING
           then ebind (getArgAsString msg i False) (\<lambda>s. Inr (bytes_of ''  str: '' @ s @ endl))
           else Inr []) (\<lambda>line.
        ebind (sender_print_args msg (i + 1)) (\<lambda>lines. Inr (line @ lines))))
      else Inr [])"
  by pat_completeness auto
termination by (relation "measure (\<lambda>(msg, i). nat (getNumArgs msg - i))") auto

declare sender_print_args.simps [simp del]

definition sender_turn :: "int32 \<Rightarrow> bytes \<Rightarrow> osc_sender \<Rightarrow> osc_error + ((sockaddr option \<times> bytes) \<times> bytes)" where
  "sender_turn garbage buffer s =
     (let msg = sensor_message garbage in
      ebind (sendMessage buffer msg s) (\<lambda>d.
      ebind (sender_print_args msg 0) (\<lambda>lines.
        Inr (d, bytes_of ''sent message : '' @ getAddress msg @ endl @ lines))))"

section \<open>Osc-Listener\<close>

record listening_program = "unit receiving" +
  li_output :: bytes

definition OscListener_start :: "system \<Rightarrow> bytes list \<Rightarrow> listening_program launch" where
  "OscListener_start sys argv =
     (if length argv < 2 then usage argv
      else lbind (lbind (argv_at argv 1) atoi) (\<lambda>port.
        lbind (open_listener sys port ()) (\<lambda>l.
          Started \<lparr>rx_listener = l, rx_stuck = False,
            li_output = bytes_of ''Listening on port: '' @ sprintf_i port @ endl\<rparr>)))"

function listener_print_args :: "osc_message \<Rightarrow> int \<Rightarrow> osc_error + bytes" where
  "listener_print_args msg i =
     (if i < getNumArgs msg then
        ebind (getArgType msg i) (\<lambda>t.
        ebind (getArgTypeName msg i) (\<lambda>name.
        let line = (\<lambda>text. Inr (bytes_of ''   '' @ bytes_of name @ bytes_of '' : '' @ text @ endl)) in
        ebind
          (if t = TYPE_FLOAT then ebind (getArgAsFloat msg i False) (\<lambda>x. line (show_float x))
           else if t = TYPE_INT32 then ebind (getArgAsInt32 msg i False) (\<lambda>x. line (sprintf_i x))
           else if t = TYPE_STRING then ebind (getArgAsString msg i False) line
           else Inr (bytes_of ''   unknown argument type'')) (\<lambda>line.
        ebind (listener_print_args msg (i + 1)) (\<lambda>lines. Inr (line @ lines)))))
      else Inr [])"
  by pat_completeness auto
termination by (relation "measure (\<lambda>(msg, i). nat (getNumArgs msg - i))") auto

declare listener_print_args.simps [simp del]

definition listener_main_turn :: "int32 \<Rightarrow> listening_program \<Rightarrow> osc_error + listening_program" where
  "listener_main_turn garbage st =
     (if \<not> hasWaitingMessages (rx_listener st) then Inr st
      else
        ebind (getNextMessage (new_Message garbage) (rx_listener st)) (\<lambda>(there, msg, l).
        ebind (listener_print_args msg 0) (\<lambda>lines.
          Inr (st\<lparr>rx_listener := l, li_output := li_output st @ getAddress msg @ endl @ lines\<rparr>))))"
end
