(* ===== verification/OscProgramsSpec.thy ===== *)
theory OscProgramsSpec
  imports OscPrograms "HOL-Library.Sublist"
begin

text \<open>
  The echo client returns to each sender, in order and byte for byte, what it sent; the listening program
  prints what the sending program sends.
\<close>

section \<open>One message on its way\<close>

definition message_packet :: "osc_message \<Rightarrow> bytes" where
  "message_packet m = enc_tree (TBundle BeginBundleImmediate [message_tree m])"

definition deliverable :: "osc_message \<Rightarrow> bool" where
  "deliverable m \<longleftrightarrow> plain_address m \<and> length (message_packet m) \<le> MAX_BUFFER_SIZE"

lemma sendMessage_packet:
  assumes "length buffer = MESSAGE_BUFFER_SIZE" and "socket s = Some u" and "isConnected u"
    and "length (message_packet m) \<le> MAX_BUFFER_SIZE"
  shows "sendMessage buffer m s = Inr (peer u, message_packet m)"
proof -
  have small: "length (message_packet m) < 2 ^ 31" using assms(4) by (simp add: MAX_BUFFER_SIZE_def)
  show ?thesis
    using sendMessage_eq [OF _ _ assms(2), of buffer m] small_tree_sendable [OF small [unfolded message_packet_def]] assms
    by (simp add: send_tree_def Send_def MAX_BUFFER_SIZE_def MESSAGE_BUFFER_SIZE_def message_packet_def)
qed

lemma receive_packet:
  assumes "isBound u" and "deliverable m"
  shows "receive_datagram (a, message_packet m) u g l = Some (deliver_message (arrived (from_endpoint a) m) l, None)"
  using receive_tree [OF assms(1), of "TBundle BeginBundleImmediate [message_tree m]" a g l] assms(2)
    sound_message_tree [of m]
  by (simp add: listener_sink.sound_TBundle message_tree_def received_arg_values message_packet_def deliverable_def)

lemma receive_event_packet:
  assumes "mListen_socket (rx_listener st) = Some u" and "isBound u" and "\<not> rx_stuck st" and "deliverable m"
  shows "receive_event g (a, message_packet m) st =
    Inr (st\<lparr>rx_listener := deliver_message (arrived (from_endpoint a) m) (rx_listener st)\<rparr>)"
  using receive_packet [OF assms(2,4), of a g "rx_listener st"] assms(1,3) by (simp add: receive_event_def)

text \<open>A message that arrived encodes like the one that was sent.\<close>

lemma message_packet_arrived [simp]: "message_packet (arrived ep m) = message_packet m"
proof -
  have "arg_value (arrived_arg x) = arg_value x" for x by (cases x) (simp_all add: c_str_id)
  then show ?thesis by (simp add: message_packet_def message_tree_def arrived_def c_str_id comp_def)
qed

section \<open>The way back\<close>

lemma open_sender_ok:
  assumes "sys_socket sys" and "sys_connect sys"
  shows "\<exists>u. open_sender sys host port s = Inr (s\<lparr>socket := Some u\<rparr>) \<and> isConnected u \<and>
    peer u = Some (SockaddrFromIpEndpointName (endpoint_name (sys_resolve sys) (c_str host) port))"
proof (intro exI conjI)
  let ?a = "SockaddrFromIpEndpointName (endpoint_name (sys_resolve sys) (c_str host) port)"
  let ?u = "\<lparr>isBound = False, isConnected = True, connectedAddr = ?a,
    sendToAddr = \<lparr>sin_addr = 0, sin_port = 0\<rparr>, peer = Some ?a, bound_to = None, broadcast = False\<rparr>"
  show "open_sender sys host port s = Inr (s\<lparr>socket := Some ?u\<rparr>)"
    using assms by (simp add: open_sender_def Sender_setup_def Sender_shutdown_def UdpTransmitSocket_def
        new_UdpSocket_def Connect_def Let_def)
qed simp_all

lemma ucast_up_down: "(ucast (ucast (w :: 32 word) :: ulong) :: 32 word) = w"
  "(ucast (ucast (p :: 16 word) :: int32) :: 16 word) = p"
  by (rule bit_word_eqI, simp add: bit_simps)+

lemma dotted_no_zero: "0 \<notin> set (dotted e)"
  by (simp add: dotted_def show_nat_no_zero)

text \<open>
  The textual address of a sender, looked up again, is the sender's socket address, unless it is the
  broadcast address, whose text is \<^verbatim>\<open><any>\<close>.
\<close>

lemma reply_address:
  assumes "sin_addr a \<noteq> 0xFFFFFFFF"
    and "resolve (dotted (from_endpoint a)) = Some (htonl (sin_addr a))"
  shows "SockaddrFromIpEndpointName
    (endpoint_name resolve (c_str (AddressAsString (from_endpoint a))) (ep_port (from_endpoint a))) = a"
proof -
  let ?e = "from_endpoint a"
  have "htonl 0xFFFFFFFF = 0xFFFFFFFF" by (simp add: htonl_def union_byte_def union_int32_def)
  then have w: "htonl (sin_addr a) \<noteq> 0xFFFFFFFF" using assms(1) htonl_htonl by metis
  have not_any: "(ucast (htonl (sin_addr a)) :: ulong) \<noteq> ANY_ADDRESS"
  proof
    assume "(ucast (htonl (sin_addr a)) :: ulong) = ANY_ADDRESS"
    then have "(ucast (ucast (htonl (sin_addr a)) :: ulong) :: 32 word) = 0xFFFFFFFF" by (simp add: ANY_ADDRESS_def)
    then show False using w by (simp add: ucast_up_down)
  qed
  have "bit ANY_PORT 20" by (simp add: ANY_PORT_def)
  moreover have "\<not> bit (ucast (htons (sin_port a)) :: int32) 20" by (auto simp: bit_simps dest: bit_imp_le_length)
  ultimately have port: "(ucast (htons (sin_port a)) :: int32) \<noteq> ANY_PORT" by metis
  have "c_str (AddressAsString ?e) = dotted ?e"
    using not_any by (simp add: AddressAsString_def from_endpoint_def c_str_id dotted_no_zero)
  then show ?thesis
    using assms(2) not_any port
    by (cases a) (simp add: endpoint_name_def GetHostByName_def SockaddrFromIpEndpointName_def from_endpoint_def
      htonl_htonl htons_htons ucast_up_down)
qed

section \<open>Programs that take messages from the queue\<close>

text \<open>The datagrams of a run.\<close>

fun arrivals :: "'t osc_event list \<Rightarrow> (sockaddr \<times> bytes) list" where
  "arrivals [] = []"
| "arrivals (Datagram a d g # es) = (a, d) # arrivals es"
| "arrivals (MainTurn t # es) = arrivals es"

definition packets :: "(sockaddr \<times> osc_message) list \<Rightarrow> (sockaddr \<times> bytes) list" where
  "packets ds = map (\<lambda>(a, m). (a, message_packet m)) ds"

lemma packets_simps [simp]: "packets [] = []" "packets ((a, m) # ds) = (a, message_packet m) # packets ds"
  "packets (ds @ es) = packets ds @ packets es" "length (packets ds) = length ds"
  by (simp_all add: packets_def)

text \<open>
  A turn of such a program handles the first message of the queue, as \<open>emit\<close> says, and nothing when there
  is none; \<open>ok\<close> is what the turn needs for a message \<open>m\<close> from the address \<open>a\<close>.
\<close>

definition incoming :: "sockaddr \<times> osc_message \<Rightarrow> osc_message" where
  "incoming = (\<lambda>(a, m). arrived (from_endpoint a) m)"

definition receives :: "('w, 'x) receiving_scheme \<Rightarrow> bool" where
  "receives st \<longleftrightarrow> (\<exists>u. mListen_socket (rx_listener st) = Some u \<and> isBound u) \<and>
     mCallbackFn (rx_listener st) = None \<and> \<not> rx_stuck st"

locale queue_program =
  fixes turn :: "'t \<Rightarrow> ('w, 'x) receiving_scheme \<Rightarrow> osc_error + ('w, 'x) receiving_scheme"
    and out :: "('w, 'x) receiving_scheme \<Rightarrow> 'o"
    and emit :: "sockaddr \<times> osc_message \<Rightarrow> 'o \<Rightarrow> 'o"
    and ok :: "'t \<Rightarrow> sockaddr \<times> osc_message \<Rightarrow> bool"
  assumes turn_empty: "mMessages (rx_listener st) = [] \<Longrightarrow> turn t st = Inr st"
    and turn_message: "mMessages (rx_listener st) = incoming x # ms \<Longrightarrow> ok t x \<Longrightarrow> receives st \<Longrightarrow>
      \<exists>st'. turn t st = Inr st' \<and> mMessages (rx_listener st') = ms \<and> receives st' \<and> out st' = emit x (out st)"
    and out_listener: "out (st\<lparr>rx_listener := l\<rparr>) = out st"
begin

text \<open>\<open>ds\<close> has arrived since \<open>start\<close>; the first \<open>n\<close> of it are handled, the rest is in the queue.\<close>

definition program_inv :: "'o \<Rightarrow> (sockaddr \<times> osc_message) list \<Rightarrow> nat \<Rightarrow> ('w, 'x) receiving_scheme \<Rightarrow> bool" where
  "program_inv start ds n st \<longleftrightarrow> receives st \<and> n \<le> length ds \<and>
     out st = fold emit (take n ds) start \<and> mMessages (rx_listener st) = drop n (map incoming ds)"

lemma inv_datagram:
  assumes "program_inv start ds n st" and "deliverable m"
  shows "\<exists>st'. receive_event g (a, message_packet m) st = Inr st' \<and> program_inv start (ds @ [(a, m)]) n st'"
proof -
  obtain u where "mListen_socket (rx_listener st) = Some u" "isBound u" "\<not> rx_stuck st"
    using assms(1) by (auto simp: program_inv_def receives_def)
  from receive_event_packet [OF this assms(2), of g a] show ?thesis
    using assms(1) by (auto simp: program_inv_def receives_def deliver_message_def out_listener incoming_def)
qed

lemma inv_turn:
  assumes "program_inv start ds n st" and "\<forall>x\<in>set ds. ok t x"
  shows "\<exists>st'. turn t st = Inr st' \<and> program_inv start ds (min (length ds) (Suc n)) st'"
proof (cases "n = length ds")
  case True
  then show ?thesis using assms(1) by (simp add: program_inv_def turn_empty)
next
  case False
  then have n: "n < length ds" using assms(1) by (simp add: program_inv_def)
  then have q: "mMessages (rx_listener st) = incoming (ds ! n) # drop (Suc n) (map incoming ds)"
    using assms(1) Cons_nth_drop_Suc [of n "map incoming ds"] by (simp add: program_inv_def)
  have "ok t (ds ! n)" "receives st" using n assms by (simp_all add: program_inv_def)
  from turn_message [OF q this] obtain st' where "turn t st = Inr st'"
      "mMessages (rx_listener st') = drop (Suc n) (map incoming ds)" "receives st'" "out st' = emit (ds ! n) (out st)"
    by blast
  then show ?thesis using n assms(1) by (auto simp: program_inv_def take_Suc_conv_app_nth)
qed

lemma inv_turns:
  assumes "program_inv start ds n st" and "\<forall>t\<in>set ts. \<forall>x\<in>set ds. ok t x"
  shows "\<exists>st'. run_events turn (map MainTurn ts) st = Inr st' \<and>
    program_inv start ds (min (length ds) (n + length ts)) st'"
  using assms
proof (induction ts arbitrary: st n)
  case Nil
  then show ?case by (auto simp: program_inv_def min_absorb2)
next
  case (Cons t ts)
  obtain st1 where st1: "turn t st = Inr st1" "program_inv start ds (min (length ds) (Suc n)) st1"
    using inv_turn [OF Cons.prems(1), of t] Cons.prems(2) by auto
  have "min (length ds) (min (length ds) (Suc n) + length ts) = min (length ds) (n + length (t # ts))"
    by (simp add: min_def)
  with Cons.IH [OF st1(2)] Cons.prems(2) st1(1) show ?case by auto
qed

text \<open>Events whose datagrams are messages of \<open>X\<close> and whose turns can handle all of \<open>X\<close>.\<close>

fun event_ok :: "(sockaddr \<times> osc_message) set \<Rightarrow> 't osc_event \<Rightarrow> bool" where
  "event_ok X (Datagram a d g) \<longleftrightarrow> (\<exists>m. d = message_packet m \<and> deliverable m \<and> (a, m) \<in> X)"
| "event_ok X (MainTurn t) \<longleftrightarrow> (\<forall>x\<in>X. ok t x)"

lemma inv_run:
  assumes "program_inv start ds n st" and "list_all (event_ok X) es" and "set ds \<subseteq> X"
  shows "\<exists>st' n' ms. run_events turn es st = Inr st' \<and> program_inv start (ds @ ms) n' st' \<and>
    arrivals es = packets ms \<and> set ms \<subseteq> X"
  using assms
proof (induction es arbitrary: st ds n)
  case Nil
  then show ?case by (intro exI [of _ st] exI [of _ n] exI [of _ "[]"]) simp
next
  case (Cons e es)
  show ?case
  proof (cases e)
    case (Datagram a d g)
    then obtain m where m: "d = message_packet m" "deliverable m" "(a, m) \<in> X"
      using Cons.prems(2) by auto
    obtain st1 where st1: "receive_event g (a, message_packet m) st = Inr st1" "program_inv start (ds @ [(a, m)]) n st1"
      using inv_datagram [OF Cons.prems(1) m(2)] by blast
    obtain st' n' ms where "run_events turn es st1 = Inr st'" "program_inv start ((ds @ [(a, m)]) @ ms) n' st'"
      "arrivals es = packets ms" "set ms \<subseteq> X"
      using Cons.IH [OF st1(2)] Cons.prems m(3) by auto
    then show ?thesis
      using st1(1) Datagram m by (intro exI [of _ st'] exI [of _ n'] exI [of _ "(a, m) # ms"]) simp
  next
    case (MainTurn t)
    then obtain st1 where "turn t st = Inr st1" "program_inv start ds (min (length ds) (Suc n)) st1"
      using inv_turn [OF Cons.prems(1), of t] Cons.prems(2,3) by auto
    then show ?thesis using Cons.IH Cons.prems MainTurn by fastforce
  qed
qed

end

lemma open_listener_receives:
  assumes "open_listener sys port w = Started l"
  shows "(\<exists>u. mListen_socket l = Some u \<and> isBound u) \<and> mCallbackFn l = None \<and> mMessages l = [] \<and> world l = w"
  using assms
  by (auto simp: open_listener_def UdpListeningReceiveSocket_def new_UdpSocket_def Bind_def new_OscListener_def
      ebind_eq_Inr_iff elim!: osc_launch.elims split: if_splits prod.splits)

section \<open>The echo client\<close>

text \<open>The answer to each datagram: back to where it came from.\<close>

definition replies :: "(sockaddr \<times> bytes) list \<Rightarrow> (sockaddr option \<times> bytes) list" where
  "replies ds = map (\<lambda>(a, d). (Some a, d)) ds"

text \<open>
  The lookup of the system gives, for the dotted text of the address of a sender, that address.
\<close>

definition resolves_dotted :: "system \<Rightarrow> sockaddr \<Rightarrow> bool" where
  "resolves_dotted sys a \<longleftrightarrow> sys_resolve sys (dotted (from_endpoint a)) = Some (htonl (sin_addr a))"

definition turn_ok :: "sockaddr list \<Rightarrow> echo_turn \<Rightarrow> bool" where
  "turn_ok as t \<longleftrightarrow> sys_socket (turn_sys t) \<and> sys_connect (turn_sys t) \<and>
     length (turn_buffer t) = MESSAGE_BUFFER_SIZE \<and> list_all (resolves_dotted (turn_sys t)) as"

definition echo_able :: "echo_turn \<Rightarrow> sockaddr \<times> osc_message \<Rightarrow> bool" where
  "echo_able t = (\<lambda>(a, m). turn_ok [a] t \<and> deliverable m \<and> sin_addr a \<noteq> 0xFFFFFFFF)"

lemma echo_turn_message:
  assumes q: "mMessages (rx_listener st) = incoming (a, m) # ms" and "echo_able t (a, m)"
  shows "\<exists>s. echo_main_turn t st = Inr (st\<lparr>rx_listener := (rx_listener st)\<lparr>mMessages := ms\<rparr>,
    echo_sender := s, echo_sent := echo_sent st @ [(Some a, message_packet m)]\<rparr>)"
proof -
  have t: "sys_socket (turn_sys t)" "sys_connect (turn_sys t)" "length (turn_buffer t) = MESSAGE_BUFFER_SIZE"
    "sys_resolve (turn_sys t) (dotted (from_endpoint a)) = Some (htonl (sin_addr a))"
    and a: "deliverable m" "sin_addr a \<noteq> 0xFFFFFFFF"
    using assms(2) by (simp_all add: echo_able_def turn_ok_def resolves_dotted_def)
  let ?m = "arrived (from_endpoint a) m" and ?l = "rx_listener st"
  have poll: "getNextMessage (new_Message (turn_garbage t)) ?l = Inr (True, ?m, ?l\<lparr>mMessages := ms\<rparr>)"
    using q by (simp add: getNextMessage_def Message_copy_eq new_Message_def arrived_def incoming_def)
  obtain u where u: "open_sender (turn_sys t) (getRemoteIp ?m) (getRemotePort ?m) (echo_sender st) =
        Inr ((echo_sender st)\<lparr>socket := Some u\<rparr>)" "isConnected u" "peer u = Some a"
    using open_sender_ok [OF t(1,2), of "getRemoteIp ?m" "getRemotePort ?m" "echo_sender st"]
      reply_address [of a "sys_resolve (turn_sys t)", OF a(2) t(4)]
    by (auto simp: getRemoteIp_def getRemotePort_def arrived_def)
  have "sendMessage (turn_buffer t) ?m ((echo_sender st)\<lparr>socket := Some u\<rparr>) = Inr (Some a, message_packet m)"
    using sendMessage_packet [OF t(3) _ u(2), of _ ?m] a(1) u(3) by (simp add: deliverable_def)
  then show ?thesis using q poll u(1) by (auto simp: echo_main_turn_def hasWaitingMessages_def)
qed

interpretation echo_client:
  queue_program echo_main_turn echo_sent "\<lambda>(a, m) sent. sent @ [(Some a, message_packet m)]" echo_able
proof
  fix st :: echo and t x ms
  assume q: "mMessages (rx_listener st) = incoming x # ms" and ok: "echo_able t x" and "receives st"
  obtain a m where "x = (a, m)" by force
  with echo_turn_message [of st a m ms t] q ok \<open>receives st\<close>
  show "\<exists>st'. echo_main_turn t st = Inr st' \<and> mMessages (rx_listener st') = ms \<and> receives st' \<and>
      echo_sent st' = (case x of (a, m) \<Rightarrow> \<lambda>sent. sent @ [(Some a, message_packet m)]) (echo_sent st)"
    by (auto simp: receives_def)
qed (simp_all add: echo_main_turn_def hasWaitingMessages_def)

text \<open>What was answered is a prefix of what arrived, and enough turns of the loop answer the rest.\<close>

lemma echo_inv_start:
  assumes "OscEchoClient_start sys argv = Started st"
  shows "echo_client.program_inv [] [] 0 st"
  using assms
  by (auto simp: OscEchoClient_start_def usage_def argv_at_def lbind_eq_Started echo_client.program_inv_def receives_def
      dest!: open_listener_receives split: if_splits)

lemma fold_replies:
  "fold (\<lambda>(a, m) sent. sent @ [(Some a, message_packet m)]) ds sent = sent @ replies (packets ds)"
  by (induction ds arbitrary: sent) (auto simp: replies_def)

definition datagram_ok :: "sockaddr \<Rightarrow> bytes \<Rightarrow> bool" where
  "datagram_ok a d \<longleftrightarrow> sin_addr a \<noteq> 0xFFFFFFFF \<and> (\<exists>m. d = message_packet m \<and> deliverable m)"

fun echo_event_ok :: "sockaddr list \<Rightarrow> echo_turn osc_event \<Rightarrow> bool" where
  "echo_event_ok as (Datagram a d g) \<longleftrightarrow> a \<in> set as \<and> datagram_ok a d"
| "echo_event_ok as (MainTurn t) \<longleftrightarrow> turn_ok as t"

definition echo_items :: "sockaddr list \<Rightarrow> (sockaddr \<times> osc_message) set" where
  "echo_items as = {(a, m). a \<in> set as \<and> sin_addr a \<noteq> 0xFFFFFFFF \<and> deliverable m}"

lemma turn_ok_items: "turn_ok as t \<Longrightarrow> x \<in> echo_items as \<Longrightarrow> echo_able t x"
  by (auto simp: echo_items_def echo_able_def turn_ok_def list_all_iff)

lemma echo_event_ok_items: "echo_event_ok as e \<Longrightarrow> echo_client.event_ok (echo_items as) e"
  by (cases e) (auto simp: datagram_ok_def turn_ok_items, auto simp: echo_items_def)

lemma echo_answers:
  assumes "OscEchoClient_start sys argv = Started st" and "list_all (echo_event_ok as) es"
  shows "\<exists>st' n. run_events echo_main_turn es st = Inr st' \<and> n \<le> length (arrivals es) \<and>
    echo_sent st' = replies (take n (arrivals es)) \<and>
    (\<forall>ts. list_all (turn_ok as) ts \<and> length (arrivals es) \<le> n + length ts \<longrightarrow>
      (\<exists>st''. run_events echo_main_turn (map MainTurn ts) st' = Inr st'' \<and> echo_sent st'' = replies (arrivals es)))"
proof -
  have "list_all (echo_client.event_ok (echo_items as)) es"
    using assms(2) echo_event_ok_items by (auto simp: list_all_iff)
  then obtain st' n ms where st': "run_events echo_main_turn es st = Inr st'" "echo_client.program_inv [] ms n st'"
    "arrivals es = packets ms" "set ms \<subseteq> echo_items as"
    using echo_client.inv_run [OF echo_inv_start [OF assms(1)], of "echo_items as" es] by auto
  have "\<exists>st''. run_events echo_main_turn (map MainTurn ts) st' = Inr st'' \<and> echo_sent st'' = replies (arrivals es)"
    if ts: "list_all (turn_ok as) ts" "length (arrivals es) \<le> n + length ts" for ts
  proof -
    have "\<forall>t\<in>set ts. \<forall>x\<in>set ms. echo_able t x"
      by (intro ballI turn_ok_items [of as]) (use ts(1) st'(4) in \<open>auto simp: list_all_iff\<close>)
    from echo_client.inv_turns [OF st'(2) this] show ?thesis
      using ts(2) st'(3) by (auto simp: echo_client.program_inv_def fold_replies min_absorb1)
  qed
  moreover have "echo_sent st' = replies (take n (arrivals es))" "n \<le> length (arrivals es)"
    using st'(2,3) by (auto simp: echo_client.program_inv_def fold_replies packets_def take_map)
  ultimately show ?thesis using st'(1) by blast
qed

section \<open>The sending and the listening program\<close>

text \<open>What is printed of one message.\<close>

fun listing_of_arg :: "osc_arg \<Rightarrow> bytes" where
  "listing_of_arg (ArgInt32 x) = bytes_of ''   int32 : '' @ sprintf_i x @ endl"
| "listing_of_arg (ArgFloat x) = bytes_of ''   float : '' @ show_float x @ endl"
| "listing_of_arg (ArgString s) = bytes_of ''   string : '' @ s @ endl"

definition listing_of :: "osc_message \<Rightarrow> bytes" where
  "listing_of m = address m @ endl @ concat (map listing_of_arg (args m))"

lemma listener_print_args_eq:
  "i \<le> length (args m) \<Longrightarrow> listener_print_args m (int i) = Inr (concat (map listing_of_arg (drop i (args m))))"
proof (induction "length (args m) - i" arbitrary: i)
  case 0
  then show ?case by (subst listener_print_args.simps) (simp add: getNumArgs_def)
next
  case (Suc n)
  then have i: "i < length (args m)" by simp
  have ih: "listener_print_args m (int i + 1) = Inr (concat (map listing_of_arg (drop (Suc i) (args m))))"
    using Suc.hyps(1) [of "Suc i"] Suc.hyps(2) i by (simp add: add.commute)
  show ?case
    by (subst listener_print_args.simps, cases "args m ! i")
      (use i ih in \<open>simp_all add: getNumArgs_def getArgType_def getArgTypeName_def getArgAsInt32_def getArgAsFloat_def
        getArgAsString_def arg_at_def bytes_of_def Cons_nth_drop_Suc [symmetric]\<close>)
qed

definition listens_to :: "int32 \<Rightarrow> sockaddr \<times> osc_message \<Rightarrow> bool" where
  "listens_to garbage x \<longleftrightarrow> True"

interpretation listening_client:
  queue_program listener_main_turn li_output "\<lambda>x shown. shown @ listing_of (incoming x)" listens_to
proof
  fix st :: listening_program and t x ms
  assume q: "mMessages (rx_listener st) = incoming x # ms" and "receives st"
  have "getNextMessage (new_Message t) (rx_listener st) = Inr (True, incoming x, (rx_listener st)\<lparr>mMessages := ms\<rparr>)"
    using q by (cases x) (simp add: getNextMessage_def Message_copy_eq new_Message_def arrived_def incoming_def)
  with q \<open>receives st\<close> listener_print_args_eq [of 0 "incoming x"]
  show "\<exists>st'. listener_main_turn t st = Inr st' \<and> mMessages (rx_listener st') = ms \<and> receives st' \<and>
      li_output st' = li_output st @ listing_of (incoming x)"
    by (simp add: listener_main_turn_def hasWaitingMessages_def receives_def listing_of_def getAddress_def)
qed (simp_all add: listener_main_turn_def hasWaitingMessages_def)

text \<open>What the sending program sends, and prints, in every turn.\<close>

lemma sensor_message_deliverable: "deliverable (sensor_message g)"
  by (simp add: deliverable_def message_packet_def sensor_message_def Let_def setAddress_def new_Message_def addIntArg_def
      addFloatArg_def message_tree_def length_enc_bundle length_enc_message length_enc_args roundup4_def
      MAX_BUFFER_SIZE_def plain_address_def c_str_def bytes_of_def byte_of_def)

text \<open>The two programs together: every datagram of the sending program, whose turns send
  \<open>message_packet (sensor_message g)\<close>, appears in the output of the listening program as these lines.\<close>

definition sensor_lines :: bytes where
  "sensor_lines =
     bytes_of ''rotation-x/rotation-y/rotation-z/joystick/dpad-x/dpad-y'' @ endl @
     bytes_of ''   int32 : 5'' @ endl @ bytes_of ''   float : 0.21'' @ endl @ bytes_of ''   float : 0.0019'' @ endl @
     bytes_of ''   float : 0.5'' @ endl @ bytes_of ''   float : 21'' @ endl @ bytes_of ''   float : 0'' @ endl @
     bytes_of ''   float : -13.5'' @ endl"

lemmas float_text =
  show_float_def float_exponent_def float_fraction_def float_negative_def float_magnitude_def show_ratio_def
  show_nat.simps leading_zeros.simps round_div_def with_fraction_def strip_zeros_def show_signed_def Let_def

lemma sensor_floats:
  "show_float 0x3E570A3D = bytes_of ''0.21''" "show_float 0x3AF9096C = bytes_of ''0.0019''"
  "show_float 0x3F000000 = bytes_of ''0.5''" "show_float 0x41A80000 = bytes_of ''21''"
  "show_float 0 = bytes_of ''0''" "show_float 0xC1580000 = bytes_of ''-13.5''"
proof -
  have "replicate 2 x = [x, x]" for x :: byte by (simp add: numeral_2_eq_2)
  then show "show_float 0x3E570A3D = bytes_of ''0.21''" "show_float 0x3AF9096C = bytes_of ''0.0019''"
      "show_float 0x3F000000 = bytes_of ''0.5''" "show_float 0x41A80000 = bytes_of ''21''"
      "show_float 0 = bytes_of ''0''" "show_float 0xC1580000 = bytes_of ''-13.5''"
    by (simp_all add: float_text bytes_of_def byte_of_def)
qed

lemma sprintf_i_5: "sprintf_i 5 = bytes_of ''5''"
  by (simp add: sprintf_i_def show_nat.simps bytes_of_def byte_of_def)

lemma printed_sensor_message: "listing_of (arrived ep (sensor_message g)) = sensor_lines"
  by (simp add: listing_of_def arrived_def sensor_message_def Let_def setAddress_def new_Message_def addIntArg_def
      addFloatArg_def sensor_floats sprintf_i_5 sensor_lines_def bytes_of_def byte_of_def c_str_def)

text \<open>A run of the listening program.\<close>

lemma fold_printed:
  "fold (\<lambda>x shown. shown @ listing_of (incoming x)) ds shown = shown @ concat (map (\<lambda>x. listing_of (incoming x)) ds)"
  by (induction ds arbitrary: shown) auto

lemma listening_start:
  assumes "OscListener_start sys argv = Started st"
  shows "listening_client.program_inv (li_output st) [] 0 st"
  using assms
  by (auto simp: OscListener_start_def usage_def argv_at_def lbind_eq_Started listening_client.program_inv_def receives_def
      dest!: open_listener_receives split: if_splits)

lemma listening_prints:
  assumes "OscListener_start sys argv = Started st"
    and "\<forall>e\<in>set es. case e of Datagram a d g \<Rightarrow> \<exists>m. d = message_packet m \<and> deliverable m | MainTurn t \<Rightarrow> True"
  shows "\<exists>st' n ms. run_events listener_main_turn es st = Inr st' \<and> arrivals es = packets ms \<and>
    li_output st' = li_output st @ concat (map (\<lambda>x. listing_of (incoming x)) (take n ms)) \<and>
    mMessages (rx_listener st') = map incoming (drop n ms)"
proof -
  have "list_all (listening_client.event_ok UNIV) es"
    unfolding list_all_iff
  proof
    fix e
    assume "e \<in> set es"
    with assms(2) have "case e of Datagram a d g \<Rightarrow> \<exists>m. d = message_packet m \<and> deliverable m | MainTurn t \<Rightarrow> True"
      by blast
    then show "listening_client.event_ok UNIV e" by (cases e) (auto simp: listens_to_def)
  qed
  from listening_client.inv_run [OF listening_start [OF assms(1)] this] show ?thesis
    by (auto simp: listening_client.program_inv_def fold_printed drop_map)
qed

lemma sender_turn_sends:
  assumes "OscSender_start sys argv = Started s" and "length buffer = MESSAGE_BUFFER_SIZE"
  shows "\<exists>host port lines. argv ! 1 = host \<and> atoi (argv ! 2) = Started port \<and>
    sender_turn garbage buffer s =
      Inr ((Some (SockaddrFromIpEndpointName (endpoint_name (sys_resolve sys) (c_str host) port)),
        message_packet (sensor_message garbage)), lines)"
proof -
  obtain host port where hp: "argv ! 1 = host" "atoi (argv ! 2) = Started port"
    "open_sender sys host port new_OscSender = Inr s"
    using assms(1)
    by (auto simp: OscSender_start_def usage_def argv_at_def lbind_eq_Started elim!: osc_launch.elims split: if_splits)
  let ?a = "SockaddrFromIpEndpointName (endpoint_name (sys_resolve sys) (c_str host) port)"
  have "sys_socket sys" "sys_connect sys"
    using hp(3) by (auto simp: open_sender_def Sender_setup_def UdpTransmitSocket_def new_UdpSocket_def Connect_def
        Let_def ebind_eq_Inr_iff new_OscSender_def split: if_splits sum.splits)
  then obtain u where u: "socket s = Some u" "isConnected u" "peer u = Some ?a"
    using open_sender_ok [of sys host port new_OscSender] hp(3) by auto
  have send: "sendMessage buffer (sensor_message garbage) s = Inr (Some ?a, message_packet (sensor_message garbage))"
    using sendMessage_packet [OF assms(2) u(1,2)] sensor_message_deliverable u(3) by (simp add: deliverable_def)
  have "\<exists>lines. sender_print_args (sensor_message garbage) 0 = Inr lines"
    by (simp add: sender_print_args.simps getNumArgs_def getArgType_def getArgAsInt32_def getArgAsFloat_def arg_at_def
        sensor_message_def Let_def setAddress_def new_Message_def addIntArg_def addFloatArg_def nth_Cons')
  with send hp(1,2) show ?thesis by (auto simp: sender_turn_def Let_def)
qed

end
