(* ===== verification/OscPerformance.thy ===== *)
theory OscPerformance
  imports OscPrograms Doubles
begin

text \<open>
  \<^verbatim>\<open>OscPerformanceTest/main.cpp\<close> of \<^verbatim>\<open>product/xcode/EscPlatform\<close>: it measures the time until an echo client
  returns a message.  A \<^verbatim>\<open>float\<close> or \<^verbatim>\<open>double\<close> is the rational it stands for, as in \<open>Doubles\<close>; times
  are far from overflow and from the subnormal numbers.  The clock of the system counts microseconds.
\<close>

section \<open>Single precision\<close>

text \<open>Rounding to the 24 significant bits of a \<^verbatim>\<open>float\<close>.\<close>

definition fl24 :: "rat \<Rightarrow> rat" where
  "fl24 x = (if x = 0 then 0
             else let e = log2_floor x - 23 in of_int (round_half_even (x / powi2 e)) * powi2 e)"

text \<open>\<^verbatim>\<open>duration<float>\<close> of two times: the count is converted and divided by the float 1000000.\<close>

definition elapsed_seconds :: "int \<Rightarrow> int \<Rightarrow> rat" where
  "elapsed_seconds begun ended = fl24 (fl24 (of_int (ended - begun)) / 1000000)"

section \<open>Maths\<close>

text \<open>
  \<^verbatim>\<open>std::accumulate(.., 0)\<close>: the accumulator has the type of the initial value, an \<^verbatim>\<open>int\<close>, so every
  sum is computed as a \<^verbatim>\<open>float\<close> and truncated; \<open>None\<close> is a conversion whose behaviour is undefined.
\<close>

fun accumulate_int :: "int \<Rightarrow> rat list \<Rightarrow> int option" where
  "accumulate_int n [] = Some n"
| "accumulate_int n (x # xs) =
     (let t = trunc (fl24 (fl24 (of_int n) + x)) in
      if - (2 ^ 31) \<le> t \<and> t < 2 ^ 31 then accumulate_int t xs else None)"

text \<open>\<open>None\<close> is such a conversion, or \<^verbatim>\<open>0 / 0\<close> for the empty list, which is not a number.\<close>

definition computeMean :: "rat list \<Rightarrow> rat option" where
  "computeMean numbers =
     (case accumulate_int 0 numbers of
        None \<Rightarrow> None
      | Some s \<Rightarrow>
          let number_count = fl24 (of_nat (length numbers)); number_sum = fl24 (of_int s)
          in if number_count = 0 then None else Some (fl24 (number_sum / number_count)))"

text \<open>
  \<^verbatim>\<open>*std::min_element\<close> and \<^verbatim>\<open>*std::max_element\<close>: the first smallest and the first largest; for the
  empty list they are the end, which cannot be read.
\<close>

fun first_best :: "(rat \<Rightarrow> rat \<Rightarrow> bool) \<Rightarrow> rat \<Rightarrow> rat list \<Rightarrow> rat" where
  "first_best better best [] = best"
| "first_best better best (x # xs) = first_best better (if better x best then x else best) xs"

definition computeMin :: "rat list \<Rightarrow> osc_error + rat" where
  "computeMin numbers = (case numbers of [] \<Rightarrow> Inl Fault | x # xs \<Rightarrow> Inr (first_best (\<lambda>a b. a < b) x xs))"

definition computeMax :: "rat list \<Rightarrow> osc_error + rat" where
  "computeMax numbers = (case numbers of [] \<Rightarrow> Inl Fault | x # xs \<Rightarrow> Inr (first_best (\<lambda>a b. b < a) x xs))"

section \<open>The callbacks\<close>

text \<open>The global variables, and the time that \<^verbatim>\<open>system_clock::now()\<close> gives.\<close>

record timing =
  latencies :: "rat list"
  timer_start :: int
  timer_end :: int
  returned_messages :: int32
  clock :: int

text \<open>The literal \<^verbatim>\<open>0.001\<close> is a \<^verbatim>\<open>double\<close>, and so is the product.\<close>

definition latency_messageReturned :: "timing \<Rightarrow> timing" where
  "latency_messageReturned w =
     (let w = w\<lparr>timer_end := clock w\<rparr>;
          time = fl24 (fl (elapsed_seconds (timer_start w) (timer_end w) * fl (1 / 1000)))
      in w\<lparr>latencies := latencies w @ [time]\<rparr>)"

definition bandwidth_messageReturned :: "timing \<Rightarrow> timing" where
  "bandwidth_messageReturned w = w\<lparr>returned_messages := returned_messages w + 1\<rparr>"

section \<open>The program\<close>

text \<open>Where \<^verbatim>\<open>main\<close> is; the listening thread runs from \<open>SetLatencyCallback\<close> on.\<close>

datatype perf_pc =
    SetLatencyCallback
  | SetupSender
  | ClearLatencies
  | LatencyTest
  | LatencyWaiting
  | LatencyBody
  | SetBandwidthCallback
  | BandwidthTest
  | BandwidthWaiting
  | BandwidthBody
  | ShutdownSender
  | MainReturned

record performance = "timing receiving" +
  perf_pc :: perf_pc
  peer_endpoint :: bytes
  peer_port :: int32
  performLatency :: bool
  performBandwidth :: bool
  sent_messages :: int
  perf_sender :: osc_sender
  perf_sent :: "(sockaddr option \<times> bytes) list"
  perf_results :: "(rat \<times> rat \<times> rat option) list"
  perf_totals :: "(int \<times> rat) list"

definition latency_message_limit :: int where "latency_message_limit = 10"
definition bandwidth_message_limit :: int where "bandwidth_message_limit = 1000"

definition OscPerformanceTest_start :: "system \<Rightarrow> int \<Rightarrow> bytes list \<Rightarrow> performance launch" where
  "OscPerformanceTest_start sys time argv =
     (if length argv < 4 then usage argv
      else
        lbind (argv_at argv 1) (\<lambda>peer_endpoint.
        lbind (lbind (argv_at argv 2) atoi) (\<lambda>peer_port.
        lbind (lbind (argv_at argv 3) atoi) (\<lambda>listen_port.
        let latency_only = (length argv = 5 \<and> argv ! 4 = bytes_of ''-l'');
            bandwidth_only = (length argv = 5 \<and> argv ! 4 \<noteq> bytes_of ''-l'' \<and> argv ! 4 = bytes_of ''-b'')
        in
        lbind (open_listener sys listen_port
          \<lparr>latencies = [], timer_start = 0, timer_end = 0, returned_messages = 0, clock = time\<rparr>) (\<lambda>l.
          Started \<lparr>rx_listener = l, rx_stuck = False, perf_pc = SetLatencyCallback,
            peer_endpoint = peer_endpoint, peer_port = peer_port,
            performLatency = (\<not> bandwidth_only), performBandwidth = (\<not> latency_only), sent_messages = 0,
            perf_sender = new_OscSender, perf_sent = [], perf_results = [], perf_totals = []\<rparr>)))))"

definition test_message :: "bytes \<Rightarrow> int32 \<Rightarrow> osc_message" where
  "test_message addr garbage = addStringArg (bytes_of ''string argument'') (setAddress addr (new_Message garbage))"

definition in_world :: "('w \<Rightarrow> 'w) \<Rightarrow> ('w, 'x) receiving_scheme \<Rightarrow> ('w, 'x) receiving_scheme" where
  "in_world f st = st\<lparr>rx_listener := (rx_listener st)\<lparr>world := f (world (rx_listener st))\<rparr>\<rparr>"

abbreviation the_world :: "('w, 'x) receiving_scheme \<Rightarrow> 'w" where
  "the_world st \<equiv> world (rx_listener st)"

definition set_callback ::
    "('w \<Rightarrow> 'w) \<Rightarrow> ('w, 'x) receiving_scheme \<Rightarrow> ('w, 'x) receiving_scheme" where
  "set_callback f st = st\<lparr>rx_listener := setMessageReceivedCb (Some (\<lambda>m. f)) (rx_listener st)\<rparr>"

text \<open>\<^verbatim>\<open>timer_start = now()\<close> and one message; then \<^verbatim>\<open>sent_messages++\<close>.\<close>

definition send_test :: "bytes \<Rightarrow> echo_turn \<Rightarrow> performance \<Rightarrow> osc_error + performance" where
  "send_test addr t st =
     (let st = in_world (\<lambda>w. w\<lparr>timer_start := clock w\<rparr>) st in
      ebind (sendMessage (turn_buffer t) (test_message addr (turn_garbage t)) (perf_sender st)) (\<lambda>d.
        Inr (st\<lparr>perf_sent := perf_sent st @ [d], sent_messages := sent_messages st + 1\<rparr>)))"

definition report_latencies :: "performance \<Rightarrow> osc_error + performance" where
  "report_latencies st =
     ebind (computeMin (latencies (the_world st))) (\<lambda>lo.
     ebind (computeMax (latencies (the_world st))) (\<lambda>hi.
       Inr (st\<lparr>perf_results := perf_results st @ [(lo, hi, computeMean (latencies (the_world st)))],
               performLatency := False\<rparr>)))"

definition report_bandwidth :: "performance \<Rightarrow> performance" where
  "report_bandwidth st =
     (let st = in_world (\<lambda>w. w\<lparr>timer_end := clock w\<rparr>) st; w = the_world st
      in st\<lparr>perf_totals := perf_totals st @ [(sent_messages st, elapsed_seconds (timer_start w) (timer_end w))],
            performBandwidth := False\<rparr>)"

text \<open>
  One step of \<^verbatim>\<open>main\<close>.  The pauses change nothing; in one of them, as between any two steps, the
  receiving thread may take any number of datagrams.
\<close>

fun perf_step :: "echo_turn \<Rightarrow> performance \<Rightarrow> osc_error + performance" where
  "perf_step t st =
     (case perf_pc st of
        SetLatencyCallback \<Rightarrow> Inr (set_callback latency_messageReturned st\<lparr>perf_pc := SetupSender\<rparr>)
      | SetupSender \<Rightarrow>
          ebind (open_sender (turn_sys t) (peer_endpoint st) (peer_port st) (perf_sender st)) (\<lambda>s.
            Inr (st\<lparr>perf_sender := s, perf_pc := ClearLatencies\<rparr>))
      | ClearLatencies \<Rightarrow> Inr (in_world (latencies_update (\<lambda>_. [])) st\<lparr>sent_messages := 0, perf_pc := LatencyTest\<rparr>)
      | LatencyTest \<Rightarrow> Inr (st\<lparr>perf_pc := if performLatency st then LatencyWaiting else SetBandwidthCallback\<rparr>)
      | LatencyWaiting \<Rightarrow>
          Inr (st\<lparr>perf_pc := if hasWaitingMessages (rx_listener st) then LatencyBody else LatencyTest\<rparr>)
      | LatencyBody \<Rightarrow>
          ebind (if latency_message_limit \<le> sent_messages st then report_latencies st else Inr st) (\<lambda>st.
          ebind (if int (length (latencies (the_world st))) = sent_messages st
                 then send_test (bytes_of ''/test/latency'') t st else Inr st) (\<lambda>st.
            Inr (st\<lparr>perf_pc := LatencyWaiting\<rparr>)))
      | SetBandwidthCallback \<Rightarrow>
          Inr (in_world (returned_messages_update (\<lambda>_. 0)) (set_callback bandwidth_messageReturned st)
            \<lparr>sent_messages := 0, perf_pc := BandwidthTest\<rparr>)
      | BandwidthTest \<Rightarrow> Inr (st\<lparr>perf_pc := if performBandwidth st then BandwidthWaiting else ShutdownSender\<rparr>)
      | BandwidthWaiting \<Rightarrow>
          Inr (st\<lparr>perf_pc := if hasWaitingMessages (rx_listener st) then BandwidthBody else BandwidthTest\<rparr>)
      | BandwidthBody \<Rightarrow>
          if sent_messages st < bandwidth_message_limit then send_test (bytes_of ''/test/bandwidth'') t st
          else
            Inr ((if sent_messages st = sint (returned_messages (the_world st)) then report_bandwidth st else st)
              \<lparr>perf_pc := BandwidthWaiting\<rparr>)
      | ShutdownSender \<Rightarrow> Inr (st\<lparr>perf_sender := Sender_shutdown (perf_sender st), perf_pc := MainReturned\<rparr>)
      | MainReturned \<Rightarrow> Inr st)"

declare perf_step.simps [simp del]

text \<open>A run: time passes, a datagram arrives, or \<^verbatim>\<open>main\<close> makes a step.\<close>

datatype perf_event = ClockIs int | NetworkOrMain "echo_turn osc_event"

fun perf_run :: "perf_event list \<Rightarrow> performance \<Rightarrow> osc_error + performance" where
  "perf_run [] st = Inr st"
| "perf_run (ClockIs t # es) st = perf_run es (in_world (clock_update (\<lambda>_. t)) st)"
| "perf_run (NetworkOrMain e # es) st = ebind (run_events perf_step [e] st) (perf_run es)"

section \<open>What it computes and why it does not end\<close>

text \<open>Every time below one thousand seconds counts 0 in the mean.\<close>

lemma trunc_less_1: "0 \<le> x \<Longrightarrow> x < 1 \<Longrightarrow> trunc x = 0"
  by (simp add: trunc_def floor_eq_iff)

lemma fl24_0 [simp]: "fl24 0 = 0"
  by (simp add: fl24_def)

end
