(* ===== verification/OscPerformanceSpec.thy ===== *)
theory OscPerformanceSpec
  imports OscPerformance OscProgramsSpec
begin

text \<open>
  What the latency and bandwidth tests of \<^verbatim>\<open>OscPerformanceTest\<close> do: nothing takes messages from the queue
  their loops wait for, so \<^verbatim>\<open>main\<close> never returns; and the mean of the times is computed from integers.
\<close>

section \<open>What a walk keeps\<close>

text \<open>A relation that the handler keeps is kept by the walk over any packet.\<close>

lemma process_elements_keeps:
  assumes "\<And>m s. R s (fst (pm m s))" and "reflp R" and "transp R"
    and "process_elements mem pm p e s = Some (s', thrown)"
  shows "R s s'"
proof -
  let ?P = "\<lambda>mem pm p e s y. (\<forall>m s. R s (fst (pm m s))) \<longrightarrow> R s (fst y)"
  have refl: "R s s" for s using assms(2) by (rule reflpD)
  have "?P mem pm p e s (s', thrown)"
    using assms(4)
  proof (rule process_elements.raw_induct [where P = ?P, rotated])
    fix walk mem pm p e s y
    assume ih: "\<And>mem pm p e s y. walk mem pm p e s = Some y \<Longrightarrow> ?P mem pm p e s y"
      and body: "(if p = e then Some (s, None)
        else case Element_IsBundle mem p of
            Inl err \<Rightarrow> Some (s, Some err)
          | Inr is_bundle \<Rightarrow>
              Option.bind
                (if is_bundle then
                   case ReceivedBundle_element mem p of
                     None \<Rightarrow> None
                   | Some (Inl err) \<Rightarrow> Some (s, Some err)
                   | Some (Inr b) \<Rightarrow> walk mem pm (ElementsBegin b) (ElementsEnd b) s
                 else
                   case ReceivedMessage_element mem p of
                     Inl err \<Rightarrow> Some (s, Some err)
                   | Inr m \<Rightarrow> Some (pm m s))
                (\<lambda>(s', thrown).
                  case thrown of
                    Some err \<Rightarrow> Some (s', Some err)
                  | None \<Rightarrow>
                      case Element_Advance mem p of
                        Inl err \<Rightarrow> Some (s', Some err)
                      | Inr q \<Rightarrow> walk mem pm q e s')) = Some y"
    show "?P mem pm p e s y"
    proof
      assume keeps: "\<forall>m s. R s (fst (pm m s))"
      show "R s (fst y)"
      proof (cases "p = e")
        case True
        then show ?thesis using body refl by auto
      next
        case False
        show ?thesis
        proof (cases "Element_IsBundle mem p")
          case (Inl err)
          then show ?thesis using body False refl by auto
        next
          case (Inr is_bundle)
          let ?first = "if is_bundle then
                   case ReceivedBundle_element mem p of
                     None \<Rightarrow> None
                   | Some (Inl err) \<Rightarrow> Some (s, Some err)
                   | Some (Inr b) \<Rightarrow> walk mem pm (ElementsBegin b) (ElementsEnd b) s
                 else
                   case ReceivedMessage_element mem p of
                     Inl err \<Rightarrow> Some (s, Some err)
                   | Inr m \<Rightarrow> Some (pm m s)"
          obtain s1 t1 where first: "?first = Some (s1, t1)"
            using body False Inr by (cases ?first) auto
          have walked: "R s s'" if "walk mem pm p e s = Some (s', t)" for p e s s' t
            using ih [OF that] keeps by simp
          have handled: "R s s'" if "pm m s = (s', t)" for m s'  t
            using keeps that by (metis fst_conv)
          have "R s s1"
            using first refl by (auto split: if_splits option.splits sum.splits dest: walked handled)
          moreover have "R s1 (fst y)"
          proof (cases t1)
            case None
            then show ?thesis
              using body False Inr first refl by (cases y) (auto split: sum.splits dest: walked)
          next
            case (Some err)
            then show ?thesis using body False Inr first refl by auto
          qed
          ultimately show ?thesis using assms(3) by (rule transpD [rotated])
        qed
      qed
    qed
  qed
  with assms(1) show ?thesis by simp
qed

lemma ProcessPacket_keeps:
  assumes "\<And>m s. R s (fst (pm m s))" and "reflp R" and "transp R"
    and "ProcessPacket data sz pm s = Some (s', thrown)"
  shows "R s s'"
proof -
  have refl: "R s s" using assms(2) by (rule reflpD)
  have handled: "R s s'" if "pm m s = (s', t)" for m s' t
    using assms(1) [of s m] that by simp
  show ?thesis
    using assms(4) refl
    by (auto simp: ProcessPacket_def ProcessBundle_def Let_def split: sum.splits option.splits bool.splits
        dest: handled process_elements_keeps [of R pm, OF assms(1-3)])
qed

section \<open>What a datagram changes of a program\<close>

text \<open>The callback stays; without one the queue grows, with one it stays.\<close>

definition queue_kept :: "'w osc_listener \<Rightarrow> 'w osc_listener \<Rightarrow> bool" where
  "queue_kept l l' \<longleftrightarrow> mCallbackFn l' = mCallbackFn l \<and>
     (if mCallbackFn l = None then \<exists>ms. mMessages l' = mMessages l @ ms else mMessages l' = mMessages l)"

lemma queue_kept_order: "reflp queue_kept" "transp queue_kept"
  by (auto simp: queue_kept_def reflp_def transp_def split: if_splits)

lemma ProcessMessage_keeps: "queue_kept l (fst (ProcessMessage mem ep g m l))"
  by (auto simp: ProcessMessage_def queue_kept_def deliver_message_def split: sum.splits option.splits)

lemma receive_event_keeps:
  assumes "receive_event g d st = Inr st'"
  shows "st' = st\<lparr>rx_listener := rx_listener st', rx_stuck := rx_stuck st'\<rparr> \<and>
    queue_kept (rx_listener st) (rx_listener st')"
proof -
  have k: "queue_kept l l'" if "receive_datagram d u g l = Some (l', None)" for u l l'
    using that ProcessPacket_keeps [OF ProcessMessage_keeps queue_kept_order] reflpD [OF queue_kept_order(1)]
    by (auto simp: receive_datagram_def split: sum.splits option.splits prod.splits if_splits)
  have r: "queue_kept l l" for l :: "'w osc_listener" by (rule reflpD [OF queue_kept_order(1)])
  show ?thesis
    using assms r
    by (cases st) (auto simp: receive_event_def split: if_splits option.splits prod.splits dest!: k)
qed

section \<open>The test does not end\<close>

definition waiting :: "performance \<Rightarrow> bool" where
  "waiting st \<longleftrightarrow> mMessages (rx_listener st) \<noteq> []"

text \<open>
  From \<open>SetupSender\<close> on there is a callback, so the queue keeps what it then holds.  If that is nothing,
  the bodies of the loops never run; if it is something, the loops around the bodies never end.
\<close>

definition perf_inv :: "performance \<Rightarrow> bool" where
  "perf_inv st \<longleftrightarrow>
     (perf_pc st = SetLatencyCallback \<or> mCallbackFn (rx_listener st) \<noteq> None) \<and>
     (perf_sent st \<noteq> [] \<longrightarrow> waiting st \<and> perf_pc st \<notin> {SetLatencyCallback, SetupSender, ClearLatencies}) \<and>
     (case perf_pc st of
        LatencyWaiting \<Rightarrow> waiting st \<or> performLatency st
      | LatencyBody \<Rightarrow> waiting st
      | SetBandwidthCallback \<Rightarrow> performBandwidth st
      | BandwidthTest \<Rightarrow> performBandwidth st
      | BandwidthWaiting \<Rightarrow> waiting st \<or> performBandwidth st
      | BandwidthBody \<Rightarrow> waiting st
      | ShutdownSender \<Rightarrow> False
      | MainReturned \<Rightarrow> False
      | _ \<Rightarrow> performLatency st \<or> performBandwidth st)"

lemma perf_inv_start:
  assumes "OscPerformanceTest_start sys time argv = Started st"
  shows "perf_inv st"
  using assms
  by (auto simp: OscPerformanceTest_start_def usage_def argv_at_def lbind_eq_Started Let_def perf_inv_def split: if_splits)

lemma send_test_keeps:
  assumes "send_test addr t st = Inr st'"
  shows "mMessages (rx_listener st') = mMessages (rx_listener st) \<and>
    mCallbackFn (rx_listener st') = mCallbackFn (rx_listener st) \<and> perf_pc st' = perf_pc st"
  using assms by (auto simp: send_test_def in_world_def Let_def ebind_eq_Inr_iff)

lemma report_latencies_keeps:
  assumes "report_latencies st = Inr st'"
  shows "mMessages (rx_listener st') = mMessages (rx_listener st) \<and>
    mCallbackFn (rx_listener st') = mCallbackFn (rx_listener st)"
  using assms by (auto simp: report_latencies_def ebind_eq_Inr_iff)

lemma report_bandwidth_keeps [simp]:
  "mMessages (rx_listener (report_bandwidth st)) = mMessages (rx_listener st)"
  "mCallbackFn (rx_listener (report_bandwidth st)) = mCallbackFn (rx_listener st)"
  "perf_sent (report_bandwidth st) = perf_sent st"
  by (simp_all add: report_bandwidth_def in_world_def Let_def)

lemma perf_inv_step:
  assumes "perf_inv st" and "perf_step t st = Inr st'"
  shows "perf_inv st'"
  using assms
  by (cases "perf_pc st")
    (auto simp: perf_step.simps perf_inv_def waiting_def hasWaitingMessages_def set_callback_def setMessageReceivedCb_def
      in_world_def ebind_eq_Inr_iff split: if_splits dest!: send_test_keeps report_latencies_keeps)

lemma perf_inv_receive:
  assumes "perf_inv st" and "receive_event g d st = Inr st'"
  shows "perf_inv st'"
proof -
  obtain l b where "st' = st\<lparr>rx_listener := l, rx_stuck := b\<rparr>" "queue_kept (rx_listener st) l"
    using receive_event_keeps [OF assms(2)] by blast
  with assms(1) show ?thesis
    by (auto simp: perf_inv_def waiting_def queue_kept_def split: perf_pc.splits if_splits)
qed

text \<open>If the callback is there before the first message, nothing is ever sent.\<close>

definition quiet :: "performance \<Rightarrow> bool" where
  "quiet st \<longleftrightarrow> \<not> waiting st \<and> mCallbackFn (rx_listener st) \<noteq> None"

lemma quiet_step: "quiet st \<Longrightarrow> perf_step t st = Inr st' \<Longrightarrow> quiet st'"
  by (cases "perf_pc st")
    (auto simp: perf_step.simps quiet_def waiting_def hasWaitingMessages_def set_callback_def setMessageReceivedCb_def
      in_world_def ebind_eq_Inr_iff split: if_splits dest!: send_test_keeps report_latencies_keeps)

lemma quiet_receive: "quiet st \<Longrightarrow> receive_event g d st = Inr st' \<Longrightarrow> quiet st'"
  using receive_event_keeps [of g d st st'] by (auto simp: quiet_def waiting_def queue_kept_def)

lemma perf_run_keeps:
  assumes "\<And>t st st'. P st \<Longrightarrow> perf_step t st = Inr st' \<Longrightarrow> P st'"
    and "\<And>g d st st'. P st \<Longrightarrow> receive_event g d st = Inr st' \<Longrightarrow> P st'"
    and "\<And>t st. P st \<Longrightarrow> P (in_world (clock_update (\<lambda>_. t)) st)"
    and "P st" and "perf_run es st = Inr st'"
  shows "P st'"
  using assms(4,5)
proof (induction es st rule: perf_run.induct)
  case (2 t es st)
  then show ?case using assms(3) by simp
next
  case (3 e es st)
  then obtain st1 where st1: "run_events perf_step [e] st = Inr st1" "perf_run es st1 = Inr st'"
    by (auto simp: ebind_eq_Inr_iff)
  have "P st1"
  proof (cases e)
    case (Datagram a d g)
    then show ?thesis using st1(1) assms(2) [OF 3(2), of g "(a, d)" st1] by (simp add: ebind_eq_Inr_iff)
  next
    case (MainTurn t)
    then show ?thesis using st1(1) assms(1) [OF 3(2), of t st1] by (simp add: ebind_eq_Inr_iff)
  qed
  then show ?case using 3(1) [OF st1(1)] st1(2) by blast
qed simp

lemma perf_inv_run:
  assumes "perf_inv st" and "perf_run es st = Inr st'"
  shows "perf_inv st'"
  by (rule perf_run_keeps [of perf_inv, OF perf_inv_step perf_inv_receive _ assms])
    (auto simp: perf_inv_def waiting_def in_world_def split: perf_pc.splits)

lemma quiet_run:
  assumes "quiet st" and "perf_run es st = Inr st'"
  shows "quiet st'"
  by (rule perf_run_keeps [of quiet, OF quiet_step quiet_receive _ assms])
    (auto simp: quiet_def waiting_def in_world_def)

lemma quiet_after_callback:
  assumes "OscPerformanceTest_start sys time argv = Started st" and "perf_step t st = Inr st1"
  shows "quiet st1"
proof -
  have "perf_pc st = SetLatencyCallback" "mMessages (rx_listener st) = []"
    using assms(1) open_listener_receives
    by (auto simp: OscPerformanceTest_start_def usage_def argv_at_def lbind_eq_Started Let_def split: if_splits
        dest!: open_listener_receives)
  then show ?thesis
    using assms(2) by (auto simp: perf_step.simps quiet_def waiting_def set_callback_def setMessageReceivedCb_def)
qed

section \<open>The results\<close>

lemma first_best_less:
  "first_best (\<lambda>a b. a < b) best xs \<in> insert best (set xs) \<and> (\<forall>x\<in>insert best (set xs). first_best (\<lambda>a b. a < b) best xs \<le> x)"
  by (induction xs arbitrary: best) (auto intro: order_trans less_imp_le simp: not_less, (metis not_le order_trans order_less_imp_le)+)

lemma computeMin_least: "computeMin xs = Inr m \<Longrightarrow> m \<in> set xs \<and> (\<forall>x\<in>set xs. m \<le> x)"
  using first_best_less by (auto simp: computeMin_def split: list.splits)

lemma powi2_shift: "powi2 (k + 1) = 2 * powi2 k"
proof -
  consider "0 \<le> k" | "k = - 1" | "k < - 1" by linarith
  then show ?thesis
  proof cases
    case 1
    then show ?thesis by (simp add: powi2_def nat_add_distrib)
  next
    case 2
    then show ?thesis by (simp add: powi2_def)
  next
    case 3
    then have "nat (- k) = Suc (nat (- (k + 1)))" by simp
    then show ?thesis using 3 by (simp add: powi2_def del: minus_add_distrib)
  qed
qed

lemma powi2_le: "powi2 (k - int n) \<le> powi2 k"
proof (induction n)
  case (Suc n)
  have "2 * powi2 (k - int (Suc n)) = powi2 (k - int n)" using powi2_shift [of "k - int (Suc n)"] by (simp add: algebra_simps)
  then have "powi2 (k - int (Suc n)) \<le> powi2 (k - int n)" using powi2_pos [of "k - int (Suc n)"] by linarith
  then show ?case using Suc by linarith
qed simp

lemma powi2_diff: "powi2 (int a - int b) = 2 ^ a / 2 ^ b"
  by (simp add: powi2_def nat_diff_distrib' power_diff)

lemma log2_floor_le:
  assumes "0 < x"
  shows "powi2 (log2_floor x) \<le> x"
proof -
  obtain n d where q: "quotient_of x = (n, d)" by force
  have d: "0 < d" using quotient_of_denom_pos [OF q] .
  have x: "x = of_int n / of_int d" using quotient_of_div [OF q] .
  have n: "0 < n" using assms d x by (simp add: zero_less_divide_iff)
  let ?a = "floorlog 2 (nat n)" and ?b = "floorlog 2 (nat d)"
  have len: "1 \<le> floorlog 2 k" if "0 < k" for k using that by (simp add: floorlog_def)
  have "2 ^ (?a - 1) \<le> nat n" using floorlog_bounds(1) [of "nat n"] n by simp
  then have lo: "(2 :: rat) ^ (?a - 1) \<le> of_int n"
    by (metis (mono_tags) n nat_0_le of_int_of_nat_eq of_nat_le_iff of_nat_numeral of_nat_power order_less_imp_le)
  have b: "?b - 1 + 1 = ?b" using len [of "nat d"] d by simp
  have "nat d < 2 ^ ?b" using floorlog_bounds(2) [of "nat d"] d unfolding b by simp
  then have hi: "of_int d < (2 :: rat) ^ ?b"
    by (metis (mono_tags) d nat_0_le of_int_of_nat_eq of_nat_less_iff of_nat_numeral of_nat_power order_less_imp_le)
  have a: "1 \<le> ?a" using n len by simp
  have "int ?a - int ?b - 1 = int (?a - 1) - int ?b" using a by simp
  then have "powi2 (int ?a - int ?b - 1) = 2 ^ (?a - 1) / 2 ^ ?b" by (simp only: powi2_diff)
  also have "\<dots> \<le> of_int n / of_int d" using lo hi d n by (intro frac_le) auto
  finally have "powi2 (int ?a - int ?b - 1) \<le> x" using x by simp
  then show ?thesis using assms q by (simp add: log2_floor_def Let_def)
qed

lemma fl24_pos: "0 < x \<Longrightarrow> 0 < fl24 x"
proof -
  assume x: "0 < x"
  let ?e = "log2_floor x - 23"
  have "powi2 ?e \<le> x" using log2_floor_le [OF x] powi2_le [of "log2_floor x" 23] by simp
  then have "of_int 1 \<le> x / powi2 ?e" by (simp add: le_divide_eq)
  then have "round_half_even (of_int 1) \<le> round_half_even (x / powi2 ?e)" by (rule round_half_even_mono)
  then have "1 \<le> round_half_even (x / powi2 ?e)" by (simp only: round_half_even_int)
  then show ?thesis using x by (simp add: fl24_def Let_def)
qed

text \<open>
  The accumulator is an \<^verbatim>\<open>int\<close>, so the mean of times below 1, which are \<^verbatim>\<open>float\<close>s, is 0.
\<close>

lemma accumulate_int_small:
  "\<forall>x\<in>set xs. fl24 x = x \<and> 0 \<le> x \<and> x < 1 \<Longrightarrow> accumulate_int 0 xs = Some 0"
  by (induction xs) (auto simp: trunc_less_1)

lemma computeMean_small:
  assumes "xs \<noteq> []" and "\<forall>x\<in>set xs. fl24 x = x \<and> 0 \<le> x \<and> x < 1"
  shows "computeMean xs = Some 0"
  using accumulate_int_small [OF assms(2)] fl24_pos [of "of_nat (length xs)"] assms(1)
  by (simp add: computeMean_def Let_def)

end
