(* ===== verification/AccountTest.thy ===== *)
theory AccountTest
  imports CommandLine AccountsSpec
begin

text \<open>
  \<^verbatim>\<open>AccountCreationTest/main.cpp\<close> of \<^verbatim>\<open>product/xcode/EscPlatform\<close>: it registers an account and removes it
  again.  After each \<^verbatim>\<open>init\<close> it waits in a loop while the status is \<^verbatim>\<open>INCOMPLETE\<close>.
\<close>

section \<open>The program\<close>

text \<open>\<open>None\<close>: the help text is printed instead.\<close>

definition account_args :: "bytes list \<Rightarrow> (bytes \<times> bytes \<times> bytes) option" where
  "account_args argv =
     (if 2 \<le> length argv \<and> argv ! 1 = bytes_of ''--help'' then None
      else Some
        (if 2 \<le> length argv then argv ! 1 else bytes_of ''account-test-user1'',
         if 3 \<le> length argv then argv ! 2 else bytes_of ''account-test-user1'',
         if 4 \<le> length argv then argv ! 3 else bytes_of ''cgs-macbook-pro-4.local''))"

text \<open>
  \<^verbatim>\<open>while (xmpp::INCOMPLETE == status()) sleep\<close>: no callback comes after \<^verbatim>\<open>init\<close> has returned, because
  gloox calls back from \<^verbatim>\<open>connect\<close> and \<^verbatim>\<open>recv\<close> only, so the loop ends at once or never.
\<close>

definition await_verdict :: "operation_status \<Rightarrow> 's \<Rightarrow> 's outcome" where
  "await_verdict status s = (if INCOMPLETE = status then Blocked else Done s)"

text \<open>What is printed: whether the account was created, and whether it was deleted.\<close>

record account_report =
  creation_successful :: bool
  deletion_successful :: bool

definition AccountCreationTest_main ::
    "bool \<Rightarrow> account_callback session \<Rightarrow> account_callback session \<Rightarrow> bytes list \<Rightarrow>
     (int \<times> account_report option \<times> gloox) outcome" where
  "AccountCreationTest_main debug net net' argv =
     (case account_args argv of
        None \<Rightarrow> Done (0, None, no_gloox)
      | Some (username, password, server) \<Rightarrow>
          obind (AccountRegistration_init debug net username password server 5222 False
              (new_AccountRegistration, no_gloox)) (\<lambda>(_, (r, g)).
          obind (await_verdict (mStatus r) (r, g)) (\<lambda>(r, g).
          obind (AccountEraser_init net' username password server 5222 False (new_AccountEraser, g)) (\<lambda>(_, (e, g)).
          obind (await_verdict (eraser_status e) (e, g)) (\<lambda>(e, g).
            let report = \<lparr>creation_successful = (SUCCESS = mStatus r), deletion_successful = (SUCCESS = eraser_status e)\<rparr>;
                g = delete_AccountEraser (e, g);
                g = delete_AccountRegistration (r, g)
            in Done (0, Some report, g))))))"

section \<open>When it returns\<close>

text \<open>A verdict the loop does not wait for.\<close>

definition decided :: "account_callback session \<Rightarrow> operation_status option" where
  "decided net = (case verdict_of_session net of Some st \<Rightarrow> if st = INCOMPLETE then None else Some st | None \<Rightarrow> None)"

lemma AccountCreationTest_result:
  assumes "account_args argv = Some (username, password, server)"
  shows "case (if username = [] \<or> password = [] \<or> server = [] then None else decided net, decided net') of
      (Some st, Some st') \<Rightarrow> \<exists>g. AccountCreationTest_main debug net net' argv =
        Done (0, Some \<lparr>creation_successful = (st = SUCCESS), deletion_successful = (st' = SUCCESS)\<rparr>, g)
    | _ \<Rightarrow> AccountCreationTest_main debug net net' argv = Blocked"
proof (cases "username = [] \<or> password = [] \<or> server = []")
  case True
  then show ?thesis
    by (auto simp: AccountCreationTest_main_def assms AccountRegistration_init_def new_AccountRegistration_def await_verdict_def)
next
  case False
  then have ne: "username \<noteq> []" "password \<noteq> []" "server \<noteq> []" by auto
  note reg = registration_result [OF ne, of debug net 5222 False new_AccountRegistration no_gloox]
  show ?thesis
  proof (cases "decided net")
    case None
    then show ?thesis
      using reg ne by (auto simp: decided_def AccountCreationTest_main_def assms await_verdict_def split: option.splits if_splits)
  next
    case (Some st)
    then obtain r g where r: "AccountRegistration_init debug net username password server 5222 False
        (new_AccountRegistration, no_gloox) = Done (True, (r, g))" "mStatus r = st" "st \<noteq> INCOMPLETE"
      using reg by (auto simp: decided_def split: option.splits if_splits)
    note er = eraser_result [OF ne, of net' 5222 False new_AccountEraser g]
    show ?thesis
    proof (cases "decided net'")
      case None
      then show ?thesis
        using er r Some ne by (auto simp: decided_def AccountCreationTest_main_def assms await_verdict_def split: option.splits if_splits)
    next
      case (Some st')
      then obtain e g' where "AccountEraser_init net' username password server 5222 False (new_AccountEraser, g) =
          Done (True, (e, g'))" "eraser_status e = st'" "st' \<noteq> INCOMPLETE"
        using er by (auto simp: decided_def split: option.splits if_splits)
      then show ?thesis
        using r Some \<open>decided net = Some st\<close> ne
        by (simp add: AccountCreationTest_main_def assms await_verdict_def Let_def eq_commute [of SUCCESS])
    qed
  qed
qed

end
