(* ===== verification/ControllerMock.thy ===== *)
theory ControllerMock
  imports CommandLine XmppClientSpec
begin

text \<open>
  \<^verbatim>\<open>MockForController/main.cpp\<close> of \<^verbatim>\<open>product/xcode/EscPlatform\<close>: a game server for tests.  It waits for a
  controller to register and to confirm its initialisation, and then sends it ten game messages in a cycle.
  Its handlers run in the listening thread of its \<^verbatim>\<open>xmpp::Client\<close>, which calls a signal as the last thing it
  does in a callback.
\<close>

section \<open>State\<close>

record controller =
  is_connected :: bool
  is_registered :: bool
  is_initialized :: bool
  client_roster :: "bytes list"
  the_client :: xmpp_client
  ios_user :: bytes
  msg_index :: nat
  main_calls :: "(bytes \<times> bytes) list"
  main_ended :: bool

text \<open>
  \<open>msg_index\<close>: the variable \<^verbatim>\<open>index\<close> of \<^verbatim>\<open>main\<close>; \<open>main_calls\<close>: the calls of \<^verbatim>\<open>sendMessage\<close> that \<^verbatim>\<open>main\<close> has made.
\<close>

definition test_messages :: "bytes list" where
  "test_messages =
     map bytes_of [''gameStart'', ''roundStart'', ''roundEnd'', ''roundStart'', ''roundEnd'', ''roundStart'',
       ''paused:true'', ''paused:false'', ''roundEnd'', ''gameEnd'']"

text \<open>\<^verbatim>\<open>hay.find(needle) != npos\<close>\<close>

fun has_text :: "bytes \<Rightarrow> bytes \<Rightarrow> bool" where
  "has_text needle [] \<longleftrightarrow> needle = []"
| "has_text needle (b # hay) \<longleftrightarrow> take (length needle) (b # hay) = needle \<or> has_text needle hay"

section \<open>Handlers\<close>

text \<open>A call of \<^verbatim>\<open>client.sendMessage\<close> whose result is ignored.\<close>

definition client_send :: "bytes \<Rightarrow> bytes \<Rightarrow> controller \<Rightarrow> controller outcome" where
  "client_send recipient msg st =
     obind (Client_sendMessage recipient msg [] (the_client st)) (\<lambda>(_, c). Done (st\<lparr>the_client := c\<rparr>))"

definition connected :: "controller \<Rightarrow> controller" where
  "connected st = st\<lparr>is_connected := True\<rparr>"

definition disconnect :: "controller \<Rightarrow> controller" where
  "disconnect st = (if is_connected st then st\<lparr>is_connected := False\<rparr> else st)"

definition handleMessage :: "peer \<Rightarrow> bytes \<Rightarrow> bytes \<Rightarrow> controller \<Rightarrow> controller outcome" where
  "handleMessage peer subject body st =
     (if \<not> is_registered st then
        if has_text (bytes_of ''registered'') body then
          obind (client_send (mUsername peer) (bytes_of ''init:key=0,var=message'') (st\<lparr>is_registered := True\<rparr>)) (\<lambda>st.
            Done (st\<lparr>ios_user := mUsername peer\<rparr>))
        else Done st
      else if \<not> is_initialized st then
        if has_text (bytes_of ''init'') body then Done (st\<lparr>is_initialized := True\<rparr>) else Done st
      else Done st)"

definition handleRoster :: "bytes list \<Rightarrow> controller \<Rightarrow> controller" where
  "handleRoster roster st = st\<lparr>client_roster := roster\<rparr>"

text \<open>\<^verbatim>\<open>index\<close> is a local variable, so every peer is told 0.\<close>

definition handlePresence :: "peer \<Rightarrow> bytes \<Rightarrow> status_t \<Rightarrow> bytes \<Rightarrow> controller \<Rightarrow> controller outcome" where
  "handlePresence peer resource status message st =
     (if Available = status
      then client_send (mUsername peer)
        (bytes_of ''registered:127.0.0.1,'' @ show_nat 0 @ bytes_of '',test-game-id'') st
      else Done st)"

fun handle_signal :: "signal_call \<Rightarrow> controller \<Rightarrow> controller outcome" where
  "handle_signal CalledConnect st = Done (connected st)"
| "handle_signal (CalledDisconnect e) st = Done (disconnect st)"
| "handle_signal (CalledRoster roster) st = Done (handleRoster roster st)"
| "handle_signal (CalledMsg peer subject body) st = handleMessage peer subject body st"
| "handle_signal (CalledPresence peer resource status message) st = handlePresence peer resource status message st"
| "handle_signal CalledTlsConnect st = Done st"
| "handle_signal CalledRegistration st = Done st"

section \<open>The threads\<close>

definition MockForController_start :: "bool \<Rightarrow> bool \<Rightarrow> bytes list \<Rightarrow> controller launch" where
  "MockForController_start debug thread_ok argv =
     (if length argv < 4 then usage argv
      else
        lbind (argv_at argv 1) (\<lambda>raw_username.
        lbind (before_char (byte_of (CHR ''@'')) raw_username) (\<lambda>username.
        lbind (argv_at argv 2) (\<lambda>password.
        lbind (behind_char (byte_of (CHR ''@'')) raw_username) (\<lambda>server.
        lbind (argv_at argv 3) (\<lambda>peer.
          let client = fold (\<lambda>k. setSignal k True)
                [SignalConnect, SignalDisconnect, SignalRoster, SignalHandleMsg, SignalRosterPresence] new_Client;
              client = snd (Client_connect debug thread_ok username password server DEFAULT_PORT False client)
          in Started \<lparr>is_connected = True, is_registered = False, is_initialized = False, client_roster = [],
               the_client = client, ios_user = [], msg_index = 0, main_calls = [], main_ended = False\<rparr>))))))"

text \<open>One callback of gloox in the listening thread, and the signals it calls.\<close>

definition controller_callback :: "bool \<Rightarrow> listener_callback \<Rightarrow> controller \<Rightarrow> controller outcome" where
  "controller_callback debug c st =
     obind (Listener_handle debug c (the_client st)) (\<lambda>client.
       deliver_all handle_signal (drop (length (signal_calls (the_client st))) (signal_calls client))
         (st\<lparr>the_client := client\<rparr>))"

text \<open>One turn of the loop of \<^verbatim>\<open>main\<close>.\<close>

definition controller_turn :: "controller \<Rightarrow> controller outcome" where
  "controller_turn st =
     (if main_ended st then Done st
      else if \<not> is_connected st then Done (st\<lparr>main_ended := True\<rparr>)
      else if is_initialized st \<and> is_registered st then
        if length test_messages \<le> msg_index st then Faulted OutOfBounds
        else
          let next_msg = test_messages ! msg_index st in
          obind (client_send (ios_user st) next_msg st) (\<lambda>st.
            let index = msg_index st + 1
            in Done (st\<lparr>main_calls := main_calls st @ [(ios_user st, next_msg)],
                  msg_index := if index \<ge> length test_messages then 0 else index\<rparr>))
      else Done st)"

inductive controller_step :: "bool \<Rightarrow> controller \<Rightarrow> controller \<Rightarrow> bool" for debug :: bool where
  gloox_calls:
    "mClient (mListener (the_client st)) \<noteq> None \<Longrightarrow> controller_callback debug c st = Done st' \<Longrightarrow>
     controller_step debug st st'"
| main_turns: "controller_turn st = Done st' \<Longrightarrow> controller_step debug st st'"

section \<open>The protocol it plays\<close>

text \<open>The state of the game, and what a message to the server makes of it.\<close>

datatype game = WaitingForUser | Registered bytes | Playing bytes

fun play :: "signal_call \<Rightarrow> game \<Rightarrow> game" where
  "play (CalledMsg peer subject body) WaitingForUser =
     (if has_text (bytes_of ''registered'') body then Registered (mUsername peer) else WaitingForUser)"
| "play (CalledMsg peer subject body) (Registered user) =
     (if has_text (bytes_of ''init'') body then Playing user else Registered user)"
| "play c g = g"

definition game_of :: "controller \<Rightarrow> game" where
  "game_of st =
     (if \<not> is_registered st then WaitingForUser
      else if \<not> is_initialized st then Registered (ios_user st) else Playing (ios_user st))"

text \<open>The test messages to one user, in their order, over and over.\<close>

definition cyclic :: "bytes \<Rightarrow> (bytes \<times> bytes) list \<Rightarrow> bool" where
  "cyclic user calls \<longleftrightarrow> calls = map (\<lambda>i. (user, test_messages ! (i mod 10))) [0..<length calls]"

lemma cyclic_Nil [simp]: "cyclic user []"
  by (simp add: cyclic_def)

lemma cyclic_step: "cyclic user calls \<Longrightarrow> cyclic user (calls @ [(user, test_messages ! (length calls mod 10))])"
  by (simp add: cyclic_def)

text \<open>\<open>cs\<close>: the signals handled so far.\<close>

definition plays :: "signal_call list \<Rightarrow> controller \<Rightarrow> bool" where
  "plays cs st \<longleftrightarrow>
     game_of st = fold play cs WaitingForUser \<and>
     (is_initialized st \<longrightarrow> is_registered st) \<and>
     msg_index st = length (main_calls st) mod 10 \<and>
     cyclic (ios_user st) (main_calls st) \<and>
     (main_calls st \<noteq> [] \<longrightarrow> is_initialized st)"

abbreviation controller_inv :: "controller \<Rightarrow> bool" where
  "controller_inv st \<equiv> plays (signal_calls (the_client st)) st"

lemma length_test_messages [simp]: "length test_messages = 10"
  by (simp add: test_messages_def)

lemma client_send_keeps:
  assumes "client_send r m st = Done st'"
  obtains cl where "st' = st\<lparr>the_client := cl\<rparr>" and "signal_calls cl = signal_calls (the_client st)"
proof -
  obtain b cl where "Client_sendMessage r m [] (the_client st) = Done (b, cl)" "st' = st\<lparr>the_client := cl\<rparr>"
    using assms by (auto simp: client_send_def obind_eq_Done)
  then show thesis
    using that by (auto simp: sendMessage_result split: option.splits if_splits)
qed

text \<open>A callback only adds to the calls of the signals.\<close>

definition calls_grow :: "xmpp_client \<Rightarrow> xmpp_client \<Rightarrow> bool" where
  "calls_grow s s' \<longleftrightarrow> (\<exists>l. signal_calls s' = signal_calls s @ l)"

lemma calls_grow_same [simp]: "signal_calls s' = signal_calls s \<Longrightarrow> calls_grow s s'"
  by (simp add: calls_grow_def)

lemma calls_grow_emit [simp]: "signal_calls s' = signal_calls s \<Longrightarrow> calls_grow s (emit k c s')"
  by (simp add: calls_grow_def emit_def)

lemma push_calls [simp]:
  "signal_calls (push_state x s) = signal_calls s" "signal_calls (push_event e s) = signal_calls s"
  "signal_calls (push_presence p s) = signal_calls s" "signal_calls (set_listener f s) = signal_calls s"
  by (simp_all add: push_state_def push_event_def push_presence_def set_listener_def)

lemma connect_calls [simp]:
  "signal_calls (snd (Client_connect debug ok u p sv port lg s)) = signal_calls s"
  by (simp add: Client_connect_def connect_store_def connect_spawn_def connect_begin_def Client_clear_queues_def
      Listener_setup_def Let_def split: prod.splits)

lemma ask_gloox_calls: "ask_gloox p c s = Done s' \<Longrightarrow> signal_calls s' = signal_calls s"
  by (auto dest!: ask_gloox_Done)

lemma onDisconnect_calls:
  assumes "Client_onDisconnect debug net ok e s = Done s'"
  shows "calls_grow s s'"
  using assms by (auto simp: Client_onDisconnect_def Let_def obind_eq_Done split: if_splits)

lemma fold_roster_calls:
  "signal_calls (snd (fold (\<lambda>username (subscribe, s).
      (if kGameEngineUsername = username then False else subscribe,
       s\<lparr>mRoster := map_insert username (Peer username False Invalid) (mRoster s)\<rparr>)) roster (b, s))) = signal_calls s"
  by (induction roster arbitrary: b s) auto

lemma handleRoster_calls:
  assumes "Client_handleRoster roster s = Done s'"
  shows "calls_grow s s'"
proof -
  let ?step = "\<lambda>username (subscribe, s). (if kGameEngineUsername = username then False else subscribe,
    s\<lparr>mRoster := map_insert username (Peer username False Invalid) (mRoster s)\<rparr>)"
  obtain b s1 where f: "fold ?step roster (client_username s \<noteq> kDocentUsername, s\<lparr>mRoster := []\<rparr>) = (b, s1)" by force
  have "signal_calls s1 = signal_calls s"
    using fold_roster_calls [of roster "client_username s \<noteq> kDocentUsername" "s\<lparr>mRoster := []\<rparr>"] f by simp
  then show ?thesis
    using assms f
    by (auto simp: Client_handleRoster_def Let_def obind_eq_Done Listener_subscribeTo_def dest!: ask_gloox_calls
        split: if_splits)
qed

lemma calls_grow_listener [simp]: "calls_grow (set_listener f s) s' \<longleftrightarrow> calls_grow s s'"
  by (simp add: calls_grow_def)

lemma handleMessageSession_calls:
  assumes "Listener_handleMessageSession session s = Done s'"
  shows "calls_grow s s'"
  using assms
  by (auto simp: Listener_handleMessageSession_def obind_eq_Done Let_def split_def dest!: ask_gloox_calls)

lemma Listener_handle_calls:
  assumes "Listener_handle debug c s = Done s'"
  shows "calls_grow s s'"
  using assms
  by (cases c)
    (auto simp: Listener_onConnect_def Listener_onDisconnect_def Listener_onTLSConnect_def Listener_handleMessage_def
      Listener_handleSubscriptionRequest_def Listener_handleRegistrationFields_def Listener_handleRegistrationResult_def to_delegate_def Client_onConnect_def Client_onTLSConnect_def
      Client_onRegistration_def Client_handleMessage_def Client_handleRosterPresence_def obind_eq_Done Let_def
      split: if_splits option.splits prod.splits dest!: ask_gloox_calls onDisconnect_calls handleRoster_calls
        handleMessageSession_calls)

section \<open>It plays the protocol\<close>

lemma plays_client [simp]: "plays cs (st\<lparr>the_client := c\<rparr>) = plays cs st"
  by (simp add: plays_def game_of_def)

lemma plays_other:
  assumes "\<And>peer subject body. c \<noteq> CalledMsg peer subject body"
  shows "plays (cs @ [c]) st = plays cs st"
proof -
  have "play c g = g" for g using assms by (cases c; cases g) auto
  then show ?thesis by (simp add: plays_def)
qed

lemma handle_signal_plays:
  assumes "plays cs st" and "handle_signal c st = Done st'"
  shows "plays (cs @ [c]) st' \<and> signal_calls (the_client st') = signal_calls (the_client st)"
proof (cases c)
  case (CalledMsg peer subject body)
  have no_calls: "\<not> is_initialized st \<longrightarrow> main_calls st = []" and order: "is_initialized st \<longrightarrow> is_registered st"
    and game: "fold play cs WaitingForUser = game_of st" using assms(1) by (auto simp: plays_def)
  consider (register) "\<not> is_registered st" "has_text (bytes_of ''registered'') body"
    | (initialise) "is_registered st" "\<not> is_initialized st" "has_text (bytes_of ''init'') body"
    | (ignored) "play c (game_of st) = game_of st" "st' = st"
    using assms(2) order CalledMsg by (auto simp: handleMessage_def game_of_def simp del: bytes_of_def split: if_splits)
  then show ?thesis
  proof cases
    case register
    then obtain st1 where st1: "client_send (mUsername peer) (bytes_of ''init:key=0,var=message'')
        (st\<lparr>is_registered := True\<rparr>) = Done st1" "st' = st1\<lparr>ios_user := mUsername peer\<rparr>"
      using assms(2) CalledMsg by (auto simp: handleMessage_def obind_eq_Done)
    obtain cl where "st1 = st\<lparr>is_registered := True, the_client := cl\<rparr>"
        "signal_calls cl = signal_calls (the_client st)" using client_send_keeps [OF st1(1)] by auto
    then show ?thesis
      using assms(1) register order no_calls game CalledMsg st1(2) by (auto simp: plays_def game_of_def)
  next
    case initialise
    then have "st' = st\<lparr>is_initialized := True\<rparr>" using assms(2) CalledMsg by (simp add: handleMessage_def)
    then show ?thesis using assms(1) initialise no_calls game CalledMsg by (auto simp: plays_def game_of_def)
  next
    case ignored
    then show ?thesis using assms(1) game by (simp add: plays_def)
  qed
next
  case (CalledPresence peer resource status message)
  show ?thesis
  proof (cases "Available = status")
    case True
    then have "client_send (mUsername peer) (bytes_of ''registered:127.0.0.1,'' @ show_nat 0 @ bytes_of '',test-game-id'') st = Done st'"
      using assms(2) CalledPresence by (simp add: handlePresence_def)
    from client_send_keeps [OF this] obtain cl where "st' = st\<lparr>the_client := cl\<rparr>"
      "signal_calls cl = signal_calls (the_client st)" .
    then show ?thesis using assms(1) CalledPresence by (simp add: plays_other)
  qed (use assms CalledPresence in \<open>simp add: handlePresence_def plays_other\<close>)
qed (use assms in \<open>auto simp: plays_other, auto simp: plays_def game_of_def connected_def disconnect_def handleRoster_def\<close>)

lemma signals_play:
  assumes "plays cs st" and "deliver_all handle_signal l st = Done st'"
  shows "plays (cs @ l) st' \<and> signal_calls (the_client st') = signal_calls (the_client st)"
  using assms
proof (induction l arbitrary: cs st)
  case (Cons c l)
  then obtain st1 where st1: "handle_signal c st = Done st1" "deliver_all handle_signal l st1 = Done st'"
    by (auto simp: obind_eq_Done)
  note c = handle_signal_plays [OF Cons.prems(1) st1(1)]
  show ?case using Cons.IH [OF conjunct1 [OF c] st1(2)] c by simp
qed simp

lemma callback_plays:
  assumes "controller_inv st" and "controller_callback debug c st = Done st'"
  shows "controller_inv st'"
proof -
  obtain cl where cl: "Listener_handle debug c (the_client st) = Done cl"
    "deliver_all handle_signal (drop (length (signal_calls (the_client st))) (signal_calls cl)) (st\<lparr>the_client := cl\<rparr>) = Done st'"
    using assms(2) by (auto simp: controller_callback_def obind_eq_Done)
  obtain l where l: "signal_calls cl = signal_calls (the_client st) @ l"
    using Listener_handle_calls [OF cl(1)] by (auto simp: calls_grow_def)
  have "plays (signal_calls (the_client st)) (st\<lparr>the_client := cl\<rparr>)" using assms(1) by simp
  from signals_play [OF this cl(2)] show ?thesis using l by simp
qed

lemma turn_plays:
  assumes "controller_inv st" and "controller_turn st = Done st'"
  shows "controller_inv st'"
proof (cases "main_ended st \<or> \<not> is_connected st \<or> \<not> (is_initialized st \<and> is_registered st)")
  case True
  then show ?thesis using assms by (auto simp: controller_turn_def plays_def game_of_def split: if_splits)
next
  case False
  let ?n = "length (main_calls st)"
  have i: "msg_index st = ?n mod 10" using assms(1) by (simp add: plays_def)
  then have lt: "\<not> 10 \<le> msg_index st" by simp
  obtain st1 where st1: "client_send (ios_user st) (test_messages ! msg_index st) st = Done st1"
    "st' = st1\<lparr>main_calls := main_calls st1 @ [(ios_user st1, test_messages ! msg_index st)],
       msg_index := if 9 \<le> msg_index st1 then 0 else msg_index st1 + 1\<rparr>"
    using False assms(2) lt by (auto simp: controller_turn_def obind_eq_Done Let_def)
  obtain cl where cl: "st1 = st\<lparr>the_client := cl\<rparr>" "signal_calls cl = signal_calls (the_client st)"
    using client_send_keeps [OF st1(1)] by auto
  have "(if 9 \<le> ?n mod 10 then 0 else ?n mod 10 + 1) = (?n + 1) mod 10" by presburger
  then show ?thesis
    using assms(1) False st1(2) cl i cyclic_step [of "ios_user st" "main_calls st"]
    by (auto simp: plays_def game_of_def split: if_splits)
qed

lemma controller_inv_start:
  assumes "MockForController_start debug thread_ok argv = Started st"
  shows "controller_inv st"
proof -
  have "signal_calls (fold (\<lambda>k. setSignal k True) ks c) = signal_calls c" for ks c
    by (induction ks arbitrary: c) (auto simp: setSignal_def)
  then show ?thesis
    using assms
    by (auto simp: MockForController_start_def usage_def argv_at_def lbind_eq_Started Let_def plays_def game_of_def
        new_Client_def setSignal_def split: if_splits)
qed

lemma controller_inv_reached:
  assumes "(controller_step debug)\<^sup>*\<^sup>* st st'" and "controller_inv st"
  shows "controller_inv st'"
  using assms
proof (induction rule: rtranclp_induct)
  case (step st1 st2)
  from step.hyps(2) show ?case
    by cases (use step callback_plays turn_plays in blast)+
qed

lemma playing_turn:
  assumes "game_of st = Playing user" and "\<not> main_ended st" and "is_connected st" and "user \<noteq> []"
    and "mIsConnected (mListener (the_client st))" and "mClient (mListener (the_client st)) = Some h"
    and "msg_index st < 10"
  shows "\<exists>st'. controller_turn st = Done st' \<and> glog (gloox_state (the_client st')) = glog (gloox_state (the_client st)) @
    [(h, SendMessageStanza MessageChat (AddressText (user @ bytes_of ''@'' @ mServer (mListener (the_client st))))
      (test_messages ! msg_index st) [])]"
proof -
  have st: "is_registered st" "is_initialized st" "ios_user st = user"
    using assms(1) by (auto simp: game_of_def split: if_splits)
  have "test_messages ! msg_index st \<noteq> []"
    using assms(7) by (auto simp: test_messages_def less_Suc_eq numeral_eq_Suc)
  then show ?thesis
    using st assms(2-7) by (simp add: controller_turn_def client_send_def sendMessage_result gcall_def Let_def)
qed

section \<open>A game from the start\<close>

definition fresh_controller :: "controller \<Rightarrow> bool" where
  "fresh_controller st \<longleftrightarrow> (let c = the_client st; l = mListener c in
     mDelegate l \<and> mRegistration l = None \<and> mClient l \<noteq> None \<and> mRoster c = [] \<and>
     {SignalConnect, SignalHandleMsg} \<subseteq> set (mSignals c) \<and> \<not> main_ended st \<and> main_calls st = [] \<and>
     msg_index st = 0 \<and> is_connected st)"

lemma MockForController_starts:
  assumes "argv = [name, user @ byte_of (CHR ''@'') # server, password, port]" and "byte_of (CHR ''@'') \<notin> set user"
    and "string_size_ok (user @ byte_of (CHR ''@'') # server)" and "user \<noteq> []" and "server \<noteq> []"
  shows "\<exists>st. MockForController_start debug True argv = Started st \<and> fresh_controller st \<and> \<not> is_registered st \<and>
    \<not> is_initialized st \<and> mServer (mListener (the_client st)) = server"
  using split_at_char [OF assms(2,3)] assms(4,5)
  by (simp add: assms(1) MockForController_start_def argv_at_def fresh_controller_def Client_connect_def connect_store_def
      connect_spawn_def connect_begin_def Client_clear_queues_def Listener_setup_def new_Client_def new_Listener_def
      setSignal_def set_listener_def gnew_def Let_def)

lemma connect_callback:
  assumes "fresh_controller st"
  shows "\<exists>st'. controller_callback debug OnConnect st = Done st' \<and> fresh_controller st' \<and>
    is_registered st' = is_registered st \<and> is_initialized st' = is_initialized st \<and>
    mIsConnected (mListener (the_client st')) \<and> mServer (mListener (the_client st')) = mServer (mListener (the_client st))"
  using assms
  by (simp add: controller_callback_def fresh_controller_def Listener_onConnect_def to_delegate_def Client_onConnect_def
      emit_def push_state_def set_listener_def connected_def Let_def)

lemma message_callback:
  assumes "fresh_controller st" and "mIsConnected (mListener (the_client st))" and "mServer (mListener (the_client st)) = server"
    and "\<not> is_registered st \<and> has_text (bytes_of ''registered'') (msg_body msg) \<or>
      is_registered st \<and> \<not> is_initialized st \<and> has_text (bytes_of ''init'') (msg_body msg)"
  shows "\<exists>st'. controller_callback debug (OnMessage msg) st = Done st' \<and> fresh_controller st' \<and> is_registered st' \<and>
    is_initialized st' = (is_registered st \<or> is_initialized st) \<and>
    mIsConnected (mListener (the_client st')) \<and> mServer (mListener (the_client st')) = server \<and>
    signal_calls (the_client st') = signal_calls (the_client st) @
      [CalledMsg (Peer (bytes_of ''unknown'') False Invalid) (msg_subject msg) (msg_body msg)]"
  using assms
  by (auto simp: controller_callback_def fresh_controller_def Listener_handleMessage_def to_delegate_def
      Client_handleMessage_def emit_def push_event_def handleMessage_def client_send_def sendMessage_result Let_def
      Peer_def map_find_def split: option.splits)

lemma first_turn:
  assumes "fresh_controller st" and "is_registered st" and "is_initialized st"
  shows "\<exists>st'. controller_turn st = Done st' \<and> main_calls st' = [(ios_user st, test_messages ! 0)]"
  using assms
  by (simp add: controller_turn_def fresh_controller_def client_send_def sendMessage_result Let_def split: option.splits)

lemma game_starts:
  fixes m1 m2 :: gloox_message
  assumes "fresh_controller st" and "\<not> is_registered st" and "\<not> is_initialized st"
    and "has_text (bytes_of ''registered'') (msg_body m1)" and "has_text (bytes_of ''init'') (msg_body m2)"
  shows "\<exists>st'. (controller_step debug)\<^sup>*\<^sup>* st st' \<and> length (main_calls st') = 1"
proof -
  have client: "mClient (mListener (the_client st)) \<noteq> None" if "fresh_controller st" for st
    using that by (simp add: fresh_controller_def Let_def)
  obtain st1 where 1: "controller_callback debug OnConnect st = Done st1" "fresh_controller st1"
    "\<not> is_registered st1" "\<not> is_initialized st1" "mIsConnected (mListener (the_client st1))"
    using connect_callback [OF assms(1)] assms(2,3) by auto
  obtain st2 where 2: "controller_callback debug (OnMessage m1) st1 = Done st2" "fresh_controller st2"
    "is_registered st2" "\<not> is_initialized st2" "mIsConnected (mListener (the_client st2))"
    using message_callback [OF 1(2,5) refl, of m1 debug] assms(4) 1(3,4) by auto
  obtain st3 where 3: "controller_callback debug (OnMessage m2) st2 = Done st3" "fresh_controller st3"
    "is_registered st3" "is_initialized st3"
    using message_callback [OF 2(2,5) refl, of m2 debug] assms(5) 2(3,4) by auto
  obtain st4 where 4: "controller_turn st3 = Done st4" "main_calls st4 = [(ios_user st3, test_messages ! 0)]"
    using first_turn [OF 3(2-4)] by blast
  have "controller_step debug st st1" "controller_step debug st1 st2" "controller_step debug st2 st3"
    "controller_step debug st3 st4"
    using 1 2 3 4 client assms(1) by (auto intro: controller_step.intros)
  then have "(controller_step debug)\<^sup>*\<^sup>* st st4" by (meson converse_rtranclp_into_rtranclp r_into_rtranclp)
  then show ?thesis using 4(2) by (intro exI [of _ st4]) simp
qed

end
