(* ===== verification/XmppPerformance.thy ===== *)
theory XmppPerformance
  imports ControllerMock OscPerformance
begin

text \<open>
  \<^verbatim>\<open>XmppPerformanceTest/main.cpp\<close> of \<^verbatim>\<open>product/xcode/EscPlatform\<close>: it measures how long an XMPP echo client takes
  to return a message, and how long it takes for many.  Times are rationals, as in \<open>OscPerformance\<close>, whose record of
  the times and whose smallest and largest element it shares.
\<close>

section \<open>Arguments\<close>

text \<open>
  \<^verbatim>\<open>std::includes\<close> for two strings, as the one pass that the library makes over both; \<^verbatim>\<open>char\<close> is signed.  (It is
  meant for sorted ranges, which arguments are not.)
\<close>

fun std_includes :: "bytes \<Rightarrow> bytes \<Rightarrow> bool" where
  "std_includes xs [] = True"
| "std_includes [] (c # cs) = False"
| "std_includes (x # xs) (c # cs) =
     (if c <s x then False else if x <s c then std_includes xs (c # cs) else std_includes xs cs)"

text \<open>An element that \<^verbatim>\<open>stoi\<close> cannot read is reported and skipped; an undefined number there is none.\<close>

fun parameter_search :: "bytes list \<Rightarrow> bytes \<Rightarrow> int32 launch" where
  "parameter_search [] comparator = Started 0"
| "parameter_search (element # elements) comparator =
     (if std_includes element comparator then
        lbind (behind_char (byte_of (CHR ''='')) element) (\<lambda>count.
          case stoi count of Started output \<Rightarrow> Started output | _ \<Rightarrow> parameter_search elements comparator)
      else parameter_search elements comparator)"

section \<open>State\<close>

text \<open>
  \<open>test_pc\<close> is where \<^verbatim>\<open>main\<close> is; \<open>server_up\<close> is the global \<^verbatim>\<open>is_connected\<close>; \<open>latency_callback\<close> tells which function
  the signal for messages calls; the two lists at the end hold what was printed.
\<close>

datatype test_pc = InLatencyTest | InBandwidthTest | SendingMessages | Finishing

record xmpp_test =
  reported_latencies :: bool
  server_up :: bool
  measured :: timing
  test_client :: xmpp_client
  latency_callback :: bool
  test_pc :: test_pc
  test_peer :: bytes
  run_latency :: bool
  run_bandwidth :: bool
  latency_limit :: int32
  bandwidth_limit :: int32
  messages_sent :: int
  latency_reports :: "(rat \<times> rat \<times> rat) list"
  bandwidth_reports :: "(int \<times> rat) list"

fun accumulate_float :: "rat \<Rightarrow> rat list \<Rightarrow> rat" where
  "accumulate_float s [] = s"
| "accumulate_float s (x # xs) = accumulate_float (fl24 (s + x)) xs"

definition float_mean :: "rat list \<Rightarrow> rat" where
  "float_mean numbers =
     (let number_count = fl24 (of_nat (length numbers)); number_sum = accumulate_float 0 numbers;
          number_count = (if number_count = 0 then 1 else number_count)
      in fl24 (number_sum / number_count))"

text \<open>The end of an empty list is read.\<close>

definition latency_messaging_results :: "xmpp_test \<Rightarrow> xmpp_test outcome" where
  "latency_messaging_results st =
     (case (computeMin (latencies (measured st)), computeMax (latencies (measured st))) of
        (Inr lo, Inr hi) \<Rightarrow>
          Done (st\<lparr>latency_reports := latency_reports st @ [(lo, hi, float_mean (latencies (measured st)))],
                   reported_latencies := True\<rparr>)
      | _ \<Rightarrow> Faulted OutOfBounds)"

text \<open>\<^verbatim>\<open>exit_handler\<close>, and \<^verbatim>\<open>signal_handler\<close> before it exits.\<close>

definition exit_handler :: "xmpp_test \<Rightarrow> xmpp_test outcome" where
  "exit_handler st =
     (if \<not> reported_latencies st \<and> latencies (measured st) \<noteq> [] then latency_messaging_results st else Done st)"

section \<open>Callbacks\<close>

definition ping_returned :: "timing \<Rightarrow> timing" where
  "ping_returned w =
     (let w = w\<lparr>timer_end := clock w\<rparr>; time = fl24 (elapsed_seconds (timer_start w) (timer_end w) * 1000)
      in w\<lparr>latencies := latencies w @ [time]\<rparr>)"

definition message_returned :: "xmpp_test \<Rightarrow> xmpp_test" where
  "message_returned st =
     st\<lparr>measured := (if latency_callback st then ping_returned else bandwidth_messageReturned) (measured st)\<rparr>"

fun test_signal :: "signal_call \<Rightarrow> xmpp_test \<Rightarrow> xmpp_test outcome" where
  "test_signal CalledConnect st = Done (st\<lparr>server_up := True\<rparr>)"
| "test_signal (CalledDisconnect e) st = Done (if server_up st then st\<lparr>server_up := False\<rparr> else st)"
| "test_signal (CalledMsg p subject body) st = Done (message_returned st)"
| "test_signal c st = Done st"

text \<open>One callback of gloox in the listening thread.\<close>

definition test_callback :: "bool \<Rightarrow> listener_callback \<Rightarrow> xmpp_test \<Rightarrow> xmpp_test outcome" where
  "test_callback debug c st =
     obind (Listener_handle debug c (test_client st)) (\<lambda>client.
       deliver_all test_signal (drop (length (signal_calls (test_client st))) (signal_calls client))
         (st\<lparr>test_client := client\<rparr>))"

section \<open>The program\<close>

text \<open>
  \<^verbatim>\<open>main\<close> up to its first loop.  The defaults of the limits are overwritten by what \<open>parameter_search\<close> returns,
  which is 0 for a parameter that is not there.
\<close>

definition XmppPerformanceTest_start :: "bool \<Rightarrow> bool \<Rightarrow> int \<Rightarrow> bytes list \<Rightarrow> xmpp_test launch" where
  "XmppPerformanceTest_start debug thread_ok time argv =
     (if length argv < 4 then usage argv
      else
        lbind (argv_at argv 1) (\<lambda>raw_username.
        lbind (before_char (byte_of (CHR ''@'')) raw_username) (\<lambda>username.
        lbind (argv_at argv 2) (\<lambda>password.
        lbind (behind_char (byte_of (CHR ''@'')) raw_username) (\<lambda>server.
        lbind (argv_at argv 3) (\<lambda>echo_client.
        lbind (before_char (byte_of (CHR ''@'')) echo_client) (\<lambda>echo_client.
        let performBandwidth = (bytes_of ''-b'' \<in> set argv);
            performLatency = (bytes_of ''-l'' \<in> set argv)
        in
        if \<not> performLatency \<and> \<not> performBandwidth then Returned 1
        else
          lbind (parameter_search argv (bytes_of ''-lm'')) (\<lambda>latency_message_limit.
          lbind (parameter_search argv (bytes_of ''-bm'')) (\<lambda>bandwidth_message_limit.
            let client = fold (\<lambda>k. setSignal k True) [SignalConnect, SignalDisconnect, SignalHandleMsg] new_Client;
                client = snd (Client_connect debug thread_ok username password server DEFAULT_PORT False client)
            in Started \<lparr>reported_latencies = False, server_up = True,
                 measured = \<lparr>latencies = [], timer_start = 0, timer_end = 0, returned_messages = 0, clock = time\<rparr>,
                 test_client = client, latency_callback = True, test_pc = InLatencyTest, test_peer = echo_client,
                 run_latency = performLatency, run_bandwidth = performBandwidth,
                 latency_limit = latency_message_limit, bandwidth_limit = bandwidth_message_limit,
                 messages_sent = 0, latency_reports = [], bandwidth_reports = []\<rparr>)))))))))"

definition start_timer :: "xmpp_test \<Rightarrow> xmpp_test" where
  "start_timer st = st\<lparr>measured := (measured st)\<lparr>timer_start := clock (measured st)\<rparr>\<rparr>"

text \<open>\<^verbatim>\<open>client.sendMessage(peer, "body", "subject"); sent_messages++;\<close>\<close>

definition test_send :: "xmpp_test \<Rightarrow> xmpp_test outcome" where
  "test_send st =
     obind (Client_sendMessage (test_peer st) (bytes_of ''body'') (bytes_of ''subject'') (test_client st)) (\<lambda>(_, c).
       Done (st\<lparr>test_client := c, messages_sent := messages_sent st + 1\<rparr>))"

text \<open>What stands between the two loops.\<close>

definition begin_bandwidth :: "xmpp_test \<Rightarrow> xmpp_test" where
  "begin_bandwidth st =
     st\<lparr>latency_callback := False, measured := (measured st)\<lparr>returned_messages := 0\<rparr>, messages_sent := 0,
        test_pc := InBandwidthTest\<rparr>"

definition bandwidth_results :: "xmpp_test \<Rightarrow> xmpp_test" where
  "bandwidth_results st =
     (let st = st\<lparr>measured := (measured st)\<lparr>timer_end := clock (measured st)\<rparr>\<rparr>
      in st\<lparr>bandwidth_reports := bandwidth_reports st @
             [(messages_sent st, elapsed_seconds (timer_start (measured st)) (timer_end (measured st)))],
            test_pc := Finishing\<rparr>)"

text \<open>
  One turn of the loop \<^verbatim>\<open>main\<close> is in.  The static \<^verbatim>\<open>peer_connected\<close> is true and never assigned, so the branches on
  it are not taken.
\<close>

definition test_turn :: "xmpp_test \<Rightarrow> xmpp_test outcome" where
  "test_turn st =
     (case test_pc st of
        InLatencyTest \<Rightarrow>
          if \<not> (server_up st \<and> run_latency st) then Done (begin_bandwidth st)
          else if \<not> mIsConnected (mListener (test_client st)) then Done st
          else if sint (latency_limit st) \<le> messages_sent st then
            obind (latency_messaging_results st) (\<lambda>st. Done (begin_bandwidth st))
          else if int (length (latencies (measured st))) = messages_sent st then test_send (start_timer st)
          else Done st
      | InBandwidthTest \<Rightarrow>
          if \<not> (server_up st \<and> run_bandwidth st) then Done (st\<lparr>test_pc := Finishing\<rparr>)
          else if \<not> mIsConnected (mListener (test_client st)) then Done st
          else Done (st\<lparr>test_pc := SendingMessages\<rparr>)
      | SendingMessages \<Rightarrow>
          if messages_sent st < sint (bandwidth_limit st)
          then test_send (if messages_sent st \<le> 0 then start_timer st else st)
          else if messages_sent st = sint (returned_messages (measured st)) then Done (bandwidth_results st)
          else Done (st\<lparr>test_pc := InBandwidthTest\<rparr>)
      | Finishing \<Rightarrow> Done st)"

text \<open>
  \<^verbatim>\<open>client.disconnect()\<close>, the destructor of \<^verbatim>\<open>client\<close> and the exit handler; \<open>meanwhile\<close> and \<open>deleting\<close>: what the
  listening thread does until it is joined, and what gloox calls back from the destructor.
\<close>

definition test_finish ::
    "(xmpp_client \<Rightarrow> xmpp_client outcome) \<Rightarrow> bool \<Rightarrow> (xmpp_client \<Rightarrow> xmpp_client outcome) \<Rightarrow> xmpp_test \<Rightarrow>
     xmpp_test outcome" where
  "test_finish meanwhile join_ok deleting st =
     obind (Client_disconnect meanwhile join_ok (test_client st)) (\<lambda>(_, c).
     obind (delete_Client deleting c) (\<lambda>c. exit_handler (st\<lparr>test_client := c\<rparr>)))"

text \<open>A run: time passes, gloox calls back, or \<^verbatim>\<open>main\<close> makes a turn.\<close>

datatype test_event = TestClock int | TestCallback listener_callback | TestTurn

fun test_step :: "bool \<Rightarrow> test_event \<Rightarrow> xmpp_test \<Rightarrow> xmpp_test outcome" where
  "test_step debug (TestClock t) st = Done (st\<lparr>measured := (measured st)\<lparr>clock := t\<rparr>\<rparr>)"
| "test_step debug (TestCallback c) st = test_callback debug c st"
| "test_step debug TestTurn st = test_turn st"

definition test_run :: "bool \<Rightarrow> test_event list \<Rightarrow> xmpp_test \<Rightarrow> xmpp_test outcome" where
  "test_run debug = deliver_all (test_step debug)"

end
