(* ===== verification/XmppPrograms.thy ===== *)
theory XmppPrograms
  imports CommandLine PluginInterface IosClientMock
begin

text \<open>
  Three small XMPP programs of \<^verbatim>\<open>product/xcode/EscPlatform\<close>: \<^verbatim>\<open>XmppEchoClient/main.cpp\<close>,
  \<^verbatim>\<open>MockForGame/main.cpp\<close> and \<^verbatim>\<open>EscPlatform-Import-Test/main.cpp\<close>.
\<close>

section \<open>XmppEchoClient\<close>

text \<open>\<^verbatim>\<open>EchoListener\<close> overrides \<^verbatim>\<open>handleMessage\<close>; the other callbacks are those of \<^verbatim>\<open>Listener\<close>.\<close>

fun EchoListener_handle ::
    "bool \<Rightarrow> listener_callback \<Rightarrow> echo_listener \<times> xmpp_client \<Rightarrow> (echo_listener \<times> xmpp_client) outcome" where
  "EchoListener_handle debug (OnMessage msg) es = EchoListener_handleMessage msg es"
| "EchoListener_handle debug c (e, s) = obind (Listener_handle debug c s) (\<lambda>s. Done (e, s))"

definition EchoListener_recv :: "echo_listener \<times> xmpp_client \<Rightarrow> (echo_listener \<times> xmpp_client) outcome" where
  "EchoListener_recv es = (case es of (e, s) \<Rightarrow> obind (Listener_recv s) (\<lambda>s. Done (e, s)))"

definition EchoListener_go :: "echo_listener \<times> xmpp_client \<Rightarrow> bool" where
  "EchoListener_go es = Listener_go (snd es)"

text \<open>\<^verbatim>\<open>Listener::openConnection\<close> of an \<^verbatim>\<open>EchoListener\<close>.\<close>

definition EchoListener_openConnection ::
    "bool \<Rightarrow> listener_callback session \<Rightarrow> bool \<Rightarrow> echo_listener \<times> xmpp_client \<Rightarrow>
     (echo_listener \<times> xmpp_client) outcome" where
  "EchoListener_openConnection debug net toggle es =
     (case es of (e, s) \<Rightarrow>
        if \<not> mIsConnected (mListener s) \<and> mClient (mListener s) \<noteq> None then
          obind (ask_gloox (mClient (mListener s)) (ConnectCall toggle) s) (\<lambda>s.
          obind (deliver_all (EchoListener_handle debug) (connect_callbacks net) (e, s)) (\<lambda>es.
            if connect_result net
            then recv_loop EchoListener_recv (EchoListener_handle debug) EchoListener_go (\<lambda>_. False) (recvs net) es
            else Done es))
        else Done es)"

text \<open>The listener has no client; the record \<open>xmpp_client\<close> only carries it and the log of gloox.\<close>

definition XmppEchoClient_start :: "bool \<Rightarrow> bytes list \<Rightarrow> (echo_listener \<times> xmpp_client) launch" where
  "XmppEchoClient_start debug argv =
     (if length argv < 3 then usage argv
      else
        lbind (argv_at argv 1) (\<lambda>raw_username.
        lbind (before_char (byte_of (CHR ''@'')) raw_username) (\<lambda>username.
        lbind (argv_at argv 2) (\<lambda>password.
        lbind (behind_char (byte_of (CHR ''@'')) raw_username) (\<lambda>server.
          Started (new_EchoListener,
            Listener_setup debug username password server 5222 False
              (new_Client\<lparr>mListener := new_Listener False\<rparr>)))))))"

text \<open>\<^verbatim>\<open>main\<close>: the return value and the listener before it is destroyed.\<close>

definition XmppEchoClient_main ::
    "bool \<Rightarrow> listener_callback session \<Rightarrow> bytes list \<Rightarrow> (int \<times> echo_listener \<times> xmpp_client) outcome launch" where
  "XmppEchoClient_main debug net argv =
     lbind (XmppEchoClient_start debug argv) (\<lambda>es.
       Started (obind (EchoListener_openConnection debug net False es) (\<lambda>es. Done (0, es))))"

section \<open>MockForGame\<close>

text \<open>
  \<open>garbage\<close>: what the mock and its configuration hold in the members nothing sets, \<^verbatim>\<open>totalClients\<close> of the
  configuration among them: the number of clients on the command line is read and not used.
\<close>

definition MockForGame_config :: "int32 \<Rightarrow> bytes \<Rightarrow> int32 \<Rightarrow> configuration" where
  "MockForGame_config garbage server server_port =
     \<lparr>config_server = server, oscPort = server_port, totalClients = garbage, oscFrequency = 30, xmppFrequency = 1,
      oscPayloadSize = 100, xmppPayloadSize = 128\<rparr>"

definition MockForGame_args :: "bytes list \<Rightarrow> (bytes \<times> int32 \<times> int32) launch" where
  "MockForGame_args argv =
     (if length argv < 4 then usage argv
      else
        lbind (argv_at argv 1) (\<lambda>server.
        lbind (argv_at argv 2) (\<lambda>peer.
        lbind (lbind (argv_at argv 3) atoi) (\<lambda>server_port.
        lbind (if length argv = 5 then lbind (argv_at argv 4) atoi else Started 30) (\<lambda>client_count.
          Started (server, server_port, client_count))))))"

text \<open>
  \<^verbatim>\<open>mock.start(config)\<close>, and the destructor of \<^verbatim>\<open>mock\<close>; \<open>meanwhile\<close> is what the threads do until they are
  joined.  The last component is what \<^verbatim>\<open>start\<close> throws.
\<close>

definition MockForGame_main ::
    "bool \<Rightarrow> bool \<Rightarrow> (bytes \<Rightarrow> 32 word option) \<Rightarrow> bool \<Rightarrow> bool \<Rightarrow> sockaddr \<Rightarrow> int32 \<Rightarrow> configuration \<Rightarrow>
     (mock \<Rightarrow> mock outcome) \<Rightarrow> bytes list \<Rightarrow> (mock \<times> (osc_error + unit)) outcome launch" where
  "MockForGame_main debug thread_ok resolve socket_ok connect_ok addr garbage garbage_config meanwhile argv =
     lbind (MockForGame_args argv) (\<lambda>(server, server_port, client_count).
       Started
         (obind (IosClientMock_start debug thread_ok resolve socket_ok connect_ok addr
             (MockForGame_config garbage server server_port) (new_IosClientMock garbage garbage_config)) (\<lambda>(m, r).
          obind (delete_IosClientMock meanwhile m) (\<lambda>m. Done (m, r)))))"

section \<open>EscPlatform-Import-Test\<close>

text \<open>\<open>polled\<close>: what was printed; \<open>stack\<close>: the bytes of the two arrays before they are filled.\<close>

record import_test =
  import_plugin :: plugin
  polled :: "bytes list"

text \<open>\<^verbatim>\<open>std::cout << array\<close>: reading past an array without a NUL is a fault.\<close>

definition array_text :: "bytes \<Rightarrow> bytes outcome" where
  "array_text a = (if 0 \<in> set a then Done (c_str a) else Faulted OutOfBounds)"

definition poll_event :: "bytes \<Rightarrow> bytes \<Rightarrow> import_test \<Rightarrow> import_test outcome" where
  "poll_event user msg st =
     (if hasMoreEvents (import_plugin st) then
        obind (getNextEvent (Some user) 96 (Some msg) 256 (import_plugin st)) (\<lambda>(r, user, msg, p).
          let st = st\<lparr>import_plugin := p\<rparr> in
          case (user, msg) of
            (Some user, Some msg) \<Rightarrow>
              if r = 0 then
                obind (array_text user) (\<lambda>u. obind (array_text msg) (\<lambda>t.
                  Done (st\<lparr>polled := polled st @ [bytes_of ''next event from '' @ u @ bytes_of '' : '' @ t]\<rparr>)))
              else Done st
          | _ \<Rightarrow> Done st)
      else Done st)"

definition poll_presence :: "bytes \<Rightarrow> int \<Rightarrow> import_test \<Rightarrow> import_test outcome" where
  "poll_presence user presence st =
     (if hasMorePresenceEvents (import_plugin st) then
        obind (getNextPresenceEvent (Some user) 96 presence (import_plugin st)) (\<lambda>(r, user, presence, p).
          let st = st\<lparr>import_plugin := p\<rparr> in
          case user of
            Some user \<Rightarrow>
              if r = 0 then
                obind (array_text user) (\<lambda>u.
                  Done (st\<lparr>polled := polled st @ [bytes_of ''presence from '' @ u @ bytes_of '' : '' @ sprintf_i (word_of_int presence)]\<rparr>))
              else Done st
          | None \<Rightarrow> Done st)
      else Done st)"

definition poll_status :: "int \<Rightarrow> import_test \<Rightarrow> import_test" where
  "poll_status status st =
     (if hasMoreStatusChanges (import_plugin st) then
        let (r, status, p) = getNextStatusChange status (import_plugin st);
            st = st\<lparr>import_plugin := p\<rparr>
        in if r = 0 then st\<lparr>polled := polled st @ [bytes_of ''status change: '' @ sprintf_i (word_of_int status)]\<rparr> else st
      else st)"

text \<open>
  One turn of \<^verbatim>\<open>while (connected)\<close>; nothing sets \<^verbatim>\<open>connected\<close> to false, so \<^verbatim>\<open>stopInterface\<close> is not reached.
\<close>

definition import_turn :: "bytes \<Rightarrow> bytes \<Rightarrow> bytes \<Rightarrow> int \<Rightarrow> import_test \<Rightarrow> import_test outcome" where
  "import_turn user msg user' garbage st =
     obind (poll_event user msg st) (\<lambda>st.
     obind (poll_presence user' garbage st) (\<lambda>st. Done (poll_status garbage st)))"

definition ImportTest_start :: "bool \<Rightarrow> bool \<Rightarrow> bool \<Rightarrow> logger \<Rightarrow> (import_test \<times> logger) outcome" where
  "ImportTest_start debug alloc_ok thread_ok lg =
     (let lg = Logger_enable False lg in
      obind (startInterface debug alloc_ok thread_ok (Some (bytes_of ''account-test-user''))
          (Some (bytes_of ''account-test-password'')) (Some (bytes_of ''cgs-MacBook-Pro-4.local'')) None)
        (\<lambda>(r, p). Done (\<lparr>import_plugin = p, polled = []\<rparr>, lg)))"

end
