(* ===== verification/XmppProgramsSpec.thy ===== *)
theory XmppProgramsSpec
  imports XmppPrograms
begin

text \<open>
  The XMPP echo client answers every message; the mock for the game never returns from \<^verbatim>\<open>main\<close>; the import
  test prints the events of the client or reads past its arrays.
\<close>

section \<open>The echo client\<close>

text \<open>The messages the program has handed to gloox, in order.\<close>

definition stanza_of :: "nat \<times> gloox_call \<Rightarrow> (message_subtype \<times> address \<times> bytes \<times> bytes) list" where
  "stanza_of x = (case snd x of SendMessageStanza t to b s \<Rightarrow> [(t, to, b, s)] | _ \<Rightarrow> [])"

definition stanzas :: "xmpp_client \<Rightarrow> (message_subtype \<times> address \<times> bytes \<times> bytes) list" where
  "stanzas s = concat (map stanza_of (glog (gloox_state s)))"

definition answer_to :: "gloox_message \<Rightarrow> message_subtype \<times> address \<times> bytes \<times> bytes" where
  "answer_to m = (msg_subtype m, AddressOf (msg_from m), msg_body m, msg_subject m)"

fun messages_in :: "listener_callback list \<Rightarrow> gloox_message list" where
  "messages_in [] = []"
| "messages_in (OnMessage m # cs) = m # messages_in cs"
| "messages_in (c # cs) = messages_in cs"

lemma messages_in_append [simp]: "messages_in (cs @ ds) = messages_in cs @ messages_in ds"
  by (induction cs rule: messages_in.induct) auto

text \<open>The callbacks until the connection ends.\<close>

fun until_error :: "(listener_callback list \<times> connection_error) list \<Rightarrow> listener_callback list" where
  "until_error [] = []"
| "until_error ((cs, ce) # rest) = cs @ (if ce \<noteq> ConnNoError then [] else until_error rest)"

definition session_callbacks :: "listener_callback session \<Rightarrow> listener_callback list" where
  "session_callbacks net = connect_callbacks net @ (if connect_result net then until_error (recvs net) else [])"

text \<open>Gloox answers a registration only to a program that asks for one, which this one does not.\<close>

fun no_registration :: "listener_callback \<Rightarrow> bool" where
  "no_registration (OnRegistrationFields f) = False"
| "no_registration (OnRegistrationResult r) = False"
| "no_registration c = True"

definition echo_ready :: "xmpp_client \<Rightarrow> bool" where
  "echo_ready s \<longleftrightarrow> mClient (mListener s) \<noteq> None \<and> mRegistration (mListener s) = None \<and> \<not> mDelegate (mListener s)"

definition echoed :: "gloox_message list \<Rightarrow> echo_listener \<times> xmpp_client \<Rightarrow> echo_listener \<times> xmpp_client \<Rightarrow> bool" where
  "echoed ms es es' \<longleftrightarrow> echo_ready (snd es') \<and> stanzas (snd es') = stanzas (snd es) @ map answer_to ms \<and>
     mEchoedMessages (fst es') = mEchoedMessages (fst es) + of_nat (length ms)"

lemma echoed_refl: "echo_ready (snd es) \<Longrightarrow> echoed [] es es"
  by (simp add: echoed_def)

lemma echoed_trans: "echoed ms es es1 \<Longrightarrow> echoed ns es1 es2 \<Longrightarrow> echoed (ms @ ns) es es2"
  by (simp add: echoed_def)

lemma stanzas_append [simp]: "stanzas (s\<lparr>gloox_state := g\<rparr>) = concat (map stanza_of (glog g))"
  by (simp add: stanzas_def)

lemma stanzas_listener [simp]: "stanzas (s\<lparr>mListener := l\<rparr>) = stanzas s"
  by (simp add: stanzas_def)

lemma stanza_of_other [simp]:
  "stanza_of (h, DisposeMessageSession n) = []" "stanza_of (h, RegisterMessageHandler) = []"
  "stanza_of (h, NewMessageEventFilter k) = []" "stanza_of (h, RegisterMessageEventHandler) = []"
  "stanza_of (h, NewChatStateFilter k) = []" "stanza_of (h, RegisterChatStateHandler) = []"
  "stanza_of (h, SendSubscribe a) = []" "stanza_of (h, RecvCall) = []" "stanza_of (h, ConnectCall b) = []"
  "stanza_of (h, SendMessageStanza t a msg subj) = [(t, a, msg, subj)]"
  by (simp_all add: stanza_of_def)

lemma EchoListener_handle_echoes:
  assumes "echo_ready (snd es)" and "no_registration c"
  shows "\<exists>es'. EchoListener_handle debug c es = Done es' \<and> echoed (messages_in [c]) es es'"
proof -
  obtain e s where es: "es = (e, s)" by force
  obtain h where h: "mClient (mListener s) = Some h" using assms(1) by (auto simp: es echo_ready_def)
  have stanzas_log: "concat (map stanza_of (glog (gloox_state s))) = stanzas s" by (simp add: stanzas_def)
  show ?thesis
    using assms h
    by (cases c) (auto simp: es echo_ready_def echoed_def EchoListener_handleMessage_def Listener_handleMessage_def
      to_delegate_def Let_def answer_to_def Listener_onConnect_def Listener_onDisconnect_def stanzas_log
      Listener_onTLSConnect_def Listener_handleMessageSession_def Listener_handleSubscriptionRequest_def set_listener_def
      gnew_def)
qed

lemma deliver_all_echoes:
  "echo_ready (snd es) \<Longrightarrow> list_all no_registration cs \<Longrightarrow>
   \<exists>es'. deliver_all (EchoListener_handle debug) cs es = Done es' \<and> echoed (messages_in cs) es es'"
proof (induction cs arbitrary: es)
  case (Cons c cs)
  obtain es1 where 1: "EchoListener_handle debug c es = Done es1" "echoed (messages_in [c]) es es1"
    using EchoListener_handle_echoes [OF Cons.prems(1), of c debug] Cons.prems(2) by fastforce
  then obtain es2 where 2: "deliver_all (EchoListener_handle debug) cs es1 = Done es2" "echoed (messages_in cs) es1 es2"
    using Cons.IH [of es1] Cons.prems(2) unfolding echoed_def by fastforce
  show ?case using 1 2 echoed_trans [OF 1(2) 2(2)] messages_in_append [of "[c]" cs] by auto
qed (simp add: echoed_refl)

lemma EchoListener_recv_echoes:
  assumes "echo_ready (snd es)"
  shows "\<exists>es'. EchoListener_recv es = Done es' \<and> echoed [] es es'"
proof -
  obtain e s where es: "es = (e, s)" by force
  show ?thesis
    using assms by (auto simp: es EchoListener_recv_def Listener_recv_def echoed_def echo_ready_def stanzas_def)
qed

lemma recv_loop_echoes:
  assumes "echo_ready (snd es)" and "list_all no_registration (until_error script)"
    and "\<exists>b\<in>set script. snd b \<noteq> ConnNoError"
  shows "\<exists>es'. recv_loop EchoListener_recv (EchoListener_handle debug) EchoListener_go (\<lambda>_. False) script es = Done es' \<and>
    echoed (messages_in (until_error script)) es es'"
  using assms
proof (induction script arbitrary: es)
  case (Cons b script)
  obtain cs ce where b: "b = (cs, ce)" by force
  have go: "EchoListener_go es" using Cons.prems(1) by (simp add: EchoListener_go_def Listener_go_def echo_ready_def)
  obtain es1 where 1: "EchoListener_recv es = Done es1" "echoed [] es es1"
    using EchoListener_recv_echoes [OF Cons.prems(1)] by blast
  obtain es2 where 2: "deliver_all (EchoListener_handle debug) cs es1 = Done es2" "echoed (messages_in cs) es1 es2"
    using deliver_all_echoes [of es1 cs debug] 1(2) Cons.prems(2) unfolding b echoed_def by fastforce
  have 12: "echoed (messages_in cs) es es2" using echoed_trans [OF 1(2) 2(2)] by simp
  show ?case
  proof (cases "ce = ConnNoError")
    case True
    then obtain es3 where
      3: "recv_loop EchoListener_recv (EchoListener_handle debug) EchoListener_go (\<lambda>_. False) script es2 = Done es3"
        "echoed (messages_in (until_error script)) es2 es3"
      using Cons.IH [of es2] Cons.prems 2(2) by (auto simp: b echoed_def)
    show ?thesis using go 1 2 3 True echoed_trans [OF 12 3(2)] by (auto simp: b)
  next
    case False
    then show ?thesis using go 1 2 12 by (auto simp: b)
  qed
qed simp

text \<open>The program is set up to echo.\<close>

lemma XmppEchoClient_start_ready:
  assumes "XmppEchoClient_start debug argv = Started es"
  shows "echo_ready (snd es) \<and> \<not> mIsConnected (mListener (snd es)) \<and> stanzas (snd es) = [] \<and> mEchoedMessages (fst es) = 0"
proof -
  have listener: "echo_ready l \<and> \<not> mIsConnected (mListener l) \<and> stanzas l = []"
    if "l = Listener_setup debug username password server port False (new_Client\<lparr>mListener := new_Listener False\<rparr>)"
    for username password server port l
    unfolding that
    by (cases "server = []") (simp_all add: Listener_setup_def gnew_def echo_ready_def stanzas_def stanza_of_def set_listener_def new_Client_def
        new_Listener_def no_gloox_def Let_def gcalls_def)
  show ?thesis
    using assms listener [OF refl]
    by (auto simp: XmppEchoClient_start_def lbind_eq_Started usage_def new_EchoListener_def split: if_splits)
qed

definition ends_with_error :: "listener_callback session \<Rightarrow> bool" where
  "ends_with_error net \<longleftrightarrow> connect_result net \<longrightarrow> list_ex (\<lambda>b. snd b \<noteq> ConnNoError) (recvs net)"

lemma openConnection_echoes:
  assumes "echo_ready (snd es)" and "\<not> mIsConnected (mListener (snd es))"
    and "list_all no_registration (session_callbacks net)" and "ends_with_error net"
  shows "\<exists>es'. EchoListener_openConnection debug net toggle es = Done es' \<and>
    echoed (messages_in (session_callbacks net)) es es'"
proof -
  obtain e s where es: "es = (e, s)" by force
  obtain h where h: "mClient (mListener s) = Some h" using assms(1) by (auto simp: es echo_ready_def)
  define s1 where "s1 = s\<lparr>gloox_state := gcall h (ConnectCall toggle) (gloox_state s)\<rparr>"
  have 1: "echoed [] (e, s) (e, s1)" "echo_ready s1"
    using assms(1) by (simp_all add: s1_def es echoed_def echo_ready_def stanzas_def)
  obtain es2 where 2: "deliver_all (EchoListener_handle debug) (connect_callbacks net) (e, s1) = Done es2"
    "echoed (messages_in (connect_callbacks net)) (e, s1) es2"
    using deliver_all_echoes [of "(e, s1)" "connect_callbacks net" debug] 1(2) assms(3)
    unfolding session_callbacks_def by fastforce
  have 12: "echoed (messages_in (connect_callbacks net)) es es2" using echoed_trans [OF 1(1) 2(2)] by (simp add: es)
  show ?thesis
  proof (cases "connect_result net")
    case True
    obtain es3 where
      3: "recv_loop EchoListener_recv (EchoListener_handle debug) EchoListener_go (\<lambda>_. False) (recvs net) es2 = Done es3"
        "echoed (messages_in (until_error (recvs net))) es2 es3"
      using recv_loop_echoes [of es2 "recvs net" debug] 12 assms(3,4) True
      unfolding echoed_def session_callbacks_def ends_with_error_def list_ex_iff by fastforce
    show ?thesis
      using h assms(2) 2 3 True echoed_trans [OF 12 3(2)]
      by (auto simp: EchoListener_openConnection_def es s1_def session_callbacks_def)
  next
    case False
    show ?thesis
      using h assms(2) 2 False 12 by (auto simp: EchoListener_openConnection_def es s1_def session_callbacks_def)
  qed
qed

text \<open>What \<^verbatim>\<open>main\<close> leaves behind: every message went back to its sender, in the order of arrival.\<close>

lemma XmppEchoClient_main_echoes:
  assumes "XmppEchoClient_start debug argv = Started es"
    and "list_all no_registration (session_callbacks net)" and "ends_with_error net"
  shows "\<exists>e s. XmppEchoClient_main debug net argv = Started (Done (0, e, s)) \<and>
    stanzas s = map answer_to (messages_in (session_callbacks net)) \<and>
    mEchoedMessages e = of_nat (length (messages_in (session_callbacks net)))"
proof -
  note ready = XmppEchoClient_start_ready [OF assms(1)]
  obtain es' where "EchoListener_openConnection debug net False es = Done es'"
    "echoed (messages_in (session_callbacks net)) es es'"
    using openConnection_echoes [of es net debug False] ready assms(2,3) by blast
  then show ?thesis
    using assms(1) ready by (cases es') (auto simp: XmppEchoClient_main_def echoed_def)
qed

section \<open>The mock for the game\<close>

lemma unat_eq_one: "unat (w :: ulong) = 1 \<Longrightarrow> w = 1"
  by (simp add: word_unat_eq_iff)

lemma start_two_clients:
  assumes "mClients m = []" and "capacity m = 0" and "totalClients (mConfig m) \<noteq> 0" and "totalClients (mConfig m) \<noteq> 1"
    and "fresh m \<notin> set (live m)"
  shows "start_clients debug ok (unat (scast (totalClients (mConfig m)) :: ulong)) m = Faulted DoubleFree"
proof -
  let ?t = "totalClients (mConfig m)" and ?n = "unat (scast (totalClients (mConfig m)) :: ulong)"
  have sint: "sint (scast ?t :: ulong) = sint ?t" by (rule sint_up_scast) (simp add: is_up)
  have "?n \<noteq> 0 \<and> ?n \<noteq> 1"
  proof (intro conjI notI)
    assume "?n = 0"
    then have "(scast ?t :: ulong) = 0" by (simp only: unat_eq_0)
    then have "sint ?t = sint (0 :: int32)" using sint by (simp only: signed_0)
    then show False using assms(3) signed_word_eqI [of ?t 0] by simp
  next
    assume "?n = 1"
    then have "(scast ?t :: ulong) = 1" by (rule unat_eq_one)
    then have "sint ?t = sint (1 :: int32)" using sint by (simp only: signed_1) simp
    then show False using assms(4) signed_word_eqI [of ?t 1] by simp
  qed
  then obtain k where k: "?n = Suc (Suc k)" by (metis One_nat_def not0_implies_Suc)
  show ?thesis
    unfolding k using k assms
    by (simp add: more_clients_def start_turn_first [OF assms(1,2)] start_turn_second)
qed

definition leaves_clients :: "(mock \<Rightarrow> mock outcome) \<Rightarrow> bool" where
  "leaves_clients meanwhile \<longleftrightarrow> (\<forall>m m'. meanwhile m = Done m' \<longrightarrow> mClients m' = mClients m \<and> live m' = live m)"

lemma delete_after_copy:
  assumes "leaves_clients meanwhile" and "mClients m = [(c, a)]" and "a \<notin> set (live m)"
  shows "delete_IosClientMock meanwhile m \<noteq> Done m'"
proof -
  have "clear_clients (n\<lparr>mOscThread := False, mXmppThread := False\<rparr>) = Faulted DoubleFree"
    if "mClients n = [(c, a)]" "a \<notin> set (live n)" for n
    using that by (simp add: clear_clients_def destroy_client_def)
  then show ?thesis
    using assms by (auto simp: delete_IosClientMock_def Let_def leaves_clients_def obind_eq_Done)
qed

text \<open>
  Whatever the memory holds for the number of clients: unless it is zero, \<^verbatim>\<open>main\<close> does not return.
\<close>

lemma MockForGame_main_fails:
  assumes "leaves_clients meanwhile" and "garbage \<noteq> 0"
  shows "MockForGame_main debug ok resolve socket_ok connect_ok addr garbage config meanwhile argv \<noteq> Started (Done r)"
proof
  assume "MockForGame_main debug ok resolve socket_ok connect_ok addr garbage config meanwhile argv = Started (Done r)"
  then obtain server port m res where
    start: "IosClientMock_start debug ok resolve socket_ok connect_ok addr (MockForGame_config garbage server port)
      (new_IosClientMock garbage config) = Done (m, res)"
    and del: "delete_IosClientMock meanwhile m = Done (fst r)"
    by (force simp: MockForGame_main_def lbind_eq_Started obind_eq_Done)
  let ?m = "new_IosClientMock garbage config\<lparr>mConfig := MockForGame_config garbage server port\<rparr>"
  have m: "mClients ?m = []" "capacity ?m = 0" "totalClients (mConfig ?m) = garbage" "fresh ?m \<notin> set (live ?m)"
    by (simp_all add: new_IosClientMock_def MockForGame_config_def)
  have clear: "clear_clients ?m = Done ?m" using m(1) by (simp add: clear_clients_def)
  have total: "totalClients (MockForGame_config g server port) = g" for g by (simp add: MockForGame_config_def)
  show False
  proof (cases "garbage = 1")
    case True
    have one: "unat (scast (1 :: int32) :: ulong) = Suc 0" by simp
    have "\<exists>c a. mClients m = [(c, a)] \<and> a \<notin> set (live m)"
      using start m [unfolded True]
      by (auto simp: IosClientMock_start_def clear [unfolded True] one more_clients_def start_turn_first start_threads_def
          total True Let_def split: prod.splits sum.splits if_splits)
    then show False using delete_after_copy [OF assms(1)] del by blast
  next
    case False
    then show False
      using start start_two_clients [of ?m debug ok] m assms(2)
      by (simp add: IosClientMock_start_def clear total)
  qed
qed

section \<open>The import test\<close>

lemma strncpy_array:
  assumes "length dst = unat n"
  shows "\<exists>a. strncpy dst src n = Done a \<and> length a = unat n \<and>
    array_text a = (if length (c_str src) < unat n then Done (c_str src) else Faulted OutOfBounds)"
proof -
  let ?w = "take (unat n) (c_str src @ replicate (unat n) 0)"
  have a: "strncpy dst src n = Done ?w"
    using assms by (simp add: strncpy_def blit_def)
  have no_zero: "0 \<notin> set (c_str src)" by (auto simp: c_str_def dest: set_takeWhileD)
  show ?thesis
  proof (cases "length (c_str src) < unat n")
    case True
    then have "?w = c_str src @ replicate (unat n - length (c_str src)) 0" by simp
    moreover have "c_str \<dots> = c_str src"
      using True no_zero by (cases "unat n - length (c_str src)")
        (auto simp: c_str_def takeWhile_append takeWhile_eq_all_conv)
    ultimately show ?thesis using True a by (simp add: array_text_def)
  next
    case False
    then have "?w = take (unat n) (c_str src)" by simp
    moreover have "0 \<notin> set (take (unat n) (c_str src))" using no_zero by (auto dest: in_set_takeD)
    ultimately show ?thesis using False a by (simp add: array_text_def)
  qed
qed

text \<open>
  An event is printed when both texts leave room for the NUL; otherwise printing reads past an array.
\<close>

lemma poll_event_prints:
  assumes "length user = 96" and "length msg = 256"
    and "import_plugin st = Some s" and "mEventQueue s = e # rest"
  shows "poll_event user msg st =
    (if length (c_str (event_username e)) < 96 \<and> length (c_str (event_message e)) < 256
     then Done (st\<lparr>import_plugin := Some (s\<lparr>mEventQueue := rest\<rparr>), polled := polled st @
       [bytes_of ''next event from '' @ c_str (event_username e) @ bytes_of '' : '' @ c_str (event_message e)]\<rparr>)
     else Faulted OutOfBounds)"
proof -
  obtain u where u: "strncpy user (event_username e) 96 = Done u"
    "array_text u = (if length (c_str (event_username e)) < 96 then Done (c_str (event_username e)) else Faulted OutOfBounds)"
    using strncpy_array [of user 96 "event_username e"] assms(1) by auto
  obtain m where m: "strncpy msg (event_message e) 256 = Done m"
    "array_text m = (if length (c_str (event_message e)) < 256 then Done (c_str (event_message e)) else Faulted OutOfBounds)"
    using strncpy_array [of msg 256 "event_message e"] assms(2) by auto
  show ?thesis
    using assms(3,4) u m by (simp add: poll_event_def hasMoreEvents_def getNextEvent_def Let_def)
qed

lemma poll_presence_prints:
  assumes "length user = 96" and "import_plugin st = Some s" and "mPresenceQueue s = e # rest"
  shows "poll_presence user garbage st =
    (if length (c_str (presence_username e)) < 96
     then Done (st\<lparr>import_plugin := Some (s\<lparr>mPresenceQueue := rest\<rparr>), polled := polled st @
       [bytes_of ''presence from '' @ c_str (presence_username e) @ bytes_of '' : '' @
        sprintf_i (word_of_int (status_value (presence_status e)))]\<rparr>)
     else Faulted OutOfBounds)"
proof -
  obtain u where u: "strncpy user (presence_username e) 96 = Done u"
    "array_text u = (if length (c_str (presence_username e)) < 96 then Done (c_str (presence_username e)) else Faulted OutOfBounds)"
    using strncpy_array [of user 96 "presence_username e"] assms(1) by auto
  show ?thesis
    using assms(2,3) u by (simp add: poll_presence_def hasMorePresenceEvents_def getNextPresenceEvent_def Let_def)
qed

lemma poll_status_prints:
  assumes "import_plugin st = Some s" and "mStateQueue s = x # rest"
  shows "poll_status garbage st = st\<lparr>import_plugin := Some (s\<lparr>mStateQueue := rest\<rparr>), polled := polled st @
    [bytes_of ''status change: '' @ sprintf_i (word_of_int (state_value x))]\<rparr>"
  using assms by (simp add: poll_status_def hasMoreStatusChanges_def getNextStatusChange_def Let_def)

end
