(* ===== verification/XmppPerformanceSpec.thy ===== *)
theory XmppPerformanceSpec
  imports XmppPerformance OscPerformanceSpec XmppProgramsSpec
begin

text \<open>
  What \<^verbatim>\<open>XmppPerformanceTest\<close> reads from its arguments, when its latency test reads past an empty list, and what the
  test reports when every message comes back.
\<close>

section \<open>Arguments\<close>

lemma std_includes_append: "std_includes (cs @ xs) cs"
  by (induction cs) auto

text \<open>The first argument that contains the parameter counts, if its number can be read.\<close>

lemma parameter_search_finds:
  assumes "\<not> list_ex (\<lambda>a. std_includes a name) before" and "byte_of (CHR ''='') \<notin> set name"
    and "string_size_ok (name @ byte_of (CHR ''='') # sprintf_i n)"
  shows "parameter_search (before @ (name @ byte_of (CHR ''='') # sprintf_i n) # after) name = Started n"
proof -
  let ?e = "name @ byte_of (CHR ''='') # sprintf_i n"
  have hit: "parameter_search (?e # after) name = Started n"
    using split_at_char [OF assms(2,3)] by (simp add: std_includes_append stoi_sprintf_i)
  show ?thesis using assms(1) by (induction before) (use hit in auto)
qed

text \<open>Without the parameter the limit is 0.\<close>

lemma parameter_search_missing: "\<not> list_ex (\<lambda>a. std_includes a name) es \<Longrightarrow> parameter_search es name = Started 0"
  by (induction es) auto

section \<open>The state of the test\<close>

text \<open>
  A message is only sent when as many came back as were sent, so all but the last of the messages sent have come back.
\<close>

definition latency_report :: "rat list \<Rightarrow> rat \<times> rat \<times> rat" where
  "latency_report xs = (projr (computeMin xs), projr (computeMax xs), float_mean xs)"

definition test_inv :: "xmpp_test \<Rightarrow> bool" where
  "test_inv st \<longleftrightarrow> 0 \<le> messages_sent st \<and>
     (latency_callback st \<longleftrightarrow> test_pc st = InLatencyTest) \<and>
     (test_pc st = InLatencyTest \<longrightarrow> messages_sent st \<le> int (length (latencies (measured st))) + 1 \<and>
        latency_reports st = []) \<and>
     (test_pc st \<noteq> InLatencyTest \<longrightarrow> messages_sent st \<le> max 0 (sint (bandwidth_limit st))) \<and>
     (test_pc st \<noteq> Finishing \<longrightarrow> bandwidth_reports st = []) \<and>
     (bandwidth_reports st = [] \<or> map fst (bandwidth_reports st) = [max 0 (sint (bandwidth_limit st))]) \<and>
     (reported_latencies st \<longleftrightarrow> latency_reports st \<noteq> []) \<and>
     (latency_reports st = [] \<or>
      latencies (measured st) \<noteq> [] \<and> latency_reports st = [latency_report (latencies (measured st))])"

lemma Client_sendMessage_returns:
  "\<exists>b c. Client_sendMessage r m sub s = Done (b, c) \<and> signal_calls c = signal_calls s"
  by (auto simp: sendMessage_result split: option.splits)

lemma test_send_result:
  "\<exists>c. test_send st = Done (st\<lparr>test_client := c, messages_sent := messages_sent st + 1\<rparr>) \<and>
     signal_calls c = signal_calls (test_client st)"
proof -
  obtain b c where "Client_sendMessage (test_peer st) (bytes_of ''body'') (bytes_of ''subject'') (test_client st) = Done (b, c)"
    "signal_calls c = signal_calls (test_client st)"
    using Client_sendMessage_returns by blast
  then show ?thesis by (auto simp: test_send_def)
qed

lemma first_best_greater:
  "first_best (\<lambda>a b. b < a) best xs \<in> insert best (set xs) \<and> (\<forall>x\<in>insert best (set xs). x \<le> first_best (\<lambda>a b. b < a) best xs)"
proof (induction xs arbitrary: best)
  case (Cons x xs)
  show ?case using Cons [of x] Cons [of best] by (cases "best < x") (auto intro: order_trans)
qed simp

lemma computeMax_greatest: "computeMax xs = Inr m \<Longrightarrow> m \<in> set xs \<and> (\<forall>x\<in>set xs. x \<le> m)"
  using first_best_greater by (auto simp: computeMax_def split: list.splits)

lemma latency_messaging_results_result:
  "latency_messaging_results st =
     (if latencies (measured st) = [] then Faulted OutOfBounds
      else Done (st\<lparr>latency_reports := latency_reports st @ [latency_report (latencies (measured st))],
            reported_latencies := True\<rparr>))"
  by (cases "latencies (measured st)")
    (simp_all add: latency_messaging_results_def latency_report_def computeMin_def computeMax_def)

lemma latency_report_extremes:
  assumes "xs \<noteq> []" and "latency_report xs = (lo, hi, mean)"
  shows "lo \<in> set xs" and "hi \<in> set xs" and "\<forall>x\<in>set xs. lo \<le> x \<and> x \<le> hi" and "mean = float_mean xs"
proof -
  have "computeMin xs = Inr lo" "computeMax xs = Inr hi" "mean = float_mean xs"
    using assms by (cases xs; simp add: latency_report_def computeMin_def computeMax_def)+
  then show "lo \<in> set xs" "hi \<in> set xs" "\<forall>x\<in>set xs. lo \<le> x \<and> x \<le> hi" "mean = float_mean xs"
    using computeMin_least [of xs lo] computeMax_greatest [of xs hi] by auto
qed

lemma test_inv_start:
  assumes "XmppPerformanceTest_start debug ok time argv = Started st"
  shows "test_inv st"
  using assms
  by (auto simp: XmppPerformanceTest_start_def usage_def lbind_eq_Started Let_def test_inv_def split: if_splits)

text \<open>Where a turn fails, and that every other turn keeps the state.\<close>

lemma test_turn_fails:
  assumes "test_turn st = Faulted e"
  shows "e = OutOfBounds \<and> test_pc st = InLatencyTest \<and> server_up st \<and> run_latency st \<and>
    mIsConnected (mListener (test_client st)) \<and> sint (latency_limit st) \<le> messages_sent st \<and> latencies (measured st) = []"
  using assms test_send_result [of st] test_send_result [of "start_timer st"]
  by (auto simp: test_turn_def latency_messaging_results_result split: test_pc.splits if_splits)

lemma test_inv_turn:
  assumes "test_inv st" and "test_turn st = Done st'"
  shows "test_inv st'"
proof (cases "test_pc st")
  case InLatencyTest
  then show ?thesis
    using assms test_send_result [of "start_timer st"]
    by (auto simp: test_turn_def latency_messaging_results_result test_inv_def begin_bandwidth_def start_timer_def
        split: if_splits)
next
  case SendingMessages
  then show ?thesis
    using assms test_send_result [of "start_timer st"] test_send_result [of st]
    by (auto simp: test_turn_def test_inv_def bandwidth_results_def start_timer_def Let_def split: if_splits)
qed (use assms in \<open>auto simp: test_turn_def test_inv_def split: if_splits\<close>)

lemma test_inv_returned:
  assumes "test_inv st"
  shows "test_inv (message_returned st)"
proof (cases "latency_callback st")
  case True
  then have "test_pc st = InLatencyTest" using assms by (simp add: test_inv_def)
  then show ?thesis using assms True by (simp add: test_inv_def message_returned_def ping_returned_def Let_def)
next
  case False
  then show ?thesis using assms by (simp add: test_inv_def message_returned_def bandwidth_messageReturned_def)
qed

lemma test_inv_other [simp]:
  "test_inv (st\<lparr>server_up := b\<rparr>) = test_inv st" "test_inv (st\<lparr>test_client := c\<rparr>) = test_inv st"
  "test_inv (st\<lparr>measured := (measured st)\<lparr>clock := k\<rparr>\<rparr>) = test_inv st"
  "test_inv (start_timer st) = test_inv st"
  by (simp_all add: test_inv_def start_timer_def)

lemma test_signal_keeps:
  assumes "test_inv st" and "test_signal c st = Done st'"
  shows "test_inv st'"
  using assms test_inv_returned [OF assms(1)] by (cases c) (auto split: if_splits)

lemma test_inv_callback:
  assumes "test_inv st" and "test_callback debug c st = Done st'"
  shows "test_inv st'"
proof -
  have all: "test_inv s'" if "test_inv s" "deliver_all test_signal l s = Done s'" for l s s'
    using that by (induction l arbitrary: s) (auto simp: obind_eq_Done intro: test_signal_keeps)
  obtain cl l where "deliver_all test_signal l (st\<lparr>test_client := cl\<rparr>) = Done st'"
    using assms(2) by (auto simp: test_callback_def obind_eq_Done)
  then show ?thesis by (rule all [rotated]) (simp add: assms(1))
qed

lemma test_inv_run:
  assumes "test_inv st" and "test_run debug es st = Done st'"
  shows "test_inv st'"
  using assms unfolding test_run_def
proof (induction es arbitrary: st)
  case (Cons e es)
  then obtain st1 where st1: "test_step debug e st = Done st1" "deliver_all (test_step debug) es st1 = Done st'"
    by (auto simp: obind_eq_Done)
  have "test_inv st1"
    using st1(1) Cons.prems(1) by (cases e) (auto intro: test_inv_turn test_inv_callback)
  then show ?case using Cons.IH st1(2) by blast
qed simp

section \<open>When it fails\<close>

text \<open>A limit of two or more leaves no report without a time.\<close>

lemma test_turn_returns:
  assumes "test_inv st" and "1 < sint (latency_limit st) \<or> \<not> run_latency st"
  shows "\<exists>st'. test_turn st = Done st'"
proof (cases "test_turn st")
  case (Faulted e)
  note f = test_turn_fails [OF Faulted]
  have "messages_sent st \<le> 1" using assms(1) f by (simp add: test_inv_def)
  then show ?thesis using assms(2) f by linarith
next
  case Blocked
  then show ?thesis
    using test_send_result [of st] test_send_result [of "start_timer st"]
    by (auto simp: test_turn_def latency_messaging_results_result split: test_pc.splits if_splits)
qed simp

text \<open>With a limit below one, the first turn that finds a connection fails.\<close>

lemma test_turn_empty:
  assumes "test_pc st = InLatencyTest" and "server_up st" and "run_latency st" and "mIsConnected (mListener (test_client st))"
    and "sint (latency_limit st) \<le> 0" and "messages_sent st = 0" and "latencies (measured st) = []"
  shows "test_turn st = Faulted OutOfBounds"
  using assms by (simp add: test_turn_def latency_messaging_results_result)

lemma keeps_options:
  assumes "test_run debug es st = Done st'"
  shows "latency_limit st' = latency_limit st \<and> bandwidth_limit st' = bandwidth_limit st \<and>
    run_latency st' = run_latency st \<and> run_bandwidth st' = run_bandwidth st \<and> test_peer st' = test_peer st"
proof -
  let ?same = "\<lambda>s s'. latency_limit s' = latency_limit s \<and> bandwidth_limit s' = bandwidth_limit s \<and>
    run_latency s' = run_latency s \<and> run_bandwidth s' = run_bandwidth s \<and> test_peer s' = test_peer s"
  have signal: "?same s s'" if "test_signal c s = Done s'" for c s s'
    using that by (cases c) (auto simp: message_returned_def split: if_splits)
  have signals: "?same s s'" if "deliver_all test_signal l s = Done s'" for l s s'
    using that by (induction l arbitrary: s) (auto simp: obind_eq_Done dest!: signal)
  have turn: "?same s s'" if "test_turn s = Done s'" for s s'
    using that test_send_result [of s] test_send_result [of "start_timer s"]
    by (auto simp: test_turn_def latency_messaging_results_result begin_bandwidth_def bandwidth_results_def start_timer_def
        Let_def split: test_pc.splits if_splits)
  have step: "?same s s'" if "test_step debug e s = Done s'" for e s s'
    using that by (cases e) (auto simp: test_callback_def obind_eq_Done dest!: signals turn)
  show ?thesis
    using assms unfolding test_run_def by (induction es arbitrary: st) (auto simp: obind_eq_Done dest!: step)
qed

section \<open>A test in which every message comes back\<close>

text \<open>One round: it is \<open>d\<close> when \<^verbatim>\<open>main\<close> sends, and \<open>a\<close> when the message is back.\<close>

definition ping_round :: "int \<times> int \<times> gloox_message \<Rightarrow> test_event list" where
  "ping_round x = (case x of (d, a, m) \<Rightarrow> [TestClock d, TestTurn, TestClock a, TestCallback (OnMessage m)])"

definition round_time :: "int \<times> int \<times> gloox_message \<Rightarrow> rat" where
  "round_time x = (case x of (d, a, m) \<Rightarrow> fl24 (elapsed_seconds d a * 1000))"

definition ping :: "bytes \<Rightarrow> bytes \<Rightarrow> message_subtype \<times> address \<times> bytes \<times> bytes" where
  "ping server to_peer = (MessageChat, AddressText (to_peer @ bytes_of ''@'' @ server), bytes_of ''body'', bytes_of ''subject'')"

text \<open>The state of a test whose client is connected.\<close>

definition connected_test :: "xmpp_test \<Rightarrow> bool" where
  "connected_test st \<longleftrightarrow> test_pc st = InLatencyTest \<and> server_up st \<and> latency_callback st \<and>
     mDelegate (mListener (test_client st)) \<and> mIsConnected (mListener (test_client st)) \<and>
     mClient (mListener (test_client st)) \<noteq> None \<and> SignalHandleMsg \<in> set (mSignals (test_client st))"

lemma round_result:
  assumes "connected_test st" and "run_latency st" and "test_peer st \<noteq> []"
    and "messages_sent st = int (length (latencies (measured st)))" and "messages_sent st < sint (latency_limit st)"
  shows "\<exists>st'. test_run debug (ping_round x) st = Done st' \<and> connected_test st' \<and>
    messages_sent st' = messages_sent st + 1 \<and> latencies (measured st') = latencies (measured st) @ [round_time x] \<and>
    latency_reports st' = latency_reports st \<and>
    mServer (mListener (test_client st')) = mServer (mListener (test_client st)) \<and>
    stanzas (test_client st') = stanzas (test_client st) @ [ping (mServer (mListener (test_client st))) (test_peer st)]"
proof -
  obtain d a m where x: "x = (d, a, m)" by (cases x)
  obtain h where h: "mClient (mListener (test_client st)) = Some h" using assms(1) by (auto simp: connected_test_def)
  have log: "concat (map stanza_of (glog (gloox_state (test_client st)))) = stanzas (test_client st)" by (simp add: stanzas_def)
  show ?thesis
    using assms h
    by (simp add: test_run_def x ping_round_def test_turn_def connected_test_def start_timer_def test_send_def sendMessage_result
        test_callback_def Listener_handleMessage_def to_delegate_def Client_handleMessage_def emit_def push_event_def
        message_returned_def ping_returned_def round_time_def ping_def stanzas_def stanza_of_def Let_def split: option.splits)
qed

lemma deliver_all_append:
  "deliver_all handle (cs @ ds) s = obind (deliver_all handle cs s) (deliver_all handle ds)"
proof (induction cs arbitrary: s)
  case (Cons c cs)
  then show ?case by (cases "handle c s") simp_all
qed simp

lemma rounds_result:
  assumes "connected_test st" and "run_latency st" and "test_peer st \<noteq> []"
    and "messages_sent st = int (length (latencies (measured st)))"
    and "messages_sent st + int (length rounds) \<le> sint (latency_limit st)"
  shows "\<exists>st'. test_run debug (concat (map ping_round rounds)) st = Done st' \<and> connected_test st' \<and>
    messages_sent st' = messages_sent st + int (length rounds) \<and>
    latencies (measured st') = latencies (measured st) @ map round_time rounds \<and> latency_reports st' = latency_reports st \<and>
    stanzas (test_client st') = stanzas (test_client st) @
      replicate (length rounds) (ping (mServer (mListener (test_client st))) (test_peer st))"
  using assms
proof (induction rounds arbitrary: st)
  case (Cons x rounds)
  obtain st1 where 1: "test_run debug (ping_round x) st = Done st1" "connected_test st1"
    "messages_sent st1 = messages_sent st + 1" "latencies (measured st1) = latencies (measured st) @ [round_time x]"
    "latency_reports st1 = latency_reports st" "mServer (mListener (test_client st1)) = mServer (mListener (test_client st))"
    "stanzas (test_client st1) = stanzas (test_client st) @ [ping (mServer (mListener (test_client st))) (test_peer st)]"
    using round_result [OF Cons.prems(1-4), of debug x] Cons.prems(5) by auto
  note same = keeps_options [OF 1(1)]
  obtain st2 where 2: "test_run debug (concat (map ping_round rounds)) st1 = Done st2" "connected_test st2"
    "messages_sent st2 = messages_sent st1 + int (length rounds)"
    "latencies (measured st2) = latencies (measured st1) @ map round_time rounds" "latency_reports st2 = latency_reports st1"
    "stanzas (test_client st2) = stanzas (test_client st1) @
      replicate (length rounds) (ping (mServer (mListener (test_client st1))) (test_peer st1))"
    using Cons.IH [of st1] Cons.prems 1 same by auto
  have "test_run debug (ping_round x @ concat (map ping_round rounds)) st = Done st2"
    using 1(1) 2(1) by (simp add: test_run_def deliver_all_append)
  then show ?case using 1 2 same by simp
qed (simp add: test_run_def)

text \<open>The state \<^verbatim>\<open>main\<close> starts from, when the user name is a qualified one.\<close>

lemma XmppPerformanceTest_starts:
  assumes "XmppPerformanceTest_start debug True time argv = Started st" and "mClient (mListener (test_client st)) \<noteq> None"
  shows "test_pc st = InLatencyTest \<and> server_up st \<and> latency_callback st \<and> messages_sent st = 0 \<and>
    latencies (measured st) = [] \<and> latency_reports st = [] \<and> mDelegate (mListener (test_client st)) \<and>
    mRegistration (mListener (test_client st)) = None \<and> stanzas (test_client st) = [] \<and>
    \<not> mIsConnected (mListener (test_client st)) \<and>
    {SignalConnect, SignalHandleMsg} \<subseteq> set (mSignals (test_client st))"
  using assms
  by (auto simp: XmppPerformanceTest_start_def usage_def lbind_eq_Started Let_def Client_connect_def connect_store_def
      connect_spawn_def connect_begin_def Client_clear_queues_def Listener_setup_def new_Client_def new_Listener_def
      setSignal_def set_listener_def gnew_def gcalls_def stanzas_def stanza_of_def no_gloox_def split: if_splits)

lemma connect_test:
  assumes "test_pc st = InLatencyTest" and "server_up st" and "latency_callback st" and "mDelegate (mListener (test_client st))"
    and "mRegistration (mListener (test_client st)) = None" and "mClient (mListener (test_client st)) \<noteq> None"
    and "{SignalConnect, SignalHandleMsg} \<subseteq> set (mSignals (test_client st))"
  shows "\<exists>st'. test_run debug [TestCallback OnConnect] st = Done st' \<and> connected_test st' \<and>
    messages_sent st' = messages_sent st \<and> measured st' = measured st \<and> latency_reports st' = latency_reports st \<and>
    stanzas (test_client st') = stanzas (test_client st) \<and>
    mServer (mListener (test_client st')) = mServer (mListener (test_client st))"
  using assms
  by (simp add: test_run_def test_callback_def Listener_onConnect_def to_delegate_def Client_onConnect_def emit_def
      push_state_def set_listener_def connected_test_def stanzas_def Let_def)

text \<open>The limit is reached, every message is back, and the next turn reports the times.\<close>

lemma report_turn:
  assumes "connected_test st" and "run_latency st" and "sint (latency_limit st) \<le> messages_sent st"
    and "latencies (measured st) \<noteq> []" and "latency_reports st = []"
  shows "\<exists>st'. test_run debug [TestTurn] st = Done st' \<and> latency_reports st' = [latency_report (latencies (measured st))] \<and>
    latencies (measured st') = latencies (measured st) \<and> test_pc st' = InBandwidthTest \<and> test_client st' = test_client st"
  using assms
  by (simp add: test_run_def test_turn_def connected_test_def latency_messaging_results_result begin_bandwidth_def)

lemma latency_test_reports:
  assumes "XmppPerformanceTest_start debug True time argv = Started st" and "mClient (mListener (test_client st)) \<noteq> None"
    and "run_latency st" and "test_peer st \<noteq> []" and "rounds \<noteq> []" and "sint (latency_limit st) = int (length rounds)"
  shows "\<exists>st'. test_run debug (TestCallback OnConnect # concat (map ping_round rounds) @ [TestTurn]) st = Done st' \<and>
    latencies (measured st') = map round_time rounds \<and>
    latency_reports st' = [latency_report (map round_time rounds)] \<and> test_pc st' = InBandwidthTest \<and>
    stanzas (test_client st') = replicate (length rounds) (ping (mServer (mListener (test_client st))) (test_peer st))"
proof -
  note s = XmppPerformanceTest_starts [OF assms(1,2)]
  obtain st1 where 1: "test_run debug [TestCallback OnConnect] st = Done st1" "connected_test st1" "messages_sent st1 = 0"
    "measured st1 = measured st" "latency_reports st1 = []" "stanzas (test_client st1) = []"
    "mServer (mListener (test_client st1)) = mServer (mListener (test_client st))"
    using connect_test [of st debug] s assms(2) by auto
  note same1 = keeps_options [OF 1(1)]
  obtain st2 where 2: "test_run debug (concat (map ping_round rounds)) st1 = Done st2" "connected_test st2"
    "messages_sent st2 = int (length rounds)" "latencies (measured st2) = map round_time rounds" "latency_reports st2 = []"
    "stanzas (test_client st2) = replicate (length rounds) (ping (mServer (mListener (test_client st))) (test_peer st))"
    using rounds_result [OF 1(2), of rounds debug] 1 same1 s assms(3,4,6) by auto
  note same2 = keeps_options [OF 2(1)]
  obtain st3 where 3: "test_run debug [TestTurn] st2 = Done st3"
    "latency_reports st3 = [latency_report (latencies (measured st2))]"
    "latencies (measured st3) = latencies (measured st2)" "test_pc st3 = InBandwidthTest" "test_client st3 = test_client st2"
    using report_turn [OF 2(2), of debug] 2 same1 same2 assms(3,5,6) by auto
  have "test_run debug ([TestCallback OnConnect] @ concat (map ping_round rounds) @ [TestTurn]) st = Done st3"
    using 1(1) 2(1) 3(1) by (simp add: test_run_def deliver_all_append del: append_Cons append.simps deliver_all.simps)
  then show ?thesis using 2 3 by simp
qed

end
