(* ===== verification/Docent.thy ===== *)
theory Docent
  imports PluginInterface ControllerMock XmppPrograms
begin

text \<open>
  The docent's application (\<^verbatim>\<open>product/xcode/EscDocent/EscDocent\<close>): \<^verbatim>\<open>GameModel.mm\<close>, which keeps the state of the
  games and polls the plugin, and the messages that \<^verbatim>\<open>GameDetailViewController.mm\<close> and
  \<^verbatim>\<open>GameViewController.mm\<close> send.  The views themselves are not modelled.  A string is the list of its ASCII
  characters; an exception of Foundation, which nothing catches, ends the application: \<open>Faulted Terminated\<close>.
\<close>

section \<open>Strings\<close>

definition hasPrefix :: "bytes \<Rightarrow> bytes \<Rightarrow> bool" where
  "hasPrefix pat s = (take (length pat) s = pat)"

text \<open>\<^verbatim>\<open>stringByReplacingOccurrencesOfString:pat withString:""\<close>\<close>

function remove_text :: "bytes \<Rightarrow> bytes \<Rightarrow> bytes" where
  "remove_text pat s =
     (case s of
        [] \<Rightarrow> []
      | c # rest \<Rightarrow>
          if pat \<noteq> [] \<and> hasPrefix pat s then remove_text pat (drop (length pat) s) else c # remove_text pat rest)"
  by pat_completeness auto
termination by (relation "measure (length \<circ> snd)") auto

declare remove_text.simps [simp del]

text \<open>\<^verbatim>\<open>componentsSeparatedByString:\<close> for one character; there is always a component.\<close>

fun split_on :: "byte \<Rightarrow> bytes \<Rightarrow> bytes list" where
  "split_on c [] = [[]]"
| "split_on c (x # xs) =
     (if x = c then [] # split_on c xs
      else case split_on c xs of y # ys \<Rightarrow> (x # y) # ys | [] \<Rightarrow> [[x]])"

section \<open>State\<close>

datatype notification =
    GameListChanged | GameEndPosted | AdvancedSettingsPosted | GameLoadedPosted | GamePreviouslyLoadedPosted

text \<open>
  \<open>saved\<close>: the titles, the list and its date in \<^verbatim>\<open>NSUserDefaults\<close>; \<open>posted\<close>: the notifications, which the views
  observe; \<open>init_pending\<close>: the calls of \<^verbatim>\<open>sendInitMessage\<close> the run loop will make; a string that may be nil is
  an \<open>option\<close>.
\<close>

record docent =
  docent_isConnected :: bool
  isGameStarted :: bool
  gameIDToBeLoaded :: "bytes option"
  gamePaused :: bool
  isGameLoaded :: bool
  gameList :: "bytes list"
  gameTitle :: "bytes list"
  gameListDateLastUpdated :: "bytes option"
  advancedParam1 :: "bytes option"
  advancedParam2 :: "bytes option"
  advancedParam3 :: "bytes option"
  isInitMessageSentToServer :: bool
  isCheckGameRunningMessageSent :: bool
  docent_plugin :: plugin
  saved :: "bytes list \<times> bytes list \<times> bytes option"
  posted :: "notification list"
  init_pending :: nat

text \<open>
  What the operating system and the other threads contribute: \<open>env_meanwhile\<close> and \<open>env_deleting\<close> are as in
  \<open>stopInterface\<close>.
\<close>

record docent_env =
  env_debug :: bool
  env_alloc :: bool
  env_thread :: bool
  env_meanwhile :: "xmpp_client \<Rightarrow> xmpp_client outcome"
  env_join :: bool
  env_deleting :: "xmpp_client \<Rightarrow> xmpp_client outcome"

definition serverAddress :: bytes where "serverAddress = bytes_of ''esc-game-server.local''"

definition kGameList :: bytes where "kGameList = bytes_of ''games:''"
definition kGameEnd :: bytes where "kGameEnd = bytes_of ''gameEnd''"
definition kGameLoaded :: bytes where "kGameLoaded = bytes_of ''gameLoaded''"
definition kGamePreviouslyLoadedKey :: bytes where "kGamePreviouslyLoadedKey = bytes_of ''gamePreviouslyLoaded:''"
definition kGameAdvancedSettings :: bytes where "kGameAdvancedSettings = bytes_of ''applyParams''"

definition docent_post :: "notification \<Rightarrow> docent \<Rightarrow> docent" where
  "docent_post n st = st\<lparr>posted := posted st @ [n]\<rparr>"

section \<open>Starting, stopping and sending\<close>

definition docent_start :: "docent_env \<Rightarrow> docent \<Rightarrow> docent outcome" where
  "docent_start env st =
     obind (startDocentInterface (env_debug env) (env_alloc env) (env_thread env) (Some serverAddress) (docent_plugin st))
       (\<lambda>(_, p). Done (st\<lparr>docent_plugin := p\<rparr>))"

definition docent_stop :: "docent_env \<Rightarrow> docent \<Rightarrow> docent outcome" where
  "docent_stop env st =
     obind (stopInterface (env_meanwhile env) (env_join env) (env_deleting env) (docent_plugin st))
       (\<lambda>(_, p). Done (st\<lparr>docent_plugin := p\<rparr>))"

definition GameModel_init ::
    "docent_env \<Rightarrow> bytes list \<times> bytes list \<times> bytes option \<Rightarrow> plugin \<Rightarrow> docent outcome" where
  "GameModel_init env stored p =
     obind (docent_start env
       \<lparr>docent_isConnected = False, isGameStarted = False, gameIDToBeLoaded = None, gamePaused = False,
        isGameLoaded = False, gameList = [], gameTitle = [], gameListDateLastUpdated = None,
        advancedParam1 = None, advancedParam2 = None, advancedParam3 = None, isInitMessageSentToServer = False,
        isCheckGameRunningMessageSent = False, docent_plugin = p, saved = stored, posted = [], init_pending = 0\<rparr>)
     (\<lambda>st. case stored of (titleList, list, date) \<Rightarrow>
        Done (st\<lparr>gameTitle := titleList, gameList := list, gameListDateLastUpdated := date\<rparr>))"

text \<open>\<^verbatim>\<open>dispatchEvent(recipient, message)\<close>, and whether it gave 0.\<close>

definition docent_dispatch :: "bytes \<Rightarrow> bytes \<Rightarrow> docent \<Rightarrow> (bool \<times> docent) outcome" where
  "docent_dispatch recipient message st =
     obind (dispatchEvent (Some recipient) (Some message) (docent_plugin st))
       (\<lambda>(r, p). Done (r = 0, st\<lparr>docent_plugin := p\<rparr>))"

definition sendInitMessage :: "docent \<Rightarrow> docent outcome" where
  "sendInitMessage st = obind (docent_dispatch (bytes_of ''game-launcher'') (bytes_of ''init:'') st) (\<lambda>(_, st). Done st)"

text \<open>The run loop makes the call that \<^verbatim>\<open>checkConnection\<close> asked for a second before.\<close>

definition delayed_init :: "docent \<Rightarrow> docent outcome" where
  "delayed_init st =
     (if init_pending st = 0 then Done st else sendInitMessage (st\<lparr>init_pending := init_pending st - 1\<rparr>))"

definition checkIfGameRunning :: "docent \<Rightarrow> docent outcome" where
  "checkIfGameRunning st =
     obind (docent_dispatch (bytes_of ''game-engine'') (bytes_of ''checkIfLoaded'') st)
       (\<lambda>(_, st). Done (st\<lparr>isCheckGameRunningMessageSent := True\<rparr>))"

definition reconnectToServer :: "docent_env \<Rightarrow> docent \<Rightarrow> docent outcome" where
  "reconnectToServer env st = obind (docent_stop env st) (docent_start env)"

definition appWillResignActive :: "docent_env \<Rightarrow> docent \<Rightarrow> docent outcome" where
  "appWillResignActive env st =
     obind (docent_stop env st) (\<lambda>st. Done (st\<lparr>isInitMessageSentToServer := False\<rparr>))"

section \<open>Events\<close>

text \<open>
  The loop over \<^verbatim>\<open>key=value\<close> components that the three kinds of messages have: \<^verbatim>\<open>objectAtIndex:1\<close> raises an
  exception for a component without a separator.
\<close>

fun each_pair :: "(bytes \<Rightarrow> bytes \<Rightarrow> 's \<Rightarrow> 's) \<Rightarrow> bytes list \<Rightarrow> 's \<Rightarrow> 's outcome" where
  "each_pair f [] s = Done s"
| "each_pair f (pair # pairs) s =
     (case split_on (byte_of (CHR ''='')) pair of
        key # value # _ \<Rightarrow> each_pair f pairs (f key value s)
      | _ \<Rightarrow> Faulted Terminated)"

definition each_component :: "bytes \<Rightarrow> (bytes \<Rightarrow> bytes \<Rightarrow> 's \<Rightarrow> 's) \<Rightarrow> bytes \<Rightarrow> 's \<Rightarrow> 's outcome" where
  "each_component key f eventMessage s =
     (let newMessage = remove_text key eventMessage in
      if newMessage \<noteq> [] then each_pair f (split_on (byte_of (CHR '','')) newMessage) s else Done s)"

definition add_game :: "bytes \<Rightarrow> bytes \<Rightarrow> docent \<Rightarrow> docent" where
  "add_game key value st = st\<lparr>gameTitle := gameTitle st @ [key], gameList := gameList st @ [value]\<rparr>"

definition loaded_game :: "bytes \<Rightarrow> bytes \<Rightarrow> docent \<Rightarrow> docent" where
  "loaded_game key value st =
     (if has_text (bytes_of ''gameId'') key then st\<lparr>gameIDToBeLoaded := Some value\<rparr>
      else if has_text (bytes_of ''gameStarted'') key then
        if value = bytes_of ''True'' then st\<lparr>isGameStarted := True\<rparr>
        else if value = bytes_of ''False'' then st\<lparr>isGameStarted := False\<rparr> else st
      else st)"

definition advanced_param :: "bytes \<Rightarrow> bytes \<Rightarrow> docent \<Rightarrow> docent" where
  "advanced_param key value st =
     (if has_text (bytes_of ''param1'') key then st\<lparr>advancedParam1 := Some value\<rparr>
      else if has_text (bytes_of ''param2'') key then st\<lparr>advancedParam2 := Some value\<rparr>
      else if has_text (bytes_of ''param3'') key then st\<lparr>advancedParam3 := Some value\<rparr>
      else st)"

definition clearAdvancedParameters :: "docent \<Rightarrow> docent" where
  "clearAdvancedParameters st = st\<lparr>advancedParam1 := Some [], advancedParam2 := Some [], advancedParam3 := Some []\<rparr>"

text \<open>\<open>time_now\<close>: the time, formatted.\<close>

definition on_game_list :: "bytes \<Rightarrow> bytes \<Rightarrow> docent \<Rightarrow> docent outcome" where
  "on_game_list time_now eventMessage st =
     obind (each_component kGameList add_game eventMessage (st\<lparr>gameTitle := [], gameList := []\<rparr>)) (\<lambda>st.
       let st = st\<lparr>gameListDateLastUpdated := Some time_now\<rparr>;
           st = st\<lparr>saved := (gameTitle st, gameList st, gameListDateLastUpdated st)\<rparr>
       in Done (docent_post GameListChanged st))"

definition on_game_end :: "docent \<Rightarrow> docent" where
  "on_game_end st =
     docent_post AdvancedSettingsPosted (docent_post GameEndPosted
       (clearAdvancedParameters (st\<lparr>isGameStarted := False, isGameLoaded := False\<rparr>)))"

definition on_previously_loaded :: "bytes \<Rightarrow> docent \<Rightarrow> docent outcome" where
  "on_previously_loaded eventMessage st =
     obind (each_component kGamePreviouslyLoadedKey loaded_game eventMessage (st\<lparr>isGameLoaded := True\<rparr>))
       (\<lambda>st. Done (docent_post GamePreviouslyLoadedPosted st))"

definition on_advanced_settings :: "bytes \<Rightarrow> docent \<Rightarrow> docent outcome" where
  "on_advanced_settings eventMessage st =
     obind (each_component kGameAdvancedSettings advanced_param eventMessage st)
       (\<lambda>st. Done (docent_post AdvancedSettingsPosted st))"

definition docent_event :: "bytes \<Rightarrow> bytes \<Rightarrow> docent \<Rightarrow> docent outcome" where
  "docent_event time_now eventMessage st =
     obind (if hasPrefix kGameList eventMessage then on_game_list time_now eventMessage st else Done st) (\<lambda>st.
     let st = (if hasPrefix kGameEnd eventMessage then on_game_end st else st);
         st = (if hasPrefix kGameLoaded eventMessage
               then docent_post GameLoadedPosted (st\<lparr>isGameLoaded := True\<rparr>) else st)
     in
     obind (if hasPrefix kGamePreviouslyLoadedKey eventMessage then on_previously_loaded eventMessage st else Done st)
       (\<lambda>st. if hasPrefix kGameAdvancedSettings eventMessage then on_advanced_settings eventMessage st else Done st))"

text \<open>One turn of \<^verbatim>\<open>while (hasMoreEvents())\<close>: the two arrays are zero, and the second is read up to a NUL.\<close>

definition docent_turn :: "bytes \<Rightarrow> docent \<Rightarrow> docent outcome" where
  "docent_turn time_now st =
     obind (getNextEvent (Some (replicate 32 0)) 32 (Some (replicate 2048 0)) 2048 (docent_plugin st))
       (\<lambda>(r, username, message, p).
          let st = st\<lparr>docent_plugin := p\<rparr> in
          case message of
            Some msg \<Rightarrow> if r = 0 then obind (array_text msg) (\<lambda>eventMessage. docent_event time_now eventMessage st) else Done st
          | None \<Rightarrow> Done st)"

text \<open>
  The loop: for each turn the time, and the events that the listening thread queues before the next test of the
  condition.  When the list ends and events are left, the loop goes on for ever.
\<close>

definition queue_events :: "event list \<Rightarrow> plugin \<Rightarrow> plugin" where
  "queue_events es p = (case p of None \<Rightarrow> None | Some s \<Rightarrow> Some (s\<lparr>mEventQueue := mEventQueue s @ es\<rparr>))"

fun docent_poll :: "(bytes \<times> event list) list \<Rightarrow> docent \<Rightarrow> docent outcome" where
  "docent_poll [] st = (if hasMoreEvents (docent_plugin st) then Blocked else Done st)"
| "docent_poll ((time_now, incoming) # turns) st =
     (if hasMoreEvents (docent_plugin st)
      then obind (docent_turn time_now st) (\<lambda>st.
        docent_poll turns (st\<lparr>docent_plugin := queue_events incoming (docent_plugin st)\<rparr>))
      else Done st)"

definition checkConnection :: "docent_env \<Rightarrow> (bytes \<times> event list) list \<Rightarrow> docent \<Rightarrow> docent outcome" where
  "checkConnection env turns st =
     (if plugin_isConnected (docent_plugin st) then
        let st = st\<lparr>docent_isConnected := True\<rparr> in
        obind (if \<not> isCheckGameRunningMessageSent st then checkIfGameRunning st else Done st) (\<lambda>st.
          let st = (if \<not> isInitMessageSentToServer st
                    then st\<lparr>isInitMessageSentToServer := True, init_pending := init_pending st + 1\<rparr> else st)
          in docent_poll turns st)
      else reconnectToServer env (st\<lparr>docent_isConnected := False, isInitMessageSentToServer := False\<rparr>))"

section \<open>The messages of the views\<close>

text \<open>
  The properties of a \<^verbatim>\<open>GameDetailViewController\<close> its messages are made of.  \<open>selectedRound\<close> and
  \<open>selectedDifficulty\<close> are the values of their enumerations, from 0.
\<close>

record detail_view =
  gameID :: bytes
  selectedRound :: nat
  selectedDifficulty :: nat
  modeOneSelected :: bytes
  modeTwoSelected :: bytes
  modeThreeSelected :: bytes
  parameterOne :: bytes
  parameterTwo :: bytes
  parameterThree :: bytes

definition game_command_message :: "bytes \<Rightarrow> bytes \<Rightarrow> bytes" where
  "game_command_message game option_text = bytes_of ''command:game='' @ game @ bytes_of '',option='' @ option_text"

definition sendLoadMessage :: "bytes \<Rightarrow> docent \<Rightarrow> docent outcome" where
  "sendLoadMessage game st =
     obind (docent_dispatch (bytes_of ''game-launcher'') (game_command_message game (bytes_of ''load'')) st) (\<lambda>(_, st). Done st)"

definition sendNextMessage :: "docent \<Rightarrow> docent outcome" where
  "sendNextMessage st = obind (docent_dispatch (bytes_of ''game-engine'') (bytes_of ''next:'') st) (\<lambda>(_, st). Done st)"

definition sendStartMessage :: "detail_view \<Rightarrow> docent \<Rightarrow> docent outcome" where
  "sendStartMessage v st =
     obind (docent_dispatch (bytes_of ''game-launcher'')
       (game_command_message (gameID v) (bytes_of ''start,round='' @ show_nat (selectedRound v) @
          bytes_of '',difficulty='' @ show_nat (selectedDifficulty v))) st)
       (\<lambda>(sent, st). Done (if sent then st\<lparr>isGameStarted := True\<rparr> else st))"

definition sendStopMessage :: "detail_view \<Rightarrow> docent \<Rightarrow> docent outcome" where
  "sendStopMessage v st =
     obind (docent_dispatch (bytes_of ''game-launcher'') (game_command_message (gameID v) (bytes_of ''stop'')) st)
       (\<lambda>(sent, st). Done (if sent then st\<lparr>isGameStarted := False, gamePaused := False\<rparr> else st))"

definition sendPauseMessage :: "detail_view \<Rightarrow> docent \<Rightarrow> docent outcome" where
  "sendPauseMessage v st =
     obind (docent_dispatch (bytes_of ''game-launcher'') (game_command_message (gameID v) (bytes_of ''pause'')) st)
       (\<lambda>(sent, st). Done (if sent then st\<lparr>gamePaused := \<not> gamePaused st\<rparr> else st))"

definition sendQuitMessage :: "detail_view \<Rightarrow> docent \<Rightarrow> docent outcome" where
  "sendQuitMessage v st =
     obind (docent_dispatch (bytes_of ''game-launcher'') (game_command_message (gameID v) (bytes_of ''quit'')) st)
       (\<lambda>(sent, st). Done (if sent then st\<lparr>isGameStarted := False, gamePaused := False, gameIDToBeLoaded := None\<rparr> else st))"

definition apply_message :: "detail_view \<Rightarrow> bytes" where
  "apply_message v =
     bytes_of ''applyParams:mode1='' @ modeOneSelected v @ bytes_of '',mode2='' @ modeTwoSelected v @
     bytes_of '',mode3='' @ modeThreeSelected v @ bytes_of '',param1='' @ parameterOne v @
     bytes_of '',param2='' @ parameterTwo v @ bytes_of '',param3='' @ parameterThree v"

definition sendApplyMessage :: "detail_view \<Rightarrow> docent \<Rightarrow> docent outcome" where
  "sendApplyMessage v st =
     obind (docent_dispatch (bytes_of ''game-engine'') (apply_message v) st) (\<lambda>(_, st). Done st)"

text \<open>The buttons of the alerts: quitting a game, and loading the selected one.\<close>

definition quit_confirmed :: "detail_view \<Rightarrow> docent \<Rightarrow> docent outcome" where
  "quit_confirmed v st = sendQuitMessage v (st\<lparr>isGameStarted := False, gameIDToBeLoaded := None\<rparr>)"

definition load_confirmed :: "bytes \<Rightarrow> docent \<Rightarrow> docent outcome" where
  "load_confirmed game st =
     obind (sendLoadMessage game (st\<lparr>isGameStarted := False\<rparr>)) (\<lambda>st. Done (st\<lparr>gameIDToBeLoaded := Some game\<rparr>))"

end
