(* ===== verification/DocentSpec.thy ===== *)
theory DocentSpec
  imports Docent XmppProgramsSpec
begin

text \<open>
  The docent reads back the lists and parameters it is sent, keeps its titles and identifiers in step, stops at a
  component that is no pair, and starts one more connection for every second without one.
\<close>

section \<open>Strings\<close>

abbreviation comma :: byte where "comma \<equiv> byte_of (CHR '','')"
abbreviation equals :: byte where "equals \<equiv> byte_of (CHR ''='')"

lemma hasPrefix_append [simp]: "hasPrefix pat (pat @ s)"
  by (simp add: hasPrefix_def)

lemma split_on_none: "c \<notin> set s \<Longrightarrow> split_on c s = [s]"
  by (induction s) auto

lemma split_on_append: "c \<notin> set s \<Longrightarrow> split_on c (s @ c # rest) = s # split_on c rest"
  by (induction s) auto

lemma split_on_pair:
  "split_on c s = (if c \<in> set s then takeWhile (\<lambda>b. b \<noteq> c) s # split_on c (tl (dropWhile (\<lambda>b. b \<noteq> c) s)) else [s])"
  by (induction s) auto

lemma split_on_neq_Nil [simp]: "split_on c s \<noteq> []"
  by (subst split_on_pair) simp

fun join :: "byte \<Rightarrow> bytes list \<Rightarrow> bytes" where
  "join c [] = []"
| "join c [x] = x"
| "join c (x # y # ys) = x @ c # join c (y # ys)"

lemma split_join: "xs \<noteq> [] \<Longrightarrow> \<forall>x\<in>set xs. c \<notin> set x \<Longrightarrow> split_on c (join c xs) = xs"
  by (induction c xs rule: join.induct) (auto simp: split_on_none split_on_append)

lemma remove_text_prefix:
  assumes "pat \<noteq> []"
  shows "remove_text pat (pat @ s) = remove_text pat s"
proof -
  obtain c rest where c: "pat @ s = c # rest" using assms by (cases pat) auto
  have "hasPrefix pat (c # rest)" "drop (length pat) (c # rest) = s" unfolding c [symmetric] by simp_all
  then show ?thesis using assms by (subst remove_text.simps) (simp add: c)
qed

lemma remove_text_absent:
  assumes "\<not> has_text pat s"
  shows "remove_text pat s = s"
  using assms by (induction s) (simp_all add: remove_text.simps [of pat "_ # _"] remove_text.simps [of pat "[]"] hasPrefix_def)

section \<open>Pairs\<close>

text \<open>What a pair is read as: up to the first separator, and from there to the second.\<close>

definition pair_key :: "bytes \<Rightarrow> bytes" where
  "pair_key p = takeWhile (\<lambda>b. b \<noteq> equals) p"

definition pair_value :: "bytes \<Rightarrow> bytes" where
  "pair_value p = hd (split_on equals (tl (dropWhile (\<lambda>b. b \<noteq> equals) p)))"

lemma each_pair_result:
  "each_pair f ps s =
     (if \<forall>p\<in>set ps. equals \<in> set p then Done (fold (\<lambda>p. f (pair_key p) (pair_value p)) ps s) else Faulted Terminated)"
proof (induction ps arbitrary: s)
  case (Cons p ps)
  show ?case
  proof (cases "equals \<in> set p")
    case True
    obtain v vs where v: "split_on equals (tl (dropWhile (\<lambda>b. b \<noteq> equals) p)) = v # vs"
      by (cases "split_on equals (tl (dropWhile (\<lambda>b. b \<noteq> equals) p))") auto
    have "split_on equals p = pair_key p # pair_value p # vs"
      using True v by (subst split_on_pair) (simp add: pair_key_def pair_value_def)
    then show ?thesis using Cons.IH True by simp
  next
    case False
    then have "split_on equals p = [p]" by (rule split_on_none)
    then show ?thesis using False by simp
  qed
qed simp

definition the_pair :: "bytes \<times> bytes \<Rightarrow> bytes" where
  "the_pair x = fst x @ equals # snd x"

definition plain :: "bytes \<Rightarrow> bool" where
  "plain s \<longleftrightarrow> comma \<notin> set s \<and> equals \<notin> set s"

lemma comma_equals [simp]: "comma \<noteq> equals" "equals \<noteq> comma"
  by (simp_all add: byte_of_def)

lemma while_at:
  "c \<notin> set s \<Longrightarrow> takeWhile (\<lambda>b. b \<noteq> c) (s @ c # r) = s \<and> dropWhile (\<lambda>b. b \<noteq> c) (s @ c # r) = c # r"
  by (induction s) auto

lemma pair_key_value [simp]:
  assumes "plain (fst x)" and "plain (snd x)"
  shows "pair_key (the_pair x) = fst x" and "pair_value (the_pair x) = snd x" and "equals \<in> set (the_pair x)"
    and "comma \<notin> set (the_pair x)"
proof -
  have w: "takeWhile (\<lambda>b. b \<noteq> equals) (fst x @ equals # snd x) = fst x"
    "dropWhile (\<lambda>b. b \<noteq> equals) (fst x @ equals # snd x) = equals # snd x"
    using assms(1) while_at [of equals "fst x"] by (simp_all add: plain_def)
  show "pair_key (the_pair x) = fst x" using w by (simp add: pair_key_def the_pair_def)
  show "pair_value (the_pair x) = snd x"
    using w assms(2) by (simp add: pair_value_def the_pair_def split_on_none plain_def)
  show "equals \<in> set (the_pair x)" "comma \<notin> set (the_pair x)" using assms by (simp_all add: the_pair_def plain_def)
qed

definition pairs_text :: "(bytes \<times> bytes) list \<Rightarrow> bytes" where
  "pairs_text xs = join comma (map the_pair xs)"

lemma join_neq_Nil: "xs \<noteq> [] \<Longrightarrow> \<forall>x\<in>set xs. x \<noteq> [] \<Longrightarrow> join c xs \<noteq> []"
  by (induction c xs rule: join.induct) auto

text \<open>A message of plain pairs behind its key is read as these pairs.\<close>

lemma each_component_pairs:
  assumes "key \<noteq> []" and "\<forall>x\<in>set xs. plain (fst x) \<and> plain (snd x)" and "\<not> has_text key (pairs_text xs)"
  shows "each_component key f (key @ pairs_text xs) s = Done (fold (\<lambda>x. f (fst x) (snd x)) xs s)"
proof (cases xs)
  case Nil
  then show ?thesis
    using remove_text_prefix [OF assms(1), of "[]"]
    by (simp add: each_component_def pairs_text_def remove_text.simps [of key "[]"])
next
  case (Cons y ys)
  have m: "remove_text key (key @ pairs_text xs) = pairs_text xs"
    using remove_text_prefix [OF assms(1)] remove_text_absent [OF assms(3)] by simp
  have "pairs_text xs \<noteq> []" using Cons unfolding pairs_text_def by (intro join_neq_Nil) (auto simp: the_pair_def)
  moreover have "split_on comma (pairs_text xs) = map the_pair xs"
    unfolding pairs_text_def using Cons assms(2) by (intro split_join) auto
  moreover have "fold (\<lambda>p. f (pair_key p) (pair_value p)) (map the_pair xs) s = fold (\<lambda>x. f (fst x) (snd x)) xs s"
    using assms(2) by (induction xs arbitrary: s) auto
  ultimately show ?thesis using assms(2) by (auto simp: each_component_def m each_pair_result Let_def)
qed

section \<open>The list of games\<close>

lemma fold_add_game:
  "fold (\<lambda>x. add_game (fst x) (snd x)) xs st =
     st\<lparr>gameTitle := gameTitle st @ map fst xs, gameList := gameList st @ map snd xs\<rparr>"
  by (induction xs arbitrary: st) (simp_all add: add_game_def)

lemma other_prefixes:
  "\<not> hasPrefix kGameEnd (kGameList @ s)" "\<not> hasPrefix kGameLoaded (kGameList @ s)"
  "\<not> hasPrefix kGamePreviouslyLoadedKey (kGameList @ s)" "\<not> hasPrefix kGameAdvancedSettings (kGameList @ s)"
  "\<not> hasPrefix kGameList (kGameAdvancedSettings @ s)" "\<not> hasPrefix kGameEnd (kGameAdvancedSettings @ s)"
  "\<not> hasPrefix kGameLoaded (kGameAdvancedSettings @ s)" "\<not> hasPrefix kGamePreviouslyLoadedKey (kGameAdvancedSettings @ s)"
  by (simp_all add: hasPrefix_def kGameEnd_def kGameList_def kGameLoaded_def kGamePreviouslyLoadedKey_def
      kGameAdvancedSettings_def byte_of_def)

lemma docent_event_games:
  assumes "\<forall>x\<in>set games. plain (fst x) \<and> plain (snd x)" and "\<not> has_text kGameList (pairs_text games)"
  shows "docent_event t (kGameList @ pairs_text games) st =
    Done (st\<lparr>gameTitle := map fst games, gameList := map snd games, gameListDateLastUpdated := Some t,
      saved := (map fst games, map snd games, Some t), posted := posted st @ [GameListChanged]\<rparr>)"
proof -
  have key: "kGameList \<noteq> []" by (simp add: kGameList_def)
  show ?thesis
    by (simp add: docent_event_def on_game_list_def each_component_pairs [OF key assms] fold_add_game docent_post_def
        other_prefixes Let_def)
qed

section \<open>Advanced settings\<close>

definition settings_pairs :: "detail_view \<Rightarrow> (bytes \<times> bytes) list" where
  "settings_pairs v =
     [(bytes_of '':mode1'', modeOneSelected v), (bytes_of ''mode2'', modeTwoSelected v), (bytes_of ''mode3'', modeThreeSelected v),
      (bytes_of ''param1'', parameterOne v), (bytes_of ''param2'', parameterTwo v), (bytes_of ''param3'', parameterThree v)]"

lemma apply_message_pairs: "apply_message v = kGameAdvancedSettings @ pairs_text (settings_pairs v)"
  by (simp add: apply_message_def kGameAdvancedSettings_def pairs_text_def settings_pairs_def the_pair_def)

lemma docent_event_settings:
  assumes "\<forall>x\<in>set (settings_pairs v). plain (snd x)" and "\<not> has_text kGameAdvancedSettings (pairs_text (settings_pairs v))"
  shows "docent_event t (apply_message v) st =
    Done (st\<lparr>advancedParam1 := Some (parameterOne v), advancedParam2 := Some (parameterTwo v),
      advancedParam3 := Some (parameterThree v), posted := posted st @ [AdvancedSettingsPosted]\<rparr>)"
proof -
  have key: "kGameAdvancedSettings \<noteq> []" by (simp add: kGameAdvancedSettings_def)
  have plain: "\<forall>x\<in>set (settings_pairs v). plain (fst x) \<and> plain (snd x)"
    using assms(1) by (simp add: settings_pairs_def plain_def byte_of_def)
  have f: "fold (\<lambda>x. advanced_param (fst x) (snd x)) (settings_pairs v) st =
    st\<lparr>advancedParam1 := Some (parameterOne v), advancedParam2 := Some (parameterTwo v), advancedParam3 := Some (parameterThree v)\<rparr>"
    by (simp add: settings_pairs_def advanced_param_def byte_of_def)
  show ?thesis
    by (simp add: apply_message_pairs docent_event_def on_advanced_settings_def each_component_pairs [OF key plain assms(2)]
        f docent_post_def other_prefixes Let_def)
qed

section \<open>Components that are no pairs\<close>

definition pairs_only :: "bytes \<Rightarrow> bytes \<Rightarrow> bool" where
  "pairs_only key m \<longleftrightarrow> (let r = remove_text key m in r = [] \<or> list_all (\<lambda>p. equals \<in> set p) (split_on comma r))"

lemma each_component_result:
  "each_component key f m s =
     (if pairs_only key m
      then Done (if remove_text key m = [] then s
        else fold (\<lambda>p. f (pair_key p) (pair_value p)) (split_on comma (remove_text key m)) s)
      else Faulted Terminated)"
  by (auto simp: each_component_def pairs_only_def each_pair_result Let_def list_all_iff)

text \<open>At most one of the three kinds of lists applies to a message, and only it can end the application.\<close>

definition readable_event :: "bytes \<Rightarrow> bool" where
  "readable_event m \<longleftrightarrow>
     (\<forall>key\<in>{kGameList, kGamePreviouslyLoadedKey, kGameAdvancedSettings}. hasPrefix key m \<longrightarrow> pairs_only key m)"

lemma docent_event_result:
  "if readable_event m then \<exists>st'. docent_event t m st = Done st' else docent_event t m st = Faulted Terminated"
  by (auto simp: docent_event_def on_game_list_def on_previously_loaded_def on_advanced_settings_def each_component_result
      readable_event_def Let_def)

section \<open>Titles and identifiers\<close>

text \<open>The rows of the table are counted by the identifiers and read from the titles.\<close>

definition docent_inv :: "docent \<Rightarrow> bool" where
  "docent_inv st \<longleftrightarrow> length (gameTitle st) = length (gameList st) \<and>
     saved st = (gameTitle st, gameList st, gameListDateLastUpdated st)"

lemma each_pair_inv:
  assumes "\<And>key value s. P s \<Longrightarrow> P (f key value s)" and "each_pair f ps s = Done s'" and "P s"
  shows "P s'"
proof -
  have "s' = fold (\<lambda>p. f (pair_key p) (pair_value p)) ps s"
    using assms(2) by (simp add: each_pair_result split: if_splits)
  moreover have "P (fold (\<lambda>p. f (pair_key p) (pair_value p)) ps s)"
    using assms(3) by (induction ps arbitrary: s) (auto intro: assms(1))
  ultimately show ?thesis by simp
qed

lemma each_component_inv:
  assumes "\<And>key value s. P s \<Longrightarrow> P (f key value s)" and "each_component key f m s = Done s'" and "P s"
  shows "P s'"
  using assms(2,3) each_pair_inv [of P f, OF assms(1)]
  by (auto simp: each_component_def Let_def split: if_splits)

lemma docent_inv_others [simp]:
  "docent_inv (docent_post n st) = docent_inv st" "docent_inv (clearAdvancedParameters st) = docent_inv st"
  "docent_inv (st\<lparr>isGameStarted := b\<rparr>) = docent_inv st" "docent_inv (st\<lparr>isGameLoaded := b\<rparr>) = docent_inv st"
  "docent_inv (st\<lparr>docent_plugin := p\<rparr>) = docent_inv st" "docent_inv (st\<lparr>docent_isConnected := b\<rparr>) = docent_inv st"
  "docent_inv (st\<lparr>isInitMessageSentToServer := b\<rparr>) = docent_inv st" "docent_inv (st\<lparr>init_pending := k\<rparr>) = docent_inv st"
  "docent_inv (st\<lparr>isCheckGameRunningMessageSent := b\<rparr>) = docent_inv st" "docent_inv (st\<lparr>gamePaused := b\<rparr>) = docent_inv st"
  "docent_inv (st\<lparr>gameIDToBeLoaded := g\<rparr>) = docent_inv st" "docent_inv (loaded_game key value st) = docent_inv st"
  "docent_inv (advanced_param key value st) = docent_inv st"
  by (simp_all add: docent_inv_def docent_post_def clearAdvancedParameters_def loaded_game_def advanced_param_def)

lemma on_game_list_inv:
  assumes "on_game_list t m st = Done st'"
  shows "docent_inv st'"
proof -
  obtain st1 where st1: "each_component kGameList add_game m (st\<lparr>gameTitle := [], gameList := []\<rparr>) = Done st1"
    "st' = docent_post GameListChanged (st1\<lparr>gameListDateLastUpdated := Some t, saved := (gameTitle st1, gameList st1, Some t)\<rparr>)"
    using assms by (auto simp: on_game_list_def obind_eq_Done Let_def)
  have "length (gameTitle st1) = length (gameList st1)"
    by (rule each_component_inv [OF _ st1(1), where P = "\<lambda>st. length (gameTitle st) = length (gameList st)"])
      (simp_all add: add_game_def)
  then show ?thesis by (simp add: st1(2)) (simp add: docent_inv_def)
qed

lemma docent_event_inv:
  assumes "docent_inv st" and "docent_event t m st = Done st'"
  shows "docent_inv st'"
proof -
  have loaded: "docent_inv s'" if "each_component k loaded_game m s = Done s'" "docent_inv s" for k s s'
    by (rule each_component_inv [where P = docent_inv, OF _ that]) simp
  have params: "docent_inv s'" if "each_component k advanced_param m s = Done s'" "docent_inv s" for k s s'
    by (rule each_component_inv [where P = docent_inv, OF _ that]) simp
  obtain st1 where st1: "(if hasPrefix kGameList m then on_game_list t m st else Done st) = Done st1"
    using assms(2) by (auto simp: docent_event_def obind_eq_Done)
  define st2 where "st2 = (if hasPrefix kGameEnd m then on_game_end st1 else st1)"
  define st3 where "st3 = (if hasPrefix kGameLoaded m then docent_post GameLoadedPosted (st2\<lparr>isGameLoaded := True\<rparr>) else st2)"
  have rest: "obind (if hasPrefix kGamePreviouslyLoadedKey m then on_previously_loaded m st3 else Done st3)
      (\<lambda>st. if hasPrefix kGameAdvancedSettings m then on_advanced_settings m st else Done st) = Done st'"
    using assms(2) by (simp only: docent_event_def st1 st2_def st3_def Let_def obind.simps)
  obtain st4 where st4: "(if hasPrefix kGamePreviouslyLoadedKey m then on_previously_loaded m st3 else Done st3) = Done st4"
    "(if hasPrefix kGameAdvancedSettings m then on_advanced_settings m st4 else Done st4) = Done st'"
    using rest by (simp only: obind_eq_Done) blast
  have "docent_inv st1" using st1 assms(1) by (auto dest: on_game_list_inv split: if_splits)
  then have "docent_inv st3" by (simp add: st2_def st3_def on_game_end_def)
  then have "docent_inv st4"
    using st4(1) loaded [of _ "st3\<lparr>isGameLoaded := True\<rparr>"] by (auto simp: on_previously_loaded_def obind_eq_Done split: if_splits)
  then show ?thesis using st4(2) by (auto simp: on_advanced_settings_def obind_eq_Done dest: params split: if_splits)
qed

lemma docent_dispatch_inv: "docent_dispatch r m st = Done (b, st') \<Longrightarrow> docent_inv st' = docent_inv st"
  by (auto simp: docent_dispatch_def obind_eq_Done)

lemma docent_poll_inv: "docent_inv st \<Longrightarrow> docent_poll turns st = Done st' \<Longrightarrow> docent_inv st'"
proof (induction turns st rule: docent_poll.induct)
  case (2 t incoming turns st)
  show ?case
  proof (cases "hasMoreEvents (docent_plugin st)")
    case True
    then obtain st1 where st1: "docent_turn t st = Done st1"
      "docent_poll turns (st1\<lparr>docent_plugin := queue_events incoming (docent_plugin st1)\<rparr>) = Done st'"
      using 2(3) by (auto simp: obind_eq_Done)
    have "docent_inv st1"
      using st1(1) 2(2)
      by (auto simp: docent_turn_def obind_eq_Done Let_def dest!: docent_event_inv [rotated] split: option.splits if_splits)
    then show ?thesis using 2(1) [OF True st1(1)] st1(2) by simp
  qed (use 2 in simp)
qed (auto split: if_splits)

inductive docent_step :: "docent_env \<Rightarrow> docent \<Rightarrow> docent \<Rightarrow> bool" for env :: docent_env where
  checks: "checkConnection env turns st = Done st' \<Longrightarrow> docent_step env st st'"
| resigns: "appWillResignActive env st = Done st' \<Longrightarrow> docent_step env st st'"
| inits: "delayed_init st = Done st' \<Longrightarrow> docent_step env st st'"
| loads: "load_confirmed game st = Done st' \<Longrightarrow> docent_step env st st'"
| starts: "sendStartMessage v st = Done st' \<Longrightarrow> docent_step env st st'"
| stops: "sendStopMessage v st = Done st' \<Longrightarrow> docent_step env st st'"
| pauses: "sendPauseMessage v st = Done st' \<Longrightarrow> docent_step env st st'"
| quits: "sendQuitMessage v st = Done st' \<Longrightarrow> docent_step env st st'"
| quits_asked: "quit_confirmed v st = Done st' \<Longrightarrow> docent_step env st st'"
| applies: "sendApplyMessage v st = Done st' \<Longrightarrow> docent_step env st st'"
| nexts: "sendNextMessage st = Done st' \<Longrightarrow> docent_step env st st'"
| plugin_runs: "docent_step env st (st\<lparr>docent_plugin := p\<rparr>)"

lemmas docent_sends = sendInitMessage_def checkIfGameRunning_def sendLoadMessage_def sendNextMessage_def
  sendStartMessage_def sendStopMessage_def sendPauseMessage_def sendQuitMessage_def sendApplyMessage_def

lemma docent_plugin_inv:
  "docent_start env st = Done st' \<Longrightarrow> docent_inv st' = docent_inv st"
  "docent_stop env st = Done st' \<Longrightarrow> docent_inv st' = docent_inv st"
  by (auto simp: docent_start_def docent_stop_def obind_eq_Done)

lemma docent_inv_step:
  assumes "docent_step env st st'" and "docent_inv st"
  shows "docent_inv st'"
  using assms
  by cases (auto simp: checkConnection_def reconnectToServer_def appWillResignActive_def delayed_init_def load_confirmed_def
      quit_confirmed_def docent_sends obind_eq_Done Let_def dest!: docent_dispatch_inv docent_plugin_inv
      dest: docent_poll_inv [rotated] split: if_splits)

lemma docent_inv_reached: "(docent_step env)\<^sup>*\<^sup>* st st' \<Longrightarrow> docent_inv st \<Longrightarrow> docent_inv st'"
  by (induction rule: rtranclp_induct) (auto intro: docent_inv_step)

lemma GameModel_init_inv:
  assumes "GameModel_init env (titles, games, date) p = Done st" and "length titles = length games"
  shows "docent_inv st"
  using assms by (auto simp: GameModel_init_def docent_start_def obind_eq_Done docent_inv_def)

section \<open>Polling\<close>

text \<open>An event whose text fits is handled; the next turn finds the rest of the queue.\<close>

lemma docent_turn_result:
  assumes "docent_plugin st = Some s" and "mEventQueue s = e # rest" and "length (c_str (event_message e)) < 2048"
  shows "docent_turn t st =
    docent_event t (c_str (event_message e)) (st\<lparr>docent_plugin := Some (s\<lparr>mEventQueue := rest\<rparr>)\<rparr>)"
proof -
  obtain u where u: "strncpy (replicate 32 0) (event_username e) 32 = Done u"
    using strncpy_array [of "replicate 32 0" 32 "event_username e"] by auto
  obtain m where m: "strncpy (replicate 2048 0) (event_message e) 2048 = Done m" "array_text m = Done (c_str (event_message e))"
    using strncpy_array [of "replicate 2048 0" 2048 "event_message e"] assms(3) by auto
  show ?thesis using assms(1,2) u m by (simp add: docent_turn_def getNextEvent_def)
qed

lemma docent_turn_too_long:
  assumes "docent_plugin st = Some s" and "mEventQueue s = e # rest" and "2048 \<le> length (c_str (event_message e))"
  shows "docent_turn t st = Faulted OutOfBounds"
proof -
  obtain u where u: "strncpy (replicate 32 0) (event_username e) 32 = Done u"
    using strncpy_array [of "replicate 32 0" 32 "event_username e"] by auto
  obtain m where m: "strncpy (replicate 2048 0) (event_message e) 2048 = Done m" "array_text m = Faulted OutOfBounds"
    using strncpy_array [of "replicate 2048 0" 2048 "event_message e"] assms(3) by auto
  show ?thesis using assms(1,2) u m by (simp add: docent_turn_def getNextEvent_def)
qed

text \<open>A connected docent that has introduced itself.\<close>

lemma checkConnection_polls:
  assumes "docent_plugin st = Some s" and "mIsConnected (mListener s)"
    and "isCheckGameRunningMessageSent st" and "isInitMessageSentToServer st"
  shows "checkConnection env turns st = docent_poll turns (st\<lparr>docent_isConnected := True\<rparr>)"
proof -
  have "st\<lparr>docent_isConnected := True, isInitMessageSentToServer := True\<rparr> = st\<lparr>docent_isConnected := True\<rparr>"
    using assms(4) by (intro docent.equality) simp_all
  then show ?thesis using assms by (simp add: checkConnection_def plugin_isConnected_def Let_def)
qed

lemma docent_poll_step:
  assumes "docent_plugin st = Some s" and "mEventQueue s = e # rest" and "docent_turn t st = Done st1"
  shows "docent_poll ((t, []) # turns) st = docent_poll turns st1"
proof -
  have "queue_events [] (docent_plugin st1) = docent_plugin st1" by (simp add: queue_events_def split: option.split)
  then have "st1\<lparr>docent_plugin := queue_events [] (docent_plugin st1)\<rparr> = st1" by (intro docent.equality) simp_all
  then show ?thesis using assms by (simp add: hasMoreEvents_def)
qed

section \<open>Without a connection\<close>

text \<open>
  \<^verbatim>\<open>stopInterface\<close> cannot disconnect a client that is not connected and leaves it, so each check makes a new
  connection in a new thread and forgets the gloox client before.
\<close>

lemma stop_unconnected:
  assumes "docent_plugin st = Some s" and "\<not> mIsConnected (mListener s)"
  shows "docent_stop env st = Done st"
proof -
  have "st\<lparr>docent_plugin := Some s\<rparr> = st" using assms(1) by (intro docent.equality) simp_all
  then show ?thesis using assms by (simp add: docent_stop_def stopInterface_def Client_disconnect_def)
qed

lemma serverAddress_c_str: "c_str serverAddress = serverAddress" "serverAddress \<noteq> []"
  "c_str kDocentUsername = kDocentUsername" "kDocentUsername \<noteq> []"
  by (simp_all add: serverAddress_def kDocentUsername_def c_str_def byte_of_def)

lemma docent_connects:
  "\<exists>s' l. Client_connect debug True kDocentUsername kDocentUsername serverAddress DEFAULT_PORT False s = (True, s') \<and>
    mIsConnected (mListener s') = mIsConnected (mListener s) \<and> mClient (mListener s') = Some (objects (gloox_state s)) \<and>
    threads s' = threads s + 1 \<and> objects (gloox_state s') = objects (gloox_state s) + 1 \<and> mEventQueue s' = [] \<and>
    glog (gloox_state s') = glog (gloox_state s) @ l \<and> (\<forall>h. (h, DeleteObject) \<notin> set l)"
  using serverAddress_c_str
  by (simp add: Client_connect_def connect_begin_def connect_spawn_def connect_store_def Client_clear_queues_def
      Listener_setup_def set_listener_def gnew_def gcalls_def Let_def)

lemma check_without_connection:
  assumes "docent_plugin st = Some s" and "\<not> mIsConnected (mListener s)" and "env_thread env"
  shows "\<exists>st' s' l. checkConnection env turns st = Done st' \<and> docent_plugin st' = Some s' \<and>
    \<not> mIsConnected (mListener s') \<and> mClient (mListener s') = Some (objects (gloox_state s)) \<and>
    threads s' = threads s + 1 \<and> objects (gloox_state s') = objects (gloox_state s) + 1 \<and> mEventQueue s' = [] \<and>
    glog (gloox_state s') = glog (gloox_state s) @ l \<and> (\<forall>h. (h, DeleteObject) \<notin> set l) \<and>
    \<not> docent_isConnected st'"
proof -
  let ?st = "st\<lparr>docent_isConnected := False, isInitMessageSentToServer := False\<rparr>"
  show ?thesis
    using assms stop_unconnected [of ?st s env] serverAddress_c_str
      docent_connects [of "env_debug env" s]
    by (auto simp: checkConnection_def plugin_isConnected_def reconnectToServer_def docent_start_def startDocentInterface_def
        startInterface_def createXmppClient_def xmppClientCreated_def)
qed

text \<open>After \<open>n\<close> seconds there are \<open>n\<close> more threads and gloox clients.\<close>

lemma checks_without_connection:
  assumes "docent_plugin st = Some s" and "\<not> mIsConnected (mListener s)" and "env_thread env"
  shows "\<exists>st' s' l. deliver_all (checkConnection env) polls st = Done st' \<and> docent_plugin st' = Some s' \<and>
    \<not> mIsConnected (mListener s') \<and>
    threads s' = threads s + length polls \<and> objects (gloox_state s') = objects (gloox_state s) + length polls \<and>
    glog (gloox_state s') = glog (gloox_state s) @ l \<and> (\<forall>h. (h, DeleteObject) \<notin> set l) \<and>
    (polls \<noteq> [] \<longrightarrow> mClient (mListener s') = Some (objects (gloox_state s') - 1))"
  using assms
proof (induction polls arbitrary: st s)
  case (Cons turns polls)
  obtain st1 s1 l1 where 1: "checkConnection env turns st = Done st1" "docent_plugin st1 = Some s1"
    "\<not> mIsConnected (mListener s1)" "mClient (mListener s1) = Some (objects (gloox_state s))" "threads s1 = threads s + 1"
    "objects (gloox_state s1) = objects (gloox_state s) + 1"
    "glog (gloox_state s1) = glog (gloox_state s) @ l1" "\<forall>h. (h, DeleteObject) \<notin> set l1"
    using check_without_connection [OF Cons.prems, of turns] by blast
  obtain st2 s2 l2 where 2: "deliver_all (checkConnection env) polls st1 = Done st2" "docent_plugin st2 = Some s2"
    "\<not> mIsConnected (mListener s2)" "threads s2 = threads s1 + length polls"
    "objects (gloox_state s2) = objects (gloox_state s1) + length polls"
    "glog (gloox_state s2) = glog (gloox_state s1) @ l2" "\<forall>h. (h, DeleteObject) \<notin> set l2"
    "polls \<noteq> [] \<longrightarrow> mClient (mListener s2) = Some (objects (gloox_state s2) - 1)"
    using Cons.IH [OF 1(2,3) Cons.prems(3)] by blast
  have "mClient (mListener s2) = Some (objects (gloox_state s2) - 1)"
    using 1 2 by (cases "polls = []") auto
  then show ?case using 1 2 by (intro exI [of _ st2] exI [of _ s2] exI [of _ "l1 @ l2"]) simp
qed simp

lemma docent_polls_lists_and_settings:
  assumes "docent_plugin st = Some s" and "mIsConnected (mListener s)"
    and "isCheckGameRunningMessageSent st" and "isInitMessageSentToServer st"
    and "\<forall>x\<in>set games. plain (fst x) \<and> plain (snd x)" and "\<not> has_text kGameList (pairs_text games)"
    and "\<forall>x\<in>set (settings_pairs v). plain (snd x)" and "\<not> has_text kGameAdvancedSettings (pairs_text (settings_pairs v))"
    and "map event_message (mEventQueue s) = [kGameList @ pairs_text games, apply_message v]"
    and "\<forall>m\<in>set (map event_message (mEventQueue s)). 0 \<notin> set m \<and> length m < 2048"
  shows "\<exists>st'. checkConnection env [(t1, []), (t2, [])] st = Done st' \<and>
    gameTitle st' = map fst games \<and> gameList st' = map snd games \<and> saved st' = (map fst games, map snd games, Some t1) \<and>
    advancedParam1 st' = Some (parameterOne v) \<and> advancedParam2 st' = Some (parameterTwo v) \<and>
    advancedParam3 st' = Some (parameterThree v) \<and>
    posted st' = posted st @ [GameListChanged, AdvancedSettingsPosted] \<and> \<not> hasMoreEvents (docent_plugin st')"
proof -
  obtain e1 e2 where q: "mEventQueue s = [e1, e2]" "event_message e1 = kGameList @ pairs_text games"
    "event_message e2 = apply_message v"
    using assms(9) by auto
  have c: "c_str (event_message e1) = event_message e1" "c_str (event_message e2) = event_message e2"
    "length (event_message e1) < 2048" "length (event_message e2) < 2048"
    using assms(10) q(1) by (simp_all add: c_str_id)
  let ?st0 = "st\<lparr>docent_isConnected := True\<rparr>"
  let ?s1 = "s\<lparr>mEventQueue := [e2]\<rparr>"
  let ?st1 = "?st0\<lparr>docent_plugin := Some ?s1, gameTitle := map fst games, gameList := map snd games,
    gameListDateLastUpdated := Some t1, saved := (map fst games, map snd games, Some t1), posted := posted st @ [GameListChanged]\<rparr>"
  let ?s2 = "s\<lparr>mEventQueue := []\<rparr>"
  let ?st2 = "?st1\<lparr>docent_plugin := Some ?s2, advancedParam1 := Some (parameterOne v), advancedParam2 := Some (parameterTwo v),
    advancedParam3 := Some (parameterThree v), posted := posted st @ [GameListChanged, AdvancedSettingsPosted]\<rparr>"
  have turn1: "docent_turn t1 ?st0 = Done ?st1"
    using docent_turn_result [of ?st0 s e1 "[e2]" t1] assms(1) q c docent_event_games [OF assms(5,6)] by simp
  have turn2: "docent_turn t2 ?st1 = Done ?st2"
    using docent_turn_result [of ?st1 ?s1 e2 "[]" t2] q c docent_event_settings [OF assms(7,8)] by simp
  have "docent_poll [(t1, []), (t2, [])] ?st0 = Done ?st2"
    using docent_poll_step [OF _ _ turn1, of s e1 "[e2]" "[(t2, [])]"] docent_poll_step [OF _ _ turn2, of ?s1 e2 "[]" "[]"]
      assms(1) q by (simp add: hasMoreEvents_def)
  then show ?thesis
    using checkConnection_polls [OF assms(1-4), of env "[(t1, []), (t2, [])]"] by (simp add: hasMoreEvents_def)
qed

end
