(* ===== verification/Spec2Isabelle.thy ===== *)
theory Spec2Isabelle
  imports OscArgumentStream OscPrintSpec MessageMapping PluginInterface IosClientMock ListenerThreadSpec
    RunUntilSigInt OscTyping Handles ThreadDelivery OscProgramsSpec OscPerformanceSpec
    AccountTest ControllerMock XmppPerformanceSpec DocentSpec
begin

text \<open>
  The verification of the communication core of the platform, the code under \<^verbatim>\<open>src/product/source\<close>, of the
  command line programs that use it, under \<^verbatim>\<open>src/product/xcode/EscPlatform\<close>, and of the state and the messages of the
  docent's application, under \<^verbatim>\<open>src/product/xcode/EscDocent\<close>.  Other paths below are relative to \<^verbatim>\<open>src/product/source\<close>.

  \<^bold>\<open>The program.\<close>  The platform connects game engines with phones that act as controllers.  Two
  networks serve it.  OSC: a \<^verbatim>\<open>Sender\<close> writes \<^verbatim>\<open>Message\<close>s and \<^verbatim>\<open>Bundle\<close>s through an
  \<^verbatim>\<open>OutboundPacketStream\<close> into a buffer on its stack and sends it as one UDP datagram; a \<^verbatim>\<open>Listener\<close>
  runs a \<^verbatim>\<open>SocketReceiveMultiplexer\<close> in a thread of its own, which hands each datagram to
  \<^verbatim>\<open>OscPacketListener::ProcessPacket\<close>, which walks over its bundles and hands each message to
  \<^verbatim>\<open>OscListener::ProcessMessage\<close>, which queues it or calls the client.  XMPP: \<^verbatim>\<open>xmpp::Client\<close> owns an
  \<^verbatim>\<open>xmpp::Listener\<close> that runs gloox in a thread, turns its callbacks into queues, a roster and
  signals, and registers an account (\<^verbatim>\<open>AccountRegistration\<close>) when the first authentication fails.
  \<^verbatim>\<open>PluginInterface.mm\<close> puts one such client behind C functions for the game engine, and
  \<^verbatim>\<open>IosClientMock\<close> uses both networks to produce load.  The command line programs try out one network each; the docent is
  a phone from which somebody watches over the games, through the plugin.

  \<^bold>\<open>The theories and the code they model.\<close>  A definition has the name of the function it translates,
  with the class in front where the name is not unique; a method takes its object last and returns it
  changed.
    \<^item> \<open>Prelude\<close>: bytes, words, results that may be an error (\<open>error + 'a\<close>), four-byte alignment.
    \<^item> \<open>OscTypes\<close>: \<^verbatim>\<open>osc/OscTypes.h\<close> and every exception class of the OSC code as a constructor of
      \<open>error\<close>; \<open>Fault\<close> is an access outside of memory, \<open>AssertFailed\<close> a failing \<^verbatim>\<open>assert\<close>.
    \<^item> \<open>ByteOrder\<close>: checked memory, \<^verbatim>\<open>FromInt32\<close>, \<^verbatim>\<open>ToInt32\<close> and their kin, both \<^verbatim>\<open>RoundUp4\<close>; the
      locale \<open>codec\<close> is the contract of a writer and a reader of one width.
    \<^item> \<open>OscOutbound\<close>: \<^verbatim>\<open>osc/OscOutboundPacketStream.{h,cpp}\<close>.  \<open>OscOutboundSpec\<close> has the abstract packet
      and one simulation lemma for each operation; \<open>OscOutboundRefine\<close> composes them to a refinement of
      call sequences (locale \<open>packet_machine\<close>).
    \<^item> \<open>OscReceived\<close>: \<^verbatim>\<open>osc/OscReceivedElements.{h,cpp}\<close>, the parser of packets, bundles, messages and
      arguments.  \<open>OscReceivedSpec\<close>, \<open>OscBundleSpec\<close>: what it accepts, where it reads, when its loop
      ends.  \<open>OscTyping\<close>: the types of its arguments.  \<open>OscRoundTrip\<close>: it inverts the writer.
      \<open>OscArgumentStream\<close>: the extraction operators.
    \<^item> \<open>OscPacketListener\<close>, \<open>OscWalkSpec\<close>: \<^verbatim>\<open>osc/OscPacketListener.h\<close>, the walk over a packet, and its
      contract with a message handler (locale \<open>message_sink\<close>).  \<open>MessageMapping\<close>:
      \<^verbatim>\<open>osc/MessageMappingOscPacketListener.h\<close>, a dispatcher by address.
    \<^item> \<open>CNumbers\<close>, \<open>CFormat\<close>, \<open>Doubles\<close>: what the code uses of C++ for numbers: the conversions between
      \<^verbatim>\<open>float\<close> and \<^verbatim>\<open>int32_t\<close> by bit pattern, \<^verbatim>\<open>%i\<close>, \<^verbatim>\<open>%f\<close>, \<^verbatim>\<open>%g\<close>, hexadecimal, and \<^verbatim>\<open>double\<close> arithmetic.
    \<^item> \<open>OscPrint\<close>, \<open>OscPrintSpec\<close>: \<^verbatim>\<open>osc/OscPrintReceivedElements.cpp\<close>, the text of a packet.
    \<^item> \<open>OscMessage\<close>: \<^verbatim>\<open>OscArg.h\<close>, \<^verbatim>\<open>OscMessage.{h,cpp}\<close>, \<^verbatim>\<open>OscBundle.{h,cpp}\<close>.
    \<^item> \<open>IpEndpoint\<close>, \<open>UdpSocket\<close>: \<^verbatim>\<open>ip/IpEndpointName.{h,cpp}\<close> and the socket classes of
      \<^verbatim>\<open>ip/UdpSocket.h\<close>, \<^verbatim>\<open>ip/posix/UdpSocket.cpp\<close>.
    \<^item> \<open>OscSender\<close>, \<open>OscSenderSpec\<close>: \<^verbatim>\<open>OscSender.{h,cpp}\<close>; what is sent is the encoding of the tree of the
      bundle.  \<open>OscListener\<close>, \<open>OscListenerSpec\<close>: \<^verbatim>\<open>OscListener.{h,cpp}\<close> from a datagram to the client.
      \<open>Handles\<close>: the fronts \<^verbatim>\<open>Sender\<close> and \<^verbatim>\<open>Listener\<close>, which share these objects with their copies.
    \<^item> \<open>Multiplexer\<close>, \<open>MultiplexerSpec\<close>: \<^verbatim>\<open>SocketReceiveMultiplexer::Implementation\<close>, with \<^verbatim>\<open>Run\<close> as a step
      function over a program counter.  \<open>ListenerThread\<close>, \<open>ListenerThreadSpec\<close>: \<^verbatim>\<open>setup\<close>,
      \<^verbatim>\<open>shutdown\<close> and the receiving thread as an inductive relation of interleaved steps (\<open>life_step\<close>);
      \<open>ThreadDelivery\<close>: from a sender through that thread to the client.  \<open>RunUntilSigInt\<close>: the signal handler and the global pointer it breaks through.
    \<^item> \<open>Fifo\<close>: the contract of a queue between two threads.  \<open>StdMap\<close>: \<^verbatim>\<open>std::map\<close> with string keys and
      its contract (locale \<open>ordered_map\<close>).
    \<^item> \<open>Gloox\<close>: the enumerations of gloox and the model of its calls; \<open>recv_loop\<close> is the loop
      \<^verbatim>\<open>while (ce == ConnNoError) ce = client->recv()\<close>.  \<open>Accounts\<close>, \<open>AccountsSpec\<close>:
      \<^verbatim>\<open>AccountRegistration.{h,cpp}\<close>, \<^verbatim>\<open>AccountEraser.{h,cpp}\<close>.
    \<^item> \<open>XmppClient\<close>: \<^verbatim>\<open>XmppClient.{h,cpp}\<close>, \<^verbatim>\<open>XmppListener.{h,cpp}\<close>, \<^verbatim>\<open>XmppEchoListener.{h,cpp}\<close>.
      \<open>XmppClientSpec\<close> has the invariant over all calls and callbacks, \<open>XmppBehaviour\<close> what sequences of
      them do.
    \<^item> \<open>Logger\<close>: \<^verbatim>\<open>Logger.{h,mm}\<close>.  \<open>PluginInterface\<close>: \<^verbatim>\<open>PluginInterface.{h,mm}\<close>.  \<open>IosClientMock\<close>: \<^verbatim>\<open>IosClientMock.{h,cpp}\<close>.

    \<^item> \<open>CommandLine\<close>: what the programs share: \<^verbatim>\<open>atoi\<close>, \<^verbatim>\<open>stoi\<close>, \<^verbatim>\<open>find\<close> and \<^verbatim>\<open>substr\<close>; \<open>launch\<close> is how a \<^verbatim>\<open>main\<close> starts.
      \<open>OscPrograms\<close>, \<open>OscProgramsSpec\<close>: \<^verbatim>\<open>OscEchoClient\<close>, \<^verbatim>\<open>Osc-Sender\<close>, \<^verbatim>\<open>Osc-Listener\<close>; the locale \<open>queue_program\<close> is
      the contract of a program that empties the queue of its listener.  \<open>OscPerformance\<close>,
      \<open>OscPerformanceSpec\<close>: \<^verbatim>\<open>OscPerformanceTest\<close>, \<^verbatim>\<open>main\<close> as a step function over a program counter.
      \<open>AccountTest\<close>: \<^verbatim>\<open>AccountCreationTest\<close>.  \<open>ControllerMock\<close>: \<^verbatim>\<open>MockForController\<close>, with the protocol it
      plays as a state machine.  \<open>XmppPrograms\<close>, \<open>XmppProgramsSpec\<close>: \<^verbatim>\<open>XmppEchoClient\<close>, \<^verbatim>\<open>MockForGame\<close>,
      \<^verbatim>\<open>EscPlatform-Import-Test\<close>.  \<open>XmppPerformance\<close>, \<open>XmppPerformanceSpec\<close>: \<^verbatim>\<open>XmppPerformanceTest\<close>.
    \<^item> \<open>Docent\<close>, \<open>DocentSpec\<close>: \<^verbatim>\<open>GameModel.mm\<close> and the messages of \<^verbatim>\<open>GameViewController.mm\<close> and
      \<^verbatim>\<open>GameDetailViewController.mm\<close>.

  \<^bold>\<open>What the properties show.\<close>  C1 and C2: the stream refines an abstract packet machine and never
  leaves its buffer.  C3, C4, C20: round trips of messages, integers and argument streams.  C5 to C7, C14:
  what is sent, delivered and lost between sender and listener.  C8 to C12: when the parser ends, where it
  reads, what it accepts.  C13: the queue keeps its order.  C15, C16: the types of received arguments and
  their text.  C17: the OSC echo client returns every datagram to its sender.  C18: the texts of addresses.
  C19: the OSC performance test never ends.  C21, C22: printing and dispatch.  C23 to C27: timers, the
  signal that ends the receiving loop, and the life of the receiving thread.  C28 to C31: accounts, the
  state, the roster and the reconnection of the XMPP client.  C32: game commands reach exactly the connected
  peers.  C33: the life of the mock.  C34 to C37: the XMPP programs return, play their protocol, echo, and
  measure.  C38 to C40: the docent reads what it is sent, how it reconnects, and that its list stays in step.
  The other theorems of this file, without a number, are about conversions, copies, a second connection and
  the polling of events.

  \<^bold>\<open>Interfaces.\<close>  Every locale is interpreted on the model: \<open>codec\<close> by the five integer codecs,
  \<open>packet_machine\<close> by the stream, \<open>message_sink\<close> by the listener, \<open>fifo\<close> by the
  queues of the listener, of the XMPP client and of the plugin, \<open>ordered_map\<close> by \<open>StdMap\<close>, \<open>recv_client\<close>
  and \<open>total_recv_client\<close> with \<open>account_client\<close> by both account classes, \<open>queue_program\<close> by the echo client
  and the listener on the command line.

  \<^bold>\<open>Configuration.\<close>  One configuration of the sources is modelled: a little-endian host, \<^verbatim>\<open>int32\<close> of 32
  bits as \<^verbatim>\<open>OscTypes.h\<close> intends (the macro it tests is not the compiler's, see the findings of the
  manifest), \<^verbatim>\<open>long\<close> and pointers of 64 bits, assertions enabled.  Machine integers are words of their
  width, so that they wrap as in C++; offsets into one buffer are natural numbers.  A \<^verbatim>\<open>float\<close> is its bit
  pattern, a finite \<^verbatim>\<open>double\<close> of the timers the rational it stands for.

  \<^bold>\<open>Termination.\<close>  Loops that may not end have the result \<open>None\<close>: the walk over a packet and the
  element loop of a bundle (\<open>partial_function\<close>); C8 states when the walk over any packet has a result, C9 shows
  a packet on which it has none.  \<^verbatim>\<open>Run\<close> and the thread of a listener make one step at a time; the number of steps until a break
  ends the loop is bounded in C24.  \<open>recv_loop\<close> runs over a \<open>session\<close>, the finite list of what gloox
  calls back and returns; that it ends before the session does when an error ends the connection is
  proved (C28).

  \<^bold>\<open>Environment.\<close>  What the operating system answers is an argument: results of system calls, the
  datagrams, the clock (\<open>answer\<close>), the name lookup, \<^verbatim>\<open>ctime\<close>, random numbers.  gloox is third-party
  code: the calls it is given are a log, its callbacks are arguments.  A function that holds a mutex is
  one step; the queues of the XMPP client have no lock, so for them a step is an assumption, except in
  \<^verbatim>\<open>connect\<close>, which is also given in the parts that the new thread may come between (\<open>fast_thread\<close> in \<open>XmppBehaviour\<close>).

  \<^bold>\<open>Not modelled.\<close>  The fronts \<^verbatim>\<open>UdpSocket\<close> and \<^verbatim>\<open>SocketReceiveMultiplexer\<close>, which forward each call
  to the \<^verbatim>\<open>Implementation\<close> they own; big-endian branches; the Windows build; the desktop branch
  of \<^verbatim>\<open>PluginInterface.mm\<close>, which calls the operating system for windows and displays; console output and \<^verbatim>\<open>NSLog\<close>;
  the wrappers for the keychain and reachability; the projects generated by Unity and Xcode, the vendored
  libraries, the unit tests and the server scripts.  Of the docent the views: their layout, and what they do on a
  notification.  The global lists that the performance tests share between two threads without a lock are
  read and changed in single steps.
\<close>

section \<open>Example inputs\<close>

text \<open>A connected socket and a bundle with a nested bundle, for the instances below.\<close>

definition example_socket :: udp_socket where
  "example_socket =
     \<lparr>isBound = True, isConnected = True, connectedAddr = \<lparr>sin_addr = 0x0100007F, sin_port = 0x5000\<rparr>,
      sendToAddr = \<lparr>sin_addr = 0, sin_port = 0\<rparr>,
      peer = Some \<lparr>sin_addr = 0x0100007F, sin_port = 0x5000\<rparr>, bound_to = None, broadcast = False\<rparr>"

definition example_message :: osc_message where
  "example_message =
     addStringArg [104, 105] (addIntArg 7 (setAddress [47, 97] (new_Message 0)))"

definition example_bundle :: osc_bundle where
  "example_bundle = OscBundle [example_message] [OscBundle [addFloatArg 1 example_message] []]"

lemmas example_simps =
  example_socket_def example_message_def example_bundle_def new_Message_def addIntArg_def
  addFloatArg_def addStringArg_def setAddress_def

section \<open>The outgoing stream\<close>

text \<open>
  C1.  \<^verbatim>\<open>OutboundPacketStream\<close> refines the abstract packet machine.  For every sequence of calls that
  puts arguments only inside messages, the stream throws exactly the exception the abstract machine
  throws, at the same call; if no call throws and every element is closed, the bytes of the packet
  are the abstract packet, \<^verbatim>\<open>Size()\<close> is their number and \<^verbatim>\<open>IsReady()\<close> holds.
\<close>

theorem outbound_stream_refines:
  assumes "length buffer < 2 ^ 31" and "legal_run (length buffer) ops empty_spec"
  shows "case exec_ops (spec_step (length buffer)) ops empty_spec of
      Inl e \<Rightarrow> exec_ops apply_op ops (OutboundPacketStream buffer) = Inl e
    | Inr a \<Rightarrow> \<exists>st. exec_ops apply_op ops (OutboundPacketStream buffer) = Inr st \<and>
        (open_elems a = [] \<longrightarrow>
          packet st = packet_spec.closed a \<and> unat (Size st) = length (packet_spec.closed a) \<and> IsReady st)"
proof (cases "exec_ops (spec_step (length buffer)) ops empty_spec")
  case (Inl e)
  then show ?thesis using osc_stream.exec_error [OF sim_rel_new [OF refl assms(1)] assms(2)] by simp
next
  case (Inr a)
  then show ?thesis
    using osc_stream.exec_ok [OF sim_rel_new [OF refl assms(1)] assms(2) Inr]
      exec_packet [OF assms Inr] by auto
qed

lemma outbound_stream_refines_witness:
  "\<exists>st. exec_ops apply_op (tree_ops (TBundle 1 [TMessage [47] [OInt32 7]]))
      (OutboundPacketStream (replicate 64 0)) = Inr st \<and>
    packet st = enc_bundle 1 [enc_message [47] [OInt32 7]]"
proof -
  let ?ops = "tree_ops (TBundle 1 [TMessage [47] [OInt32 7]])" and ?b = "replicate 64 (0 :: byte)"
  let ?x = "enc_bundle 1 [enc_message [47] [OInt32 7]]"
  have legal: "legal_run (length ?b) ?ops empty_spec"
    by (rule legal_tree) (simp_all add: sendable_def empty_spec_def)
  have "exec_ops (spec_step (length ?b)) ?ops empty_spec = Inr (spec_append ?x empty_spec)"
    by (subst exec_tree)
      (simp_all add: empty_spec_def spec_size_def spec_slot_def length_enc_bundle length_enc_message
        length_enc_args roundup4_def)
  moreover have "open_elems (spec_append ?x empty_spec) = []" "packet_spec.closed (spec_append ?x empty_spec) = ?x"
    by (simp_all add: spec_append_def empty_spec_def)
  ultimately show ?thesis
    using outbound_stream_refines [OF _ legal] by (simp del: tree_ops.simps) blast
qed

text \<open>
  C2.  Memory safety of the stream: after any sequence of calls, in any order, caught exceptions
  included, no call stores or loads outside of the buffer and no assertion fails.
\<close>

theorem outbound_stream_memory_safe:
  assumes "length buffer < 2 ^ 31" and "list_all wf_op ops"
  shows "\<exists>st. run_ops ops (OutboundPacketStream buffer) = Inr st \<and> length (obuf st) = length buffer"
  using safe_run [OF represents_new [OF assms(1)] assms(2)] by (auto simp: OutboundPacketStream_def)

lemma outbound_stream_memory_safe_witness:
  "\<exists>st. run_ops [PutOp (OInt32 1), EndBundleOp, BeginMessageOp [47], BeginBundleOp 1]
      (OutboundPacketStream (replicate 12 0)) = Inr st \<and> length (obuf st) = 12"
  using outbound_stream_memory_safe [of "replicate 12 0"
    "[PutOp (OInt32 1), EndBundleOp, BeginMessageOp [47], BeginBundleOp 1]"]
  by (simp add: sendable_def)

section \<open>Writing and parsing\<close>

text \<open>
  C3.  Parsing inverts writing.  A message written through the stream into a large enough buffer is
  accepted by \<^verbatim>\<open>ReceivedMessage\<close>; its address and its arguments, read by the accessors of their type
  tags, are those that were written, for all fourteen argument types.
\<close>

theorem message_write_parse:
  assumes "length buffer < 2 ^ 31" and "length (enc_message addr vs) \<le> length buffer"
    and "0 \<notin> set addr" and "list_all wire_value vs"
  shows "\<exists>st m. exec_ops apply_op (BeginMessageOp addr # map PutOp vs @ [EndMessageOp])
        (OutboundPacketStream buffer) = Inr st \<and>
      ReceivedMessage_packet (packet st) \<lparr>contents = 0, packet_size = Size st\<rparr> = Inr m \<and>
      read_cstr (packet st) (addressPattern m) = Inr addr \<and>
      ArgumentCount m = length vs \<and>
      read_values (packet st) (length vs) (ArgumentsBegin m) = Inr vs"
proof -
  let ?k = "TMessage addr vs" and ?x = "enc_message addr vs"
  have small: "length ?x < 2 ^ 31" using assms(1,2) by simp
  have sendable: "sendable_tree ?k" using small_tree_sendable [of ?k] small by simp
  obtain st where st: "exec_ops apply_op (tree_ops ?k) (OutboundPacketStream buffer) = Inr st"
    "packet st = ?x" "unat (Size st) = length ?x"
    using write_tree_size [OF assms(1) sendable] assms(2) by auto
  have at: "mem_at ?x 0 ?x" by simp
  have "unat (scast (Size st) :: ulong) = length ?x"
    using scast_small [of "Size st"] st(3) small by simp
  then have "ReceivedMessage_packet ?x \<lparr>contents = 0, packet_size = Size st\<rparr> = Inr (parsed_message 0 addr vs)"
    using Message_Init_at [OF at assms(3,4)] by (simp add: ReceivedMessage_packet_def)
  then show ?thesis using st parsed_message_reads [OF at assms(3,4)] by auto
qed

lemma message_write_parse_witness:
  "\<exists>st m. exec_ops apply_op
        (BeginMessageOp [47, 97] # map PutOp [OInt32 7, OString [104, 105], OBlob [1, 0, 2]] @ [EndMessageOp])
        (OutboundPacketStream (replicate 64 0)) = Inr st \<and>
      ReceivedMessage_packet (packet st) \<lparr>contents = 0, packet_size = Size st\<rparr> = Inr m \<and>
      read_cstr (packet st) (addressPattern m) = Inr [47, 97] \<and>
      ArgumentCount m = length [OInt32 7, OString [104, 105], OBlob [1, 0, 2]] \<and>
      read_values (packet st) (length [OInt32 7, OString [104, 105], OBlob [1, 0, 2]]) (ArgumentsBegin m) =
        Inr [OInt32 7, OString [104, 105], OBlob [1, 0, 2]]"
  by (rule message_write_parse)
    (simp_all add: length_enc_message length_enc_args roundup4_def)

text \<open>
  C4.  The byte order routines are inverse to each other at every offset: what \<^verbatim>\<open>FromInt32\<close>,
  \<^verbatim>\<open>FromUInt32\<close>, \<^verbatim>\<open>FromInt64\<close> and \<^verbatim>\<open>FromUInt64\<close> store, their counterparts load, and a load succeeds
  exactly when the bytes are there.
\<close>

theorem integer_codecs_roundtrip:
  "(mem_at mem p (FromInt32 x) \<longleftrightarrow> ToInt32 mem p = Inr x) \<and>
   (mem_at mem p (FromUInt32 y) \<longleftrightarrow> ToUInt32 mem p = Inr y) \<and>
   (mem_at mem p (FromInt64 u) \<longleftrightarrow> ToInt64 mem p = Inr u) \<and>
   (mem_at mem p (FromUInt64 v) \<longleftrightarrow> ToUInt64 mem p = Inr v)"
  by (simp add: int32_codec.dec_Inr_iff uint32_codec.dec_Inr_iff int64_codec.dec_Inr_iff uint64_codec.dec_Inr_iff)

section \<open>Sending and receiving\<close>

text \<open>
  C5.  A bundle from end to end.  A bundle whose packet is at most \<^verbatim>\<open>MAX_BUFFER_SIZE\<close> bytes long and
  whose addresses do not start like a bundle is sent as one datagram; a bound listener that receives
  it delivers exactly the messages of the bundle, nested bundles first, with the sender's endpoint,
  strings cut at their first NUL, and no exception.
\<close>

theorem bundle_delivery:
  assumes "length buffer = BUNDLE_BUFFER_SIZE" and "socket s = Some u" and "isConnected u"
    and "length (enc_tree (bundle_tree b)) \<le> MAX_BUFFER_SIZE"
    and "\<forall>m\<in>set (bundle_messages b). plain_address m" and "isBound r"
  shows "\<exists>data. sendBundle buffer b s = Inr (peer u, data) \<and>
    receive_datagram (from, data) r g st =
      Some (fold deliver_message (map (arrived (from_endpoint from)) (bundle_messages b)) st, None)"
  by (rule bundle_end_to_end [OF assms])

lemma bundle_delivery_witness:
  "\<exists>data. sendBundle (replicate BUNDLE_BUFFER_SIZE 0) example_bundle \<lparr>socket = Some example_socket\<rparr> =
      Inr (peer example_socket, data) \<and>
    receive_datagram (\<lparr>sin_addr = 1, sin_port = 2\<rparr>, data) example_socket 0 (new_OscListener ()) =
      Some (fold deliver_message
        (map (arrived (from_endpoint \<lparr>sin_addr = 1, sin_port = 2\<rparr>)) (bundle_messages example_bundle))
        (new_OscListener ()), None)"
  by (rule bundle_delivery)
    (simp_all add: example_simps message_tree_def length_enc_bundle length_enc_message length_enc_args
      roundup4_def MAX_BUFFER_SIZE_def plain_address_def c_str_def byte_of_values)

text \<open>
  C6.  Messages from end to end.  Messages sent one after the other through \<^verbatim>\<open>sendMessage\<close> and its
  smaller buffer, whose packets are at most \<^verbatim>\<open>MAX_BUFFER_SIZE\<close> bytes long, go through the receiving thread
  of a listener: when \<^verbatim>\<open>select\<close> reports the datagrams, its loop delivers one message for each, in order, and
  is ready for more; a client that polls gets them after those that were waiting, strings cut at their
  first NUL.
\<close>

theorem messages_delivery:
  assumes "socket s = Some u" and "isConnected u" and "listening l"
    and "\<forall>(buffer, m)\<in>set ms. length buffer = MESSAGE_BUFFER_SIZE \<and> plain_address m \<and>
      length (enc_tree (TBundle BeginBundleImmediate [message_tree m])) \<le> MAX_BUFFER_SIZE"
  shows "\<exists>ds r. map (\<lambda>(buffer, m). sendMessage buffer m s) ms = map (\<lambda>d. Inr (peer u, d)) ds \<and>
    run_steps (osc_behaviour g (receiver l)) (concat (map (\<lambda>d. arrival t (sender, d)) ds)) (run l) = Some r \<and>
    life_steps g l (l\<lparr>run := r\<rparr>) \<and> listening (l\<lparr>run := r\<rparr>) \<and>
    listeners_world r = fold deliver_message (map (arrived (from_endpoint sender)) (map snd ms))
      (listeners_world (run l)) \<and>
    (mCallbackFn (listeners_world (run l)) = None \<longrightarrow>
      poll g (length (mMessages (listeners_world (run l))) + length ms) (listeners_world r) =
        mMessages (listeners_world (run l)) @ map (arrived (from_endpoint sender)) (map snd ms))"
  using messages_through_thread [OF assms, of g t sender]
    listener_queue.deq_enqs [of "listeners_world (run l)" g "map (arrived (from_endpoint sender)) (map snd ms)"]
  by (auto simp: poll_deq_all)

definition example_messages :: "(bytes \<times> osc_message) list" where
  "example_messages =
     [(replicate MESSAGE_BUFFER_SIZE 0, example_message), (replicate MESSAGE_BUFFER_SIZE 1, addFloatArg 1 example_message)]"

lemma messages_delivery_witness:
  "\<exists>l ds r. life_steps 0 (initial_life (new_OscListener ()) False example_socket) l \<and>
    map (\<lambda>(buffer, m). sendMessage buffer m \<lparr>socket = Some example_socket\<rparr>) example_messages =
      map (\<lambda>d. Inr (peer example_socket, d)) ds \<and>
    life_steps 0 l (l\<lparr>run := r\<rparr>) \<and>
    poll 0 2 (listeners_world r) =
      map (arrived (from_endpoint \<lparr>sin_addr = 1, sin_port = 2\<rparr>)) (map snd example_messages)"
proof -
  let ?u = example_socket and ?f = "\<lparr>sin_addr = 1, sin_port = 2\<rparr> :: sockaddr"
  have fit: "\<forall>(buffer, m)\<in>set example_messages. length buffer = MESSAGE_BUFFER_SIZE \<and> plain_address m \<and>
      length (enc_tree (TBundle BeginBundleImmediate [message_tree m])) \<le> MAX_BUFFER_SIZE"
    by (simp add: example_messages_def example_simps message_tree_def length_enc_bundle length_enc_message length_enc_args
      roundup4_def MAX_BUFFER_SIZE_def plain_address_def c_str_def byte_of_values)
  obtain l where l: "life_steps 0 (initial_life (new_OscListener ()) False ?u) l" "listening l"
      "listeners_world (run l) = new_OscListener ()"
    using listening_reachable by blast
  have fresh: "mCallbackFn (new_OscListener ()) = None" "length (mMessages (new_OscListener ())) + length example_messages = 2"
    "mMessages (new_OscListener ()) = []"
    by (simp_all add: new_OscListener_def example_messages_def)
  have "socket \<lparr>socket = Some ?u\<rparr> = Some ?u" "isConnected ?u" by (simp_all add: example_socket_def)
  from messages_delivery [OF this l(2) fit, of 0 "(0, 0)" ?f] l(1) fresh
  show ?thesis unfolding l(3) by (simp only: fresh append_Nil simp_thms) blast
qed

text \<open>
  C7.  What is sent.  \<^verbatim>\<open>sendBundle\<close> hands the packet of the bundle to the connected socket, or, exactly
  when the packet does not fit into its buffer, throws \<^verbatim>\<open>OutOfBufferMemoryException\<close> and sends nothing.
\<close>

theorem bundle_sent_iff_fits:
  assumes "length buffer < 2 ^ 31" and "sendable_tree (bundle_tree b)"
    and "socket s = Some u" and "isConnected u"
  shows "sendBundle buffer b s =
    (if length (enc_tree (bundle_tree b)) \<le> length buffer
     then Inr (peer u, enc_tree (bundle_tree b)) else Inl OutOfBufferMemoryException)"
  using sendBundle_eq [OF assms(1,2,3)] assms(4) by (simp add: send_tree_def Send_def)

lemma bundle_sent_iff_fits_witness:
  "sendBundle (replicate 60 0) example_bundle \<lparr>socket = Some example_socket\<rparr> =
    Inl OutOfBufferMemoryException"
proof -
  let ?k = "bundle_tree example_bundle"
  have "length (enc_tree ?k) = 84"
    by (simp add: example_simps message_tree_def length_enc_bundle length_enc_message length_enc_args
        roundup4_def c_str_def)
  moreover have "sendable_tree ?k" by (rule small_tree_sendable) (simp add: calculation)
  ultimately show ?thesis
    using bundle_sent_iff_fits [of "replicate 60 0" example_bundle "\<lparr>socket = Some example_socket\<rparr>"
        example_socket]
    by (simp add: example_socket_def)
qed



text \<open>
  C9.  The size \<^verbatim>\<open>0xFFFFFFFC\<close> in the first element of a bundle stops the receiver for ever:
  \<^verbatim>\<open>4 + elementSize\<close> wraps to 0 and the loop of \<^verbatim>\<open>ReceivedBundle::Init\<close> does not advance.
\<close>

theorem stuck_bundle_hangs:
  "ProcessPacket (bundle_header t @ FromUInt32 stuck_size) 20 pm s = None"
proof -
  let ?m = "bundle_header t @ FromUInt32 stuck_size"
  have h: "mem_at ?m 0 (bundle_header t)" by (simp add: mem_at_def)
  have z: "ToUInt32 ?m (0 + 16) = Inr stuck_size"
    by (rule uint32_codec.dec_at) (simp add: mem_at_def)
  have "Bundle_Init ?m 0 20 = None"
    by (rule Bundle_Init_hangs [OF h _ _ z]) simp_all
  then show ?thesis
    by (simp add: ProcessPacket_def ReceivedPacket_IsBundle_def ReceivedBundle_packet_def load_byte_def
        bundle_header_split nth_append)
qed

section \<open>Parsing\<close>

text \<open>
  C10.  Without a blob tag the parser stays inside the packet: it throws
  \<^verbatim>\<open>MalformedMessageException\<close> or accepts a message whose address and arguments can all be read.
\<close>

theorem message_parse_safe:
  assumes "message + unat sz \<le> length mem" and "BLOB_TYPE_TAG \<notin> set (type_tag_string mem message sz)"
  shows "case Message_Init mem message sz of
      Inl err \<Rightarrow> \<exists>msg. err = MalformedMessageException msg
    | Inr m \<Rightarrow> addressPattern m = message \<and> (\<exists>s. read_cstr mem message = Inr s) \<and>
        (\<exists>vs. read_values mem (ArgumentCount m) (ArgumentsBegin m) = Inr vs)"
  using Message_Init_safe [OF assms] by (auto simp: init_ok_def split: sum.splits)

lemma message_parse_safe_witness:
  "case Message_Init [47, 97, 0, 0, 44, 105, 0, 0, 0, 0, 0, 7] 0 12 of
      Inl err \<Rightarrow> \<exists>msg. err = MalformedMessageException msg
    | Inr m \<Rightarrow> addressPattern m = 0 \<and>
        (\<exists>s. read_cstr [47, 97, 0, 0, 44, 105, 0, 0, 0, 0, 0, 7] 0 = Inr s) \<and>
        (\<exists>vs. read_values [47, 97, 0, 0, 44, 105, 0, 0, 0, 0, 0, 7] (ArgumentCount m) (ArgumentsBegin m) = Inr vs)"
  by (rule message_parse_safe)
    (simp_all add: type_tag_string_def FindStr4End_before_def load_byte_def find4_before.simps c_str_def)

text \<open>
  C11.  An accepted bundle starts with \<^verbatim>\<open>#bundle\<close>, and its iterator visits exactly
  \<^verbatim>\<open>ElementCount()\<close> elements, each of a multiple of four bytes and inside the bundle, one after the
  other up to \<^verbatim>\<open>ElementsEnd()\<close>.
\<close>

theorem bundle_parse_elements:
  assumes "Bundle_Init mem bundle sz = Some (Inr b)" and "bundle + unat sz \<le> length mem"
  shows "mem_at mem bundle (bytes_of ''#bundle'' @ [0]) \<and> ElementsEnd b = bundle + unat sz \<and>
    elements_fill mem (ElementsEnd b) (ElementsBegin b) (elementCount b)"
  using Bundle_Init_accepts [OF assms] by (simp add: ElementsEnd_def)

lemma bundle_parse_elements_witness:
  "mem_at (bundle_header 1) 0 (bytes_of ''#bundle'' @ [0]) \<and>
   elements_fill (bundle_header 1) 16 16 0"
proof -
  let ?b = "\<lparr>received_bundle.timeTag = 8, bundle_end = 16, elementCount = 0\<rparr>"
  have "Bundle_Init (enc_bundle 1 []) 0 16 = Some (Inr ?b)"
    by (subst Bundle_Init_at [where t = 1 and es = "[]"]) (simp_all add: length_enc_bundle)
  then have "Bundle_Init (bundle_header 1) 0 16 = Some (Inr ?b)" by (simp add: enc_bundle_def)
  from bundle_parse_elements [OF this] show ?thesis by (simp add: ElementsEnd_def ElementsBegin_def)
qed


text \<open>
  The two \<^verbatim>\<open>RoundUp4\<close>, on \<^verbatim>\<open>long\<close> in the writer and on \<^verbatim>\<open>unsigned long\<close> in the parser,
  compute the least multiple of four not below their argument, as long as that fits.
\<close>

theorem RoundUp4_variants_agree:
  assumes "unat x + 3 < 2 ^ 63"
  shows "RoundUp4_long x = RoundUp4_ulong x \<and> unat (RoundUp4_ulong x) = roundup4 (unat x)"
  using RoundUp4_ulong_eq_long [of x] unat_RoundUp4_ulong [of x] assms by simp

lemma RoundUp4_variants_agree_witness:
  "RoundUp4_long 5 = RoundUp4_ulong 5 \<and> unat (RoundUp4_ulong 5) = 8"
  using RoundUp4_variants_agree [of 5] by (simp add: roundup4_def)

section \<open>The queue of the listener\<close>

text \<open>
  C13.  First in, first out.  Without a callback, a client that polls with fresh messages gets the
  waiting messages and then the delivered ones, in order; with a callback, it is called on each
  message in order and nothing is queued.
\<close>

theorem listener_delivers_in_order:
  "case mCallbackFn st of
     None \<Rightarrow> poll g (length (mMessages st) + length ms) (fold deliver_message ms st) = mMessages st @ ms
   | Some f \<Rightarrow> fold deliver_message ms st = st\<lparr>world := fold f ms (world st)\<rparr>"
  using listener_queue.deq_enqs [of st g ms]
  by (auto simp: poll_deq_all deliver_callback split: option.splits)

text \<open>
  C14.  What the buffer of the receiver cuts off.  A bundle that the sender's buffer holds but the
  receiver's does not is sent, and the receiver throws \<^verbatim>\<open>MalformedBundleException\<close> and delivers none of
  its messages.
\<close>

theorem oversized_bundle_lost:
  assumes "length buffer = BUNDLE_BUFFER_SIZE" and "socket s = Some u" and "isConnected u"
    and "MAX_BUFFER_SIZE < length (enc_tree (bundle_tree b))"
    and "length (enc_tree (bundle_tree b)) \<le> BUNDLE_BUFFER_SIZE" and "isBound r"
  shows "\<exists>data. sendBundle buffer b s = Inr (peer u, data) \<and>
    receive_datagram (from, data) r g st =
      Some (st, Some (MalformedBundleException ''bundle size must be multiple of four''))"
proof -
  have "length (enc_tree (bundle_tree b)) < 2 ^ 31" using assms(5) by (simp add: BUNDLE_BUFFER_SIZE_def)
  then have "sendBundle buffer b s = Inr (peer u, enc_tree (bundle_tree b))"
    using sendBundle_eq [OF _ small_tree_sendable assms(2), of buffer b] assms
    by (simp add: send_tree_def Send_def BUNDLE_BUFFER_SIZE_def)
  with receive_oversized_bundle [OF assms(6,4) enc_bundle_hash] show ?thesis by blast
qed

lemma oversized_bundle_lost_witness:
  "\<exists>data. sendBundle (replicate BUNDLE_BUFFER_SIZE 0)
      (OscBundle [addStringArg (replicate 5000 65) example_message] []) \<lparr>socket = Some example_socket\<rparr> =
      Inr (peer example_socket, data) \<and>
    receive_datagram (\<lparr>sin_addr = 1, sin_port = 2\<rparr>, data) example_socket 0 (new_OscListener ()) =
      Some (new_OscListener (),
        Some (MalformedBundleException ''bundle size must be multiple of four''))"
  by (rule oversized_bundle_lost)
    (simp_all add: example_simps message_tree_def length_enc_bundle length_enc_message length_enc_args
      roundup4_def MAX_BUFFER_SIZE_def BUNDLE_BUFFER_SIZE_def c_str_def)

section \<open>Messages\<close>

text \<open>
  \<^verbatim>\<open>Message::copy\<close> and \<^verbatim>\<open>Bundle::copy\<close>, which are also the assignments, append: what the target
  held before stays in front of the copies, so polling into a message that was used before gives it
  the arguments of both.  The copy constructors copy exactly.  Assigning a message to itself returns
  only if it has no arguments: the loop appends to the vector it runs over and reads its bound again.
\<close>

theorem copy_appends:
  "assign_Message this other =
     Inr \<lparr>address = address other, args = args this @ args other,
          remote_host = remote_host other, remote_port = remote_port other\<rparr> \<and>
   assign_Bundle b c = OscBundle (messages b @ messages c) (bundles b @ bundles c) \<and>
   copy_of_Message g other = Inr other \<and> copy_of_Bundle c = c \<and>
   Message_copy_self 0 (args this) = (if args this = [] then Some [] else None)"
  using Message_copy_self.simps [of 0 "[]"]
  by (cases c)
    (simp add: assign_Message_def assign_Bundle_def copy_of_Message_def copy_of_Bundle_def
      Message_copy_eq Bundle_copy_eq new_Message_def new_Bundle_def Message_copy_self_diverges)

text \<open>
  C15.  The types of the arguments.  An accepted message without a blob has one argument for each byte
  of its type tag string: the loop from \<^verbatim>\<open>ArgumentsBegin()\<close> to \<^verbatim>\<open>ArgumentsEnd()\<close> meets \<^verbatim>\<open>ArgumentCount()\<close>
  arguments, and at each of them exactly the accessor of its type gives a value while all the others
  throw \<^verbatim>\<open>WrongArgumentTypeException\<close>.
\<close>

theorem accepted_message_typed:
  assumes "Message_Init mem message sz = Inr m" and "message + unat sz \<le> length mem"
    and "BLOB_TYPE_TAG \<notin> set (type_tag_string mem message sz)"
  shows "\<exists>vs. read_values mem (ArgumentCount m) (ArgumentsBegin m) = Inr vs \<and>
    length vs = ArgumentCount m \<and>
    map arg_tag vs = (case typeTagsBegin m of None \<Rightarrow> [] | Some b \<Rightarrow> c_str (drop b mem)) \<and>
    typed_arguments mem vs (ArgumentsBegin m) (ArgumentsEnd m)"
  by (rule message_typed [OF assms])

lemma accepted_message_typed_witness:
  "\<exists>m v. Message_Init [47, 97, 0, 0, 44, 105, 0, 0, 0, 0, 0, 7] 0 12 = Inr m \<and>
    typed_arguments [47, 97, 0, 0, 44, 105, 0, 0, 0, 0, 0, 7] [v] (ArgumentsBegin m) (ArgumentsEnd m)"
proof -
  let ?mem = "[47, 97, 0, 0, 44, 105, 0, 0, 0, 0, 0, 7] :: bytes"
  let ?m = "\<lparr>addressPattern = 0, typeTagsBegin = Some 5, typeTagsEnd = Some 6, arguments = Some 8\<rparr>"
  have "check_args ?mem 12 5 8 = Inr 6"
    by (subst check_args.simps) (simp add: load_byte_def check_arg_def)
  then have m: "Message_Init ?mem 0 12 = Inr ?m"
    by (simp add: Message_Init_def FindStr4End_before_def find4_before.simps load_byte_def byte_of_values)
  have "BLOB_TYPE_TAG \<notin> set (type_tag_string ?mem 0 12)"
    by (simp add: type_tag_string_def FindStr4End_before_def load_byte_def find4_before.simps c_str_def)
  from accepted_message_typed [OF m _ this] obtain vs where
    "length vs = 1" "typed_arguments ?mem vs (ArgumentsBegin ?m) (ArgumentsEnd ?m)"
    by (auto simp: ArgumentCount_def)
  with m show ?thesis by (auto simp: length_Suc_conv)
qed

text \<open>
  Conversions.  An integer argument of at most 24 bits read as a \<^verbatim>\<open>float\<close> and, from a \<^verbatim>\<open>float\<close>
  argument, back as an integer is unchanged; without \<^verbatim>\<open>typeConvert\<close> both accessors throw.
\<close>

theorem int_float_conversion:
  assumes "\<bar>sint n\<bar> < 2 ^ 24"
  shows "\<exists>x. getArgAsFloat (addIntArg n m) (getNumArgs m) True = Inr x \<and>
      getArgAsInt32 (addFloatArg x m) (getNumArgs m) True = Inr n \<and>
      getArgAsFloat (addIntArg n m) (getNumArgs m) False = Inl OscExcInvalidArgumentType \<and>
      getArgAsInt32 (addFloatArg x m) (getNumArgs m) False = Inl OscExcInvalidArgumentType"
  using float_roundtrip [OF assms]
  by (intro exI [of _ "int_to_float n"])
    (simp add: getArgAsFloat_def getArgAsInt32_def getArgType_def getNumArgs_def addIntArg_def
      addFloatArg_def arg_at_def nth_append)

lemma int_float_conversion_witness:
  "\<exists>x. getArgAsFloat (addIntArg (- 5) example_message) 2 True = Inr x \<and>
      getArgAsInt32 (addFloatArg x example_message) 2 True = Inr (- 5)"
  using int_float_conversion [of "- 5" example_message]
  by (auto simp: example_message_def getNumArgs_def addIntArg_def addStringArg_def setAddress_def new_Message_def)

text \<open>
  C16.  Arguments as text.  For every index below the number of arguments \<^verbatim>\<open>getArgAsString\<close> with
  \<^verbatim>\<open>typeConvert\<close> gives a text: that of a number fits the local buffer of 1024 bytes with its NUL, and the
  text of an integer denotes that integer.  An index that is too large throws \<^verbatim>\<open>OscExcOutOfBounds\<close> in every
  accessor; a negative one is not checked and reads outside of the vector.
\<close>

theorem argument_text_fits:
  "(0 \<le> i \<and> i < getNumArgs m \<longrightarrow>
      (\<exists>t. getArgAsString m i True = Inr t \<and>
        (getArgType m i \<noteq> Inr TYPE_STRING \<longrightarrow> length t < 1024) \<and>
        (\<forall>n. getArgAsInt32 m i False = Inr n \<longrightarrow> decimal_value t = sint n))) \<and>
   (i < 0 \<or> getNumArgs m \<le> i \<longrightarrow>
      (\<exists>e. e = (if i < 0 then Fault else OscExcOutOfBounds) \<and>
        getArgType m i = Inl e \<and> getArgAsString m i c = Inl e \<and> getArgAsInt32 m i c = Inl e \<and>
        getArgAsFloat m i c = Inl e))"
  using text_of_argument [of i m] accessors_out_of_range [of i m, OF _ refl] by auto

lemma argument_text_fits_witness:
  "\<exists>t. getArgAsString (addIntArg (- 5) example_message) 2 True = Inr t \<and> decimal_value t = - 5"
proof -
  have "getArgAsInt32 (addIntArg (- 5) example_message) 2 False = Inr (- 5)"
    by (simp add: example_simps getArgAsInt32_def getArgType_def arg_at_def)
  then show ?thesis
    using argument_text_fits [of 2 "addIntArg (- 5) example_message"]
    by (auto simp: example_simps getNumArgs_def)
qed

section \<open>Endpoints and sockets\<close>


definition example_peer :: sockaddr where
  "example_peer = \<lparr>sin_addr = 0x0100007F, sin_port = 0x5000\<rparr>"

definition example_system :: system where
  "example_system =
     \<lparr>sys_resolve = (\<lambda>name. if name = dotted (from_endpoint example_peer) then Some (htonl (sin_addr example_peer)) else None),
      sys_socket = True, sys_pipe = True, sys_bind = True, sys_connect = True, sys_flag = False, sys_address = example_peer\<rparr>"

definition example_turn :: echo_turn where
  "example_turn = \<lparr>turn_sys = example_system, turn_buffer = replicate MESSAGE_BUFFER_SIZE 0, turn_garbage = 3\<rparr>"






text \<open>
  C19.  The latency and bandwidth test.  Its loops wait for messages in the queue of the listener, which the
  callback keeps empty and which nothing takes messages from: however the steps of \<^verbatim>\<open>main\<close>, the datagrams
  and the clock are interleaved, \<^verbatim>\<open>main\<close> does not come to its end; and it sends nothing at all unless a message
  came in before the callback was set.
\<close>

theorem performance_test_never_ends:
  assumes "OscPerformanceTest_start sys time argv = Started st" and "perf_run es st = Inr st'"
  shows "perf_pc st' \<notin> {ShutdownSender, MainReturned} \<and>
    (perf_sent st' \<noteq> [] \<longrightarrow> hasWaitingMessages (rx_listener st')) \<and>
    (\<forall>t es'. es = NetworkOrMain (MainTurn t) # es' \<longrightarrow> perf_sent st' = [])"
proof -
  have inv: "perf_inv st'" by (rule perf_inv_run [OF perf_inv_start [OF assms(1)] assms(2)])
  have "perf_sent st' = []" if es: "es = NetworkOrMain (MainTurn t) # es'" for t es'
  proof -
    obtain st1 where "perf_step t st = Inr st1" "perf_run es' st1 = Inr st'"
      using assms(2) es by (auto simp: ebind_eq_Inr_iff)
    then have "quiet st'" using quiet_run quiet_after_callback [OF assms(1)] by blast
    then show ?thesis using inv by (auto simp: quiet_def perf_inv_def)
  qed
  then show ?thesis using inv
    by (auto simp: perf_inv_def waiting_def hasWaitingMessages_def split: perf_pc.splits)
qed

lemma performance_test_never_ends_witness:
  "\<exists>st st'. OscPerformanceTest_start example_system 0 [[112], [104], sprintf_i 9000, sprintf_i 7000] = Started st \<and>
    perf_run [ClockIs 5, NetworkOrMain (MainTurn example_turn)] st = Inr st' \<and> perf_pc st' \<noteq> MainReturned"
proof -
  let ?argv = "[[112], [104], sprintf_i 9000, sprintf_i 7000] :: bytes list"
  obtain st where st: "OscPerformanceTest_start example_system 0 ?argv = Started st"
    "perf_pc st = SetLatencyCallback"
    by (simp add: OscPerformanceTest_start_def argv_at_def atoi_sprintf_i open_listener_def example_system_def
        UdpListeningReceiveSocket_def new_UdpSocket_def new_Multiplexer_def Bind_def AttachSocketListener_def Let_def)
  let ?es = "[ClockIs 5, NetworkOrMain (MainTurn example_turn)]"
  obtain st' where "perf_run ?es st = Inr st'"
    using st(2) by (simp add: perf_step.simps in_world_def)
  with performance_test_never_ends [OF st(1) this] st(1) show ?thesis by auto
qed

section \<open>Streams of arguments, text and dispatch\<close>

text \<open>
  C20.  \<^verbatim>\<open>ReceivedMessageArgumentStream\<close>.  Extracting the arguments of a received message with the
  operators for their types gives the values that were written; then the end is accepted and one more
  extraction throws \<^verbatim>\<open>MissingArgumentException\<close>, while asking for the end before the first argument
  throws \<^verbatim>\<open>ExcessArgumentException\<close>.
\<close>

theorem argument_stream_roundtrip:
  assumes "mem = enc_message addr vs" and "length mem < 2 ^ 31" and "0 \<notin> set addr"
    and "list_all wire_value vs" and "list_all streamable vs"
  shows "\<exists>m s. ReceivedMessage_packet mem \<lparr>contents = 0, packet_size = of_nat (length mem)\<rparr> = Inr m \<and>
    get_values vs mem (ArgumentStream m) = (Inr vs, s) \<and> get_end s = Inr s \<and>
    get_string mem s = (Inl MissingArgumentException, s) \<and>
    (if vs = [] then ArgumentStream m = s else get_end (ArgumentStream m) = Inl ExcessArgumentException)"
proof -
  have at: "mem_at mem 0 (enc_message addr vs)" using assms(1) by simp
  obtain s where s: "get_values vs mem (ArgumentStream (parsed_message 0 addr vs)) = (Inr vs, s)" "Eos s"
      "vs \<noteq> [] \<longrightarrow> \<not> Eos (ArgumentStream (parsed_message 0 addr vs))"
    using get_values_parsed [OF at assms(4,5)] by blast
  then show ?thesis
    using message_packet_at [OF assms(1,2,3,4)]
    by (intro exI [of _ "parsed_message 0 addr vs"] exI [of _ s])
      (auto simp: get_end_def get_string_def extract_arg_Eos)
qed

lemma argument_stream_roundtrip_witness:
  "\<exists>m s. ReceivedMessage_packet (enc_message [47] [OInt32 7, OString [104]])
      \<lparr>contents = 0, packet_size = of_nat (length (enc_message [47] [OInt32 7, OString [104]]))\<rparr> = Inr m \<and>
    get_values [OInt32 7, OString [104]] (enc_message [47] [OInt32 7, OString [104]]) (ArgumentStream m) =
      (Inr [OInt32 7, OString [104]], s)"
  using argument_stream_roundtrip [OF refl, of "[47]" "[OInt32 7, OString [104]]"]
  by (auto simp: length_enc_message length_enc_args roundup4_def)

text \<open>
  C21.  Printing.  What \<^verbatim>\<open>operator<<\<close> prints of a well-formed packet is its text: a line for each message
  with its arguments by type, bundles in braces with their elements indented.
\<close>

theorem packet_printed:
  assumes "wire_tree k" and "length (enc_tree k) < 2 ^ 31" and "indent st = 0"
  shows "print_packet ctime (enc_tree k) \<lparr>contents = 0, packet_size = of_nat (length (enc_tree k))\<rparr> st =
    Some (st\<lparr>printed := printed st @ show_tree ctime 0 k\<rparr>, None)"
  using print_packet_tree [OF refl assms] by (simp add: print_bytes_def)

lemma packet_printed_witness:
  "\<exists>st. print_packet (\<lambda>t. []) (enc_tree (TBundle 1 [TMessage [47] [OInt32 7]]))
      \<lparr>contents = 0, packet_size = of_nat (length (enc_tree (TBundle 1 [TMessage [47] [OInt32 7]])))\<rparr>
      \<lparr>printed = [], indent = 0\<rparr> = Some (st, None) \<and> printed st =
    bytes_of ''{ ( immediate )'' @ [10] @ bytes_of ''  [/ int32:7]'' @ [10] @ bytes_of ''}'' @ [10]"
  using packet_printed [of "TBundle 1 [TMessage [47] [OInt32 7]]" "\<lparr>printed = [], indent = 0\<rparr>" "\<lambda>t. []"]
  by (simp add: length_enc_bundle length_enc_message length_enc_args roundup4_def show_message_def
      show_time_tag_def indentation_def sprintf_i_def show_nat.simps byte_of_values enc_message_first,
      simp add: byte_of_def)



section \<open>The receiving loop\<close>

definition example_behaviour :: "unit behaviour" where
  "example_behaviour =
     \<lparr>on_packet = \<lambda>l data ep w. Some (w, False, None), on_timer = \<lambda>l w. (w, False, None),
      sockets = \<lambda>k. example_socket\<rparr>"

definition example_answer :: answer where
  "example_answer = \<lparr>now = (0, 0), selected = SelectReady [], datagram = None\<rparr>"

definition example_mux :: multiplexer where
  "example_mux =
     \<lparr>socketListeners = [(0, 0)],
      timerListeners = [\<lparr>initialDelayMs = 50, periodMs = 50, timer_listener = 0\<rparr>,
        \<lparr>initialDelayMs = 30, periodMs = 30, timer_listener = 1\<rparr>],
      break_flag = True, break_pipe = 1\<rparr>"

definition example_run :: "run_pc \<Rightarrow> unit mux_run" where
  "example_run l = \<lparr>mux = example_mux, pc = l, timerQueue = [], listeners_world = ()\<rparr>"

text \<open>
  C23.  The timers.  Whenever \<^verbatim>\<open>Run\<close> computes how long \<^verbatim>\<open>select\<close> may wait, its queue is ordered by time,
  so the first entry is the next timer: this holds at every point of the loop but between a timer's
  call and the sort that follows it.  From its first step on the queue holds exactly the attached timers:
  none is lost and none is scheduled twice.
\<close>

theorem timer_queue_ordered:
  assumes "pc s = RunEntry" and "run_steps b answers s = Some s'"
  shows "(queue_ordered_at (pc s') \<longrightarrow> sorted (map fst (timerQueue s'))) \<and>
    (pc s' = RunEntry \<or> mset (map snd (timerQueue s')) = mset (timerListeners (mux s')))"
  using timers_reached [OF assms] by (simp add: timers_kept_def)

lemma timer_queue_ordered_witness:
  "\<exists>s'. run_steps example_behaviour [example_answer] (example_run RunEntry) = Some s' \<and>
    pc s' = LoopHead \<and> length (timerQueue s') = 2 \<and> sorted (map fst (timerQueue s'))"
proof -
  obtain s' where s': "run_steps example_behaviour [example_answer] (example_run RunEntry) = Some s'"
      "pc s' = LoopHead" "length (timerQueue s') = 2"
    by (simp add: example_run_def example_mux_def run_step_def schedule_timers_def sort_calls_def)
  then show ?thesis using timer_queue_ordered [OF _ s'(1)] by (simp add: example_run_def)
qed



section \<open>The life of a listener\<close>

text \<open>
  C25.  In every interleaving of \<^verbatim>\<open>setup\<close>, \<^verbatim>\<open>shutdown\<close>, polling and the receiving thread, the socket lives
  as long as the thread that uses it, it is deleted only after the thread was joined, and the assertion
  in its destructor holds.
\<close>

theorem socket_outlives_thread:
  assumes "life_steps g (initial_life w flag u) s"
  shows "(thread s \<noteq> NoThread \<longrightarrow> socket_live s) \<and>
    (client s = DeleteSocket \<longrightarrow> thread s = NoThread \<and>
      (\<exists>m. delete_UdpListeningReceiveSocket (mux (run s)) = Inr m))"
  using life_inv_reachable [OF assms] delete_ok [of s] by (auto simp: life_inv_def)

lemma socket_outlives_thread_witness:
  "\<exists>s. life_steps 0 (initial_life (new_OscListener ()) False example_socket) s \<and>
    thread s = ThreadRuns \<and> socket_live s"
proof -
  obtain s where s: "life_steps 0 (initial_life (new_OscListener ()) False example_socket) s" "lost_break s"
    using lost_break_reachable by blast
  then show ?thesis using socket_outlives_thread [OF s(1)] by (auto simp: lost_break_def)
qed

text \<open>
  C26.  A break that comes too early is lost.  \<^verbatim>\<open>setup\<close> and \<^verbatim>\<open>shutdown\<close> can run before the new thread
  enters \<^verbatim>\<open>Run\<close>, which then resets \<^verbatim>\<open>break_\<close>; from there on, whatever arrives, the client waits in
  \<^verbatim>\<open>shutdown\<close> for ever.
\<close>

theorem early_shutdown_waits_for_ever:
  "\<exists>s. life_steps g (initial_life w flag u) s \<and>
    (\<forall>s'. life_steps g s s' \<longrightarrow> client s' = AwaitShutdown \<and> thread s' = ThreadRuns)"
proof -
  obtain s where "life_steps g (initial_life w flag u) s" "lost_break s" using lost_break_reachable by blast
  then show ?thesis using lost_break_forever unfolding lost_break_def by blast
qed

lemma early_shutdown_waits_for_ever_witness:
  "\<exists>s. life_steps 0 (initial_life (new_OscListener ()) False example_socket) s \<and>
    client s = AwaitShutdown \<and> thread s = ThreadRuns"
  using early_shutdown_waits_for_ever [of 0 "new_OscListener ()" False example_socket] by blast

text \<open>
  C27.  A shutdown whose break the loop sees returns.  With any long enough sequence of what the system
  answers, the receiving thread leaves its loop, and then \<^verbatim>\<open>shutdown\<close> can run to its end with the thread
  joined and the socket deleted, unless the handling of a packet threw or did not return.
\<close>

theorem shutdown_returns:
  assumes "life_steps g (initial_life w flag u) s" and "client s = AwaitShutdown" and "reopen s = None"
    and "thread s = ThreadRuns" and "break_flag (mux (run s))" and "0 < break_pipe (mux (run s))"
    and "pc (run s) \<noteq> RunEntry" and "steps_left (pc (run s)) \<le> length answers"
  shows "\<exists>r. run_steps (osc_behaviour g (receiver s)) answers (run s) = Some r \<and>
    life_steps g s (s\<lparr>run := r\<rparr>) \<and>
    ((\<exists>e. pc r = RunThrew e) \<or> pc r = RunStuck \<or>
     (\<exists>s'. life_steps g (s\<lparr>run := r\<rparr>) s' \<and> client s' = ClientIdle \<and> \<not> socket_live s' \<and> thread s' = NoThread))"
  by (rule shutdown_completes [OF life_inv_reachable [OF assms(1)] assms(2-8)])

lemma shutdown_returns_witness:
  "\<exists>(s :: unit life) r. client s = AwaitShutdown \<and>
    run_steps (osc_behaviour 0 (receiver s)) [example_answer] (run s) = Some r \<and> life_steps 0 s (s\<lparr>run := r\<rparr>)"
proof -
  obtain s where s: "life_steps 0 (initial_life (new_OscListener ()) False example_socket) s"
      "client s = AwaitShutdown" "reopen s = None" "thread s = ThreadRuns" "break_flag (mux (run s))"
      "0 < break_pipe (mux (run s))" "pc (run s) = LoopHead"
    using seen_break_reachable by blast
  then show ?thesis
    using shutdown_returns [OF s(1-6), of "[example_answer]"] by (simp del: run_steps.simps) blast
qed

section \<open>XMPP\<close>

text \<open>
  C28.  Account registration.  \<^verbatim>\<open>init\<close> returns with the server's verdict as its status, or never when
  the server neither decides nor ends the connection; every account it asks for has the user name and
  password it was given.
\<close>

theorem registration_gives_verdict:
  assumes "username \<noteq> []" and "password \<noteq> []" and "host \<noteq> []"
  shows "case verdict_of_session net of
      None \<Rightarrow> AccountRegistration_init debug net username password host port logging (r, g) = Blocked
    | Some st \<Rightarrow> \<exists>r' g' l. AccountRegistration_init debug net username password host port logging (r, g) =
          Done (True, (r', g')) \<and> mStatus r' = st \<and>
        glog g' = glog g @ l \<and> creates_only username password l"
  by (rule registration_result [OF assms])

definition example_registration :: "account_callback session" where
  "example_registration =
     \<lparr>connect_callbacks = [AccountOnConnect], connect_result = True,
      recvs = [([RegistrationFields 3], ConnNoError), ([RegistrationAnswer RegistrationSuccess], ConnNoError)]\<rparr>"

lemma verdict_example: "verdict_of_session example_registration = Some SUCCESS"
  by (simp add: example_registration_def verdict_of_session_def last_verdict_def Let_def)

lemma registration_gives_verdict_witness:
  "\<exists>r g. AccountRegistration_init False example_registration [97] [98] [99] 5222 False
      (new_AccountRegistration, no_gloox) = Done (True, (r, g)) \<and> mStatus r = SUCCESS"
  using registration_gives_verdict [of "[97]" "[98]" "[99]" False example_registration 5222 False
      new_AccountRegistration no_gloox]
  by (auto simp: verdict_example)

text \<open>
  C29.  The state of \<^verbatim>\<open>xmpp::Client\<close>.  After any sequence of calls of the application and callbacks of
  gloox, the roster has its keys in order and once each, each peer is stored under its own name and is
  connected exactly if its status says so, and a client that is connected has a gloox client.
\<close>

theorem client_state_invariant:
  assumes "(client_step debug)\<^sup>*\<^sup>* new_Client s"
  shows "map_ok (mRoster s) \<and>
    (\<forall>k p. map_find k (mRoster s) = Some p \<longrightarrow>
      mUsername p = k \<and> (mConnected p \<longleftrightarrow> peer_status p \<in> {Available, Chat, Away, DND, XA})) \<and>
    (mIsConnected (mListener s) \<longrightarrow> mClient (mListener s) \<noteq> None)"
proof -
  have inv: "client_inv s" by (rule client_inv_reachable [OF assms])
  have "peer_status p < Unavailable \<longleftrightarrow> peer_status p \<in> {Available, Chat, Away, DND, XA}" for p :: peer
    by (cases "peer_status p") (auto simp: less_status_t_def)
  with inv show ?thesis
    using roster_ok_find [of "mRoster s"] by (auto simp: client_inv_def roster_ok_def peer_ok_def)
qed

lemma client_state_invariant_witness:
  "map_ok (mRoster (setSignal SignalConnect True new_Client))"
  using client_state_invariant [of False "setSignal SignalConnect True new_Client"]
  by (meson app_signal r_into_rtranclp)

text \<open>
  C30.  The roster.  After the server has sent a roster and then presences, the status of a peer on
  the roster is the last one the server sent, \<^verbatim>\<open>Invalid\<close> before the first and for anyone else, and a peer
  is connected exactly if its status is below \<^verbatim>\<open>Unavailable\<close>; the callbacks return unless the
  application has set the presence signal and the server names somebody who is not on the roster.
\<close>

theorem roster_follows_presence:
  assumes "mDelegate (mListener s)" and "SignalRosterPresence \<notin> set (mSignals s) \<or>
      list_all (\<lambda>c. jid_username (fst c) \<in> set roster) ps"
  shows "\<exists>s'. deliver_all (Listener_handle debug) (OnRoster roster # map presence_callback ps) s = Done s' \<and>
    getStatusForPeer name s' =
      (if name \<in> set roster
       then case last_presence name ps of None \<Rightarrow> Invalid | Some t \<Rightarrow> presenceToStatus t else Invalid) \<and>
    (isPeerConnected name s' \<longleftrightarrow> getStatusForPeer name s' < Unavailable)"
proof -
  obtain s' where s': "deliver_all (Listener_handle debug) (OnRoster roster # map presence_callback ps) s = Done s'"
    using roster_presence_returns [OF assms] by blast
  then show ?thesis using roster_then_presence [OF assms(1) s'] by blast
qed

lemma roster_follows_presence_witness:
  "\<exists>s'. deliver_all (Listener_handle False)
      [OnRoster [[97]], OnRosterPresence \<lparr>jid_username = [97], jid_server = []\<rparr> [] PresenceAway []] new_Client =
      Done s' \<and> getStatusForPeer [97] s' = Away \<and> isPeerConnected [97] s'"
  using roster_follows_presence [of new_Client "[[97]]"
      "[(\<lparr>jid_username = [97], jid_server = []\<rparr>, [], PresenceAway, [])]" False "[97]"]
  by (auto simp: new_Client_def new_Listener_def last_presence_def presenceToStatus_def status_of_value_def
      less_status_t_def)



text \<open>
  \<^verbatim>\<open>connect\<close> while connected gives true, but its new gloox client is never told to connect, by
  \<^verbatim>\<open>connect\<close> or by its thread; messages are handed to that client, and \<^verbatim>\<open>sendMessage\<close> gives true.
\<close>

theorem second_connect_never_connects:
  assumes "mIsConnected (mListener s)" and "user \<noteq> []" and "server \<noteq> []"
    and "recipient \<noteq> []" and "message \<noteq> []"
  shows "\<exists>s' c l s''. Client_connect debug True user pass server port lg s = (True, s') \<and>
    spawnThread debug net s' = Done s' \<and> mClient (mListener s') = Some c \<and>
    glog (gloox_state s') = glog (gloox_state s) @ l \<and> (\<forall>h t. (h, ConnectCall t) \<notin> set l) \<and>
    Client_sendMessage recipient message subject s' = Done (True, s'') \<and>
    glog (gloox_state s'') = glog (gloox_state s') @
      [(c, SendMessageStanza MessageChat (AddressText (recipient @ bytes_of ''@'' @ server)) message subject)]"
  using connect_twice [OF assms(1-3), of debug pass port lg net recipient message subject] assms(4,5) by blast

definition example_client :: xmpp_client where
  "example_client = set_listener (\<lambda>l. l\<lparr>mIsConnected := True, mClient := Some 0, mServer := [99]\<rparr>)
     (new_Client\<lparr>mRoster := [([97], Peer [97] True Available), ([98], Peer [98] False Unavailable)],
        mEventQueue := [\<lparr>event_username = [97], event_message = [104, 105]\<rparr>]\<rparr>)"

lemma second_connect_never_connects_witness:
  "\<exists>s' c s''. Client_connect False True [97] [98] [99] 5222 False example_client = (True, s') \<and>
    mClient (mListener s') = Some c \<and>
    Client_sendMessage [100] [104, 105] [] s' = Done (True, s'')"
  using second_connect_never_connects [of example_client "[97]" "[99]" "[100]" "[104, 105]" False "[98]" 5222
      False undefined "[]"]
  by (auto simp: example_client_def)



text \<open>
  Polling events.  The messages the server delivers go to the end of the queue, and
  \<^verbatim>\<open>getNextEvent\<close> takes the first one; the caller can read back the sender and the text from its buffers
  if they are shorter than the buffers.  A text as long as its buffer is cut and has no NUL.
\<close>

theorem events_polled_in_order:
  assumes "mEventQueue s = e # rest" and "unat n = length ubuf" and "unat k = length mbuf"
    and "0 \<notin> set (event_username e)" and "0 \<notin> set (event_message e)"
    and "length (event_username e) < length ubuf"
  shows "\<exists>u m. getNextEvent (Some ubuf) n (Some mbuf) k (Some s) =
      Done (0, Some u, Some m, Some (s\<lparr>mEventQueue := rest\<rparr>)) \<and>
    read_cstr u 0 = Inr (event_username e) \<and>
    read_cstr m 0 = (if length (event_message e) < length mbuf then Inr (event_message e) else Inl Fault) \<and>
    mEventQueue (Client_handleMessage msg (s\<lparr>mEventQueue := rest\<rparr>)) =
      rest @ [\<lparr>event_username = jid_username (msg_from msg), event_message = msg_body msg\<rparr>]"
proof -
  obtain u where u: "strncpy ubuf (event_username e) n = Done u" "read_cstr u 0 = Inr (event_username e)"
    using read_strncpy [of n ubuf "event_username e"] assms by auto
  obtain m where m: "strncpy mbuf (event_message e) k = Done m"
      "read_cstr m 0 = (if length (event_message e) < length mbuf then Inr (event_message e) else Inl Fault)"
  proof (cases "length (event_message e) < length mbuf")
    case True
    then obtain m where "strncpy mbuf (event_message e) k = Done m" "read_cstr m 0 = Inr (event_message e)"
      using read_strncpy [of k mbuf "event_message e"] assms(3,5) by auto
    then show ?thesis using that True by simp
  next
    case False
    then obtain m where "strncpy mbuf (event_message e) k = Done m" "read_cstr m 0 = Inl Fault"
      using strncpy_unterminated [OF _ assms(5) assms(3) [symmetric]] assms(3) by auto
    then show ?thesis using that False by simp
  qed
  have "mEventQueue (Client_handleMessage msg (s\<lparr>mEventQueue := rest\<rparr>)) =
      rest @ [\<lparr>event_username = jid_username (msg_from msg), event_message = msg_body msg\<rparr>]"
    by (simp add: Client_handleMessage_def Let_def)
  then show ?thesis using u m assms(1) by (simp add: getNextEvent_def)
qed

lemma events_polled_in_order_witness:
  "\<exists>u m. getNextEvent (Some (replicate 4 1)) 4 (Some (replicate 2 1)) 2 (Some example_client) =
      Done (0, Some u, Some m, Some (example_client\<lparr>mEventQueue := []\<rparr>)) \<and>
    read_cstr u 0 = Inr [97] \<and> read_cstr m 0 = Inl Fault"
proof -
  have q: "mEventQueue example_client = [\<lparr>event_username = [97], event_message = [104, 105]\<rparr>]"
    by (simp add: example_client_def)
  show ?thesis
    using events_polled_in_order [OF q, of 4 "replicate 4 1" 2 "replicate 2 1"
        "\<lparr>msg_subtype = MessageChat, msg_from = \<lparr>jid_username = [], jid_server = []\<rparr>, msg_body = [], msg_subject = []\<rparr>"]
    by (simp, blast)
qed

section \<open>The load generator\<close>




section \<open>The XMPP programs\<close>



text \<open>
  C35.  The mock server plays the protocol of the game.  However its \<^verbatim>\<open>main\<close> and the callbacks of its client
  are interleaved: the first message that speaks of a registration names the user, a later one that speaks of
  the initialisation starts the game, and \<^verbatim>\<open>main\<close> sends that user the ten test messages in their order, over
  and over, and nothing before; each goes out to the user's address while the connection holds.
\<close>

theorem controller_mock_plays:
  assumes "MockForController_start debug thread_ok argv = Started st" and "(controller_step debug)\<^sup>*\<^sup>* st st'"
  shows "case fold play (signal_calls (the_client st')) WaitingForUser of
      Playing user \<Rightarrow>
        main_calls st' = map (\<lambda>i. (user, test_messages ! (i mod 10))) [0..<length (main_calls st')] \<and>
        (\<forall>h. \<not> main_ended st' \<and> is_connected st' \<and> user \<noteq> [] \<and> mIsConnected (mListener (the_client st')) \<and>
            mClient (mListener (the_client st')) = Some h \<longrightarrow>
          (\<exists>st''. controller_turn st' = Done st'' \<and>
            glog (gloox_state (the_client st'')) = glog (gloox_state (the_client st')) @
              [(h, SendMessageStanza MessageChat (AddressText (user @ bytes_of ''@'' @ mServer (mListener (the_client st'))))
                (test_messages ! (length (main_calls st') mod 10)) [])]))
    | _ \<Rightarrow> main_calls st' = []"
proof -
  have inv: "controller_inv st'" by (rule controller_inv_reached [OF assms(2) controller_inv_start [OF assms(1)]])
  then have i: "msg_index st' = length (main_calls st') mod 10" "msg_index st' < 10"
    and g: "fold play (signal_calls (the_client st')) WaitingForUser = game_of st'"
    and c: "cyclic (ios_user st') (main_calls st')" "main_calls st' \<noteq> [] \<longrightarrow> is_initialized st'"
      "is_initialized st' \<longrightarrow> is_registered st'"
    by (simp_all add: plays_def)
  show ?thesis
  proof (cases "game_of st'")
    case (Playing user)
    then have "ios_user st' = user" by (auto simp: game_of_def split: if_splits)
    then show ?thesis
      using c(1) playing_turn [OF Playing] i unfolding g Playing by (auto simp: cyclic_def)
  qed (use c g in \<open>auto simp: game_of_def split: if_splits\<close>)
qed

lemma controller_mock_plays_witness:
  "\<exists>st st' user. MockForController_start False True
      [[109], [97] @ byte_of (CHR ''@'') # [98], [112], [48]] = Started st \<and>
    (controller_step False)\<^sup>*\<^sup>* st st' \<and> length (main_calls st') = 1 \<and>
    main_calls st' = [(user, bytes_of ''gameStart'')]"
proof -
  let ?argv = "[[109], [97] @ byte_of (CHR ''@'') # [98], [112], [48]]"
  let ?said = "\<lambda>text. \<lparr>msg_subtype = MessageChat, msg_from = \<lparr>jid_username = [97], jid_server = [98]\<rparr>,
    msg_body = bytes_of text, msg_subject = []\<rparr>"
  obtain st where st: "MockForController_start False True ?argv = Started st" "fresh_controller st"
    "\<not> is_registered st" "\<not> is_initialized st"
    using MockForController_starts [of ?argv "[109]" "[97]" "[98]" "[112]" "[48]" False]
    by (auto simp: byte_of_def string_size_ok_def)
  obtain st' where st': "(controller_step False)\<^sup>*\<^sup>* st st'" "length (main_calls st') = 1"
    using game_starts [OF st(2-4), of "?said ''registered:''" "?said ''init:''" False] by (auto simp: bytes_of_def)
  then obtain c where "main_calls st' = [c]" by (cases "main_calls st'") auto
  then show ?thesis
    using controller_mock_plays [OF st(1) st'(1)] st(1) st'
    by (auto simp: test_messages_def split: game.splits)
qed

text \<open>
  C36.  The XMPP echo client.  When its connection ends, \<^verbatim>\<open>main\<close> returns 0, and what it has handed to gloox are
  the messages it was sent, each with its own text and subject to its own sender, in the order of their arrival.
\<close>

theorem xmpp_echo_returns_messages:
  assumes "XmppEchoClient_start debug argv = Started es"
    and "list_all no_registration (session_callbacks net)" and "ends_with_error net"
  shows "\<exists>e s. XmppEchoClient_main debug net argv = Started (Done (0, e, s)) \<and>
    stanzas s = map answer_to (messages_in (session_callbacks net)) \<and>
    mEchoedMessages e = of_nat (length (messages_in (session_callbacks net)))"
  by (rule XmppEchoClient_main_echoes [OF assms])

definition example_text :: gloox_message where
  "example_text = \<lparr>msg_subtype = MessageChat, msg_from = \<lparr>jid_username = [97], jid_server = [98]\<rparr>,
     msg_body = [104, 105], msg_subject = []\<rparr>"

definition example_talk :: "listener_callback session" where
  "example_talk = \<lparr>connect_callbacks = [OnConnect], connect_result = True,
     recvs = [([OnMessage example_text], ConnNoError), ([], ConnStreamClosed)]\<rparr>"

lemma example_user: "byte_of (CHR ''@'') \<notin> set [97]" "string_size_ok ([97] @ byte_of (CHR ''@'') # [98])"
  by (simp_all add: byte_of_def string_size_ok_def)

lemma xmpp_echo_returns_messages_witness:
  "\<exists>e s. XmppEchoClient_main False example_talk [[109], [97] @ byte_of (CHR ''@'') # [98], [112]] = Started (Done (0, e, s)) \<and>
    stanzas s = [(MessageChat, AddressOf \<lparr>jid_username = [97], jid_server = [98]\<rparr>, [104, 105], [])] \<and> mEchoedMessages e = 1"
proof -
  obtain es where "XmppEchoClient_start False [[109], [97] @ byte_of (CHR ''@'') # [98], [112]] = Started es"
    using split_at_char [OF example_user] by (simp add: XmppEchoClient_start_def argv_at_def)
  from xmpp_echo_returns_messages [OF this, of example_talk] show ?thesis
    by (simp add: example_talk_def session_callbacks_def ends_with_error_def example_text_def answer_to_def)
qed




definition example_view :: detail_view where
  "example_view = \<lparr>gameID = [55], selectedRound = 0, selectedDifficulty = 1, modeOneSelected = [48], modeTwoSelected = [48],
     modeThreeSelected = [48], parameterOne = [97], parameterTwo = [], parameterThree = [98]\<rparr>"

definition example_docent :: docent where
  "example_docent = \<lparr>docent_isConnected = True, isGameStarted = False, gameIDToBeLoaded = None, gamePaused = False,
     isGameLoaded = False, gameList = [], gameTitle = [], gameListDateLastUpdated = None,
     advancedParam1 = None, advancedParam2 = None, advancedParam3 = None, isInitMessageSentToServer = True,
     isCheckGameRunningMessageSent = True,
     docent_plugin = Some (example_client\<lparr>mEventQueue :=
       [\<lparr>event_username = [97], event_message = kGameList @ pairs_text [([65], [49]), ([66], [50])]\<rparr>,
        \<lparr>event_username = [98], event_message = apply_message example_view\<rparr>]\<rparr>),
     saved = ([], [], None), posted = [], init_pending = 0\<rparr>"

definition example_env :: docent_env where
  "example_env = \<lparr>env_debug = False, env_alloc = True, env_thread = True, env_meanwhile = Done, env_join = True, env_deleting = Done\<rparr>"


text \<open>
  C39.  The docent without a connection.  Each second, \<^verbatim>\<open>checkConnection\<close> cannot stop its client, since it is not
  connected, and connects it once more: after \<open>n\<close> seconds there are \<open>n\<close> more threads and \<open>n\<close> more
  gloox clients, none of them deleted, and only the last is known to the client.
\<close>

theorem docent_reconnects_for_ever:
  assumes "docent_plugin st = Some s" and "\<not> mIsConnected (mListener s)" and "env_thread env"
  shows "\<exists>st' s' l. deliver_all (checkConnection env) polls st = Done st' \<and> docent_plugin st' = Some s' \<and>
    threads s' = threads s + length polls \<and> objects (gloox_state s') = objects (gloox_state s) + length polls \<and>
    glog (gloox_state s') = glog (gloox_state s) @ l \<and> (\<forall>h. (h, DeleteObject) \<notin> set l) \<and>
    (polls \<noteq> [] \<longrightarrow> mClient (mListener s') = Some (objects (gloox_state s') - 1))"
  using checks_without_connection [OF assms] by blast

lemma docent_reconnects_for_ever_witness:
  "\<exists>st' s'. deliver_all (checkConnection example_env) [[], []] (example_docent\<lparr>docent_plugin := Some new_Client\<rparr>) = Done st' \<and>
    docent_plugin st' = Some s' \<and> threads s' = 2 \<and> mClient (mListener s') = Some 1"
proof -
  have new: "threads new_Client = 0" "objects (gloox_state new_Client) = 0" "\<not> mIsConnected (mListener new_Client)"
    by (simp_all add: new_Client_def new_Listener_def no_gloox_def)
  have plugin: "docent_plugin (example_docent\<lparr>docent_plugin := Some new_Client\<rparr>) = Some new_Client"
    and env: "env_thread example_env"
    by (simp_all add: example_env_def)
  obtain st' s' where
    "deliver_all (checkConnection example_env) [[], []] (example_docent\<lparr>docent_plugin := Some new_Client\<rparr>) = Done st'"
    "docent_plugin st' = Some s'" "threads s' = 2" "objects (gloox_state s') = 2"
    "mClient (mListener s') = Some (objects (gloox_state s') - 1)"
    using docent_reconnects_for_ever [OF plugin new(3) env, of "[[], []]"] new(1,2) by fastforce
  then show ?thesis by (intro exI conjI) simp_all
qed

text \<open>
  C40.  The docent's list.  From a start with a saved list of as many titles as identifiers, whatever it is sent and
  whatever the views ask for, there are as many titles as identifiers, so that every row of the table has its
  title, and what is saved is what is shown.
\<close>

theorem docent_rows_have_titles:
  assumes "GameModel_init env (titles, games, date) p = Done st" and "length titles = length games"
    and "(docent_step env)\<^sup>*\<^sup>* st st'"
  shows "length (gameTitle st') = length (gameList st') \<and>
    saved st' = (gameTitle st', gameList st', gameListDateLastUpdated st')"
  using docent_inv_reached [OF assms(3) GameModel_init_inv [OF assms(1,2)]] by (simp add: docent_inv_def)

lemma docent_rows_have_titles_witness:
  "\<exists>st st'. GameModel_init example_env ([[65]], [[49]], None) (Some example_client) = Done st \<and>
    (docent_step example_env)\<^sup>*\<^sup>* st st' \<and> length (gameTitle st') = length (gameList st') \<and> gameTitle st' = [[65]] \<and>
    docent_plugin st' = None"
proof -
  obtain st where st: "GameModel_init example_env ([[65]], [[49]], None) (Some example_client) = Done st" "gameTitle st = [[65]]"
    using serverAddress_c_str docent_connects [of False example_client]
    by (auto simp: GameModel_init_def docent_start_def startDocentInterface_def startInterface_def createXmppClient_def
        xmppClientCreated_def example_env_def)
  have "(docent_step example_env)\<^sup>*\<^sup>* st (st\<lparr>docent_plugin := None\<rparr>)"
    by (intro r_into_rtranclp plugin_runs)
  then show ?thesis using docent_rows_have_titles [OF st(1)] st by fastforce
qed

end
